theory Spec2Isabelle
  imports Complex_Main "HOL-Library.Multiset"
begin

section \<open>Numbers and column types\<close>

text \<open>
  A JavaScript \<open>number\<close> is modelled as \<open>NaN\<close> or an exact rational: the finite doubles the
  application handles (decimal quantities and prices with a few digits) are represented by the
  decimal they print as, which is also the value PostgREST hands to PostgreSQL. Infinities and
  the sign of zero are left out.
\<close>

datatype number = NaN | Num rat

text \<open>
  JavaScript rounds a product, a sum and a quotient to a double (\<open>1.5 * 0.35\<close> is
  \<open>0.5249999999999999\<close>). The three operations are not defined here: the functions that
  calculate take them as a parameter, and nothing is assumed about them. Changing the sign
  is exact.
\<close>

record arith =
  fmul :: "number \<Rightarrow> number \<Rightarrow> number"
  fadd :: "number \<Rightarrow> number \<Rightarrow> number"
  fdiv :: "number \<Rightarrow> number \<Rightarrow> number"

fun jneg :: "number \<Rightarrow> number" where
  "jneg (Num a) = Num (- a)"
| "jneg NaN = NaN"

text \<open>\<open>x || d\<close> on numbers: \<open>NaN\<close> and \<open>0\<close> are falsy.\<close>

fun num_or :: "number \<Rightarrow> number \<Rightarrow> number" where
  "num_or NaN d = d"
| "num_or (Num a) d = (if a = 0 then d else Num a)"

datatype db_error =
    Numeric_overflow
  | Not_null_violation
  | Foreign_key_violation
  | Unique_violation
  | Invalid_input
  | Cardinality_violation

text \<open>
  A column \<open>numeric(p,s)\<close> holds an integer number of units of \<open>10\<^sup>-\<^sup>s\<close> with fewer than
  \<open>p\<close> digits. PostgreSQL rounds a written value to the scale (ties away from zero) and
  raises an error when the rounded value does not fit. \<open>NaN\<close> is serialised as JSON
  \<open>null\<close>.
\<close>

definition round_half_away :: "rat \<Rightarrow> int" where
  "round_half_away x = (if 0 \<le> x then \<lfloor>x + 1 / 2\<rfloor> else - \<lfloor>- x + 1 / 2\<rfloor>)"

definition fits :: "nat \<Rightarrow> int \<Rightarrow> bool" where
  "fits p v = (\<bar>v\<bar> < 10 ^ p)"

fun to_numeric :: "nat \<Rightarrow> nat \<Rightarrow> number \<Rightarrow> db_error + int" where
  "to_numeric p s NaN = Inl Not_null_violation"
| "to_numeric p s (Num r) =
     (let v = round_half_away (r * 10 ^ s)
      in if fits p v then Inr v else Inl Numeric_overflow)"

fun to_numeric_null :: "nat \<Rightarrow> nat \<Rightarrow> number \<Rightarrow> db_error + int option" where
  "to_numeric_null p s NaN = Inr None"
| "to_numeric_null p s (Num r) =
     (let v = round_half_away (r * 10 ^ s)
      in if fits p v then Inr (Some v) else Inl Numeric_overflow)"

text \<open>
  A column \<open>integer\<close>: a number with a fractional part is refused as invalid input
  (\<open>22P02\<close>), a whole number outside 32 bits as out of range (\<open>22003\<close>).
\<close>

fun to_integer :: "number \<Rightarrow> db_error + int" where
  "to_integer NaN = Inl Not_null_violation"
| "to_integer (Num r) =
     (if r \<noteq> of_int \<lfloor>r\<rfloor> then Inl Invalid_input
      else if - (2 ^ 31) \<le> \<lfloor>r\<rfloor> \<and> \<lfloor>r\<rfloor> < 2 ^ 31 then Inr \<lfloor>r\<rfloor>
      else Inl Numeric_overflow)"

definition of_numeric :: "nat \<Rightarrow> int \<Rightarrow> number" where
  "of_numeric s v = Num (of_int v / 10 ^ s)"

text \<open>Sequencing of fallible steps: the first error aborts.\<close>

fun thenE :: "'e + 'a \<Rightarrow> ('a \<Rightarrow> 'e + 'b) \<Rightarrow> 'e + 'b" where
  "thenE (Inl e) f = Inl e"
| "thenE (Inr a) f = f a"

fun foldE :: "('s \<Rightarrow> 'a \<Rightarrow> 'e + 's) \<Rightarrow> 'a list \<Rightarrow> 's \<Rightarrow> 'e + 's" where
  "foldE f [] s = Inr s"
| "foldE f (x # xs) s = thenE (f s x) (foldE f xs)"


section \<open>Client-side data (types/invoice.ts, types/inventory.ts)\<close>

record InvoiceItem =
  name :: string
  quantity :: number
  unit :: string
  percentage :: number
  net_price :: number
  gross_price :: number
  total_net :: number
  total_gross :: number

record ParsedInvoiceData =
  invoiceNumber :: string
  date :: string
  vendor :: string
  items :: "InvoiceItem list"
  totalNet :: number
  totalGross :: number

type_synonym uuid = nat

record CreateSaleItem =
  csi_product_id :: uuid
  csi_quantity :: number
  csi_unit_price :: number

record CreateSaleData =
  csd_sale_number :: string
  csd_date :: string
  csd_customer :: string
  csd_items :: "CreateSaleItem list"

record CreateInventoryData =
  cid_name :: string
  cid_product_ids :: "uuid list"


section \<open>The row store (the two migrations)\<close>

text \<open>
  Rows are records, tables are lists of rows in insertion order, and \<open>gen_random_uuid()\<close> is
  a counter, so that a generated id differs from every id generated before. Columns
  \<open>numeric(10,3)\<close> are integers counting thousandths, columns \<open>numeric(10,2)\<close> integers
  counting hundredths. Text is stored as bytes (UTF-8). The columns \<open>created_at\<close> and
  \<open>updated_at\<close>, which nothing reads back, are left out.
\<close>

datatype movement_type = Purchase | Sale | Adjustment | Inventory

datatype reference_type = Invoice_item | Inventory_ref | Manual | Sale_item

datatype inventory_status = Draft | In_progress | Completed

record product =
  p_id :: uuid
  p_name :: string
  p_unit :: string
  current_stock :: int
  min_stock_level :: int
  last_purchase_price :: "int option"

record stock_movement =
  m_id :: uuid
  m_product_id :: uuid
  m_movement_type :: movement_type
  m_quantity :: int
  m_reference_id :: "uuid option"
  m_reference_type :: "reference_type option"
  m_notes :: string

record invoice =
  inv_id :: uuid
  inv_filename :: string
  inv_invoice_number :: string
  inv_date :: string
  inv_vendor :: string
  inv_total_net :: int
  inv_total_gross :: int
  inv_processed_at :: string

record invoice_item =
  ii_id :: uuid
  ii_invoice_id :: uuid
  ii_name :: string
  ii_quantity :: int
  ii_unit :: string
  ii_percentage :: int
  ii_net_price :: int
  ii_gross_price :: int
  ii_total_net :: int
  ii_total_gross :: int

record inventory =
  ivt_id :: uuid
  ivt_name :: string
  ivt_status :: inventory_status
  ivt_completed_at :: "string option"

record inventory_item =
  it_id :: uuid
  it_inventory_id :: uuid
  it_product_id :: uuid
  expected_quantity :: int
  counted_quantity :: "int option"

record sale =
  s_id :: uuid
  s_sale_number :: string
  s_date :: string
  s_customer :: string
  s_total_amount :: int

record sale_item =
  si_id :: uuid
  si_sale_id :: uuid
  si_product_id :: uuid
  si_quantity :: int
  si_unit_price :: int
  si_total_price :: int

record db =
  products :: "product list"
  stock_movements :: "stock_movement list"
  invoices :: "invoice list"
  invoice_items :: "invoice_item list"
  inventories :: "inventory list"
  inventory_items :: "inventory_item list"
  sales :: "sale list"
  sale_items :: "sale_item list"
  next_uuid :: nat

definition empty_db :: db where
  "empty_db = \<lparr>products = [], stock_movements = [], invoices = [], invoice_items = [],
     inventories = [], inventory_items = [], sales = [], sale_items = [], next_uuid = 0\<rparr>"

text \<open>
  \<open>difference numeric(10,3) GENERATED ALWAYS AS (counted_quantity - expected_quantity) STORED\<close>:
  null while the item is not counted.
\<close>

definition difference :: "inventory_item \<Rightarrow> int option" where
  "difference it = map_option (\<lambda>c. c - expected_quantity it) (counted_quantity it)"

definition product_exists :: "db \<Rightarrow> uuid \<Rightarrow> bool" where
  "product_exists d pid = (\<exists>p \<in> set (products d). p_id p = pid)"


subsection \<open>Triggers on \<open>stock_movements\<close>\<close>

datatype tg_event =
    TG_INSERT stock_movement
  | TG_DELETE stock_movement
  | TG_UPDATE stock_movement stock_movement

text \<open>
  \<open>UPDATE products SET current_stock = f(current_stock) WHERE id = pid\<close>; the statement fails
  when a new value does not fit \<open>numeric(10,3)\<close>.
\<close>

definition set_current_stock :: "uuid \<Rightarrow> (int \<Rightarrow> int) \<Rightarrow> db \<Rightarrow> db_error + db" where
  "set_current_stock pid f d =
     (if \<exists>p \<in> set (products d). p_id p = pid \<and> \<not> fits 10 (f (current_stock p))
      then Inl Numeric_overflow
      else Inr (d\<lparr>products :=
             map (\<lambda>p. if p_id p = pid then p\<lparr>current_stock := f (current_stock p)\<rparr> else p)
               (products d)\<rparr>))"

text \<open>\<open>update_product_stock()\<close>, with \<open>TG_OP\<close>, \<open>OLD\<close> and \<open>NEW\<close> given by the event.\<close>

fun update_product_stock :: "tg_event \<Rightarrow> db \<Rightarrow> db_error + db" where
  "update_product_stock (TG_INSERT new) d =
     set_current_stock (m_product_id new) (\<lambda>s. s + m_quantity new) d"
| "update_product_stock (TG_DELETE old) d =
     set_current_stock (m_product_id old) (\<lambda>s. s - m_quantity old) d"
| "update_product_stock (TG_UPDATE old new) d =
     set_current_stock (m_product_id new) (\<lambda>s. s - m_quantity old + m_quantity new) d"

text \<open>
  \<open>update_product_price_from_purchase()\<close>: the scalar subquery
  \<open>SELECT ii.net_price FROM invoice_items ii WHERE ii.id = NEW.reference_id\<close> is null when no
  row has that id.
\<close>

definition net_price_of_item :: "db \<Rightarrow> uuid option \<Rightarrow> db_error + int option" where
  "net_price_of_item d ref =
     (case filter (\<lambda>ii. Some (ii_id ii) = ref) (invoice_items d) of
        [] \<Rightarrow> Inr None
      | [ii] \<Rightarrow> Inr (Some (ii_net_price ii))
      | _ \<Rightarrow> Inl Cardinality_violation)"

definition update_product_price_from_purchase :: "stock_movement \<Rightarrow> db \<Rightarrow> db_error + db" where
  "update_product_price_from_purchase new d =
     (if m_movement_type new = Purchase \<and> m_reference_type new = Some Invoice_item
      then thenE (net_price_of_item d (m_reference_id new))
             (\<lambda>price. Inr (d\<lparr>products :=
                map (\<lambda>p. if p_id p = m_product_id new
                          then p\<lparr>last_purchase_price := price\<rparr> else p) (products d)\<rparr>))
      else Inr d)"


subsection \<open>Statements on \<open>stock_movements\<close>\<close>

record movement_values =
  mv_product_id :: uuid
  mv_movement_type :: movement_type
  mv_quantity :: number
  mv_reference_id :: "uuid option"
  mv_reference_type :: "reference_type option"
  mv_notes :: string

text \<open>
  One inserted row: the column checks, the new row, then the two \<open>AFTER INSERT\<close> row triggers
  (\<open>trigger_update_product_price\<close> before \<open>trigger_update_product_stock\<close>, by name).
\<close>

definition insert_movement_row :: "db \<Rightarrow> movement_values \<Rightarrow> db_error + db" where
  "insert_movement_row d v =
     thenE (to_numeric 10 3 (mv_quantity v)) (\<lambda>q.
       if \<not> product_exists d (mv_product_id v) then Inl Foreign_key_violation
       else
         let row = \<lparr>m_id = next_uuid d, m_product_id = mv_product_id v,
                    m_movement_type = mv_movement_type v, m_quantity = q,
                    m_reference_id = mv_reference_id v,
                    m_reference_type = mv_reference_type v, m_notes = mv_notes v\<rparr>;
             d1 = d\<lparr>stock_movements := stock_movements d @ [row],
                    next_uuid := Suc (next_uuid d)\<rparr>
         in thenE (update_product_price_from_purchase row d1)
              (update_product_stock (TG_INSERT row)))"

text \<open>\<open>supabase.from('stock_movements').insert(rows)\<close>: one statement, all rows or none.\<close>

definition insert_stock_movements :: "movement_values list \<Rightarrow> db \<Rightarrow> db_error + db" where
  "insert_stock_movements vs d = foldE insert_movement_row vs d"

text \<open>\<open>DELETE FROM stock_movements WHERE id = mid\<close>, the trigger firing for each deleted row.\<close>

definition delete_stock_movement :: "uuid \<Rightarrow> db \<Rightarrow> db_error + db" where
  "delete_stock_movement mid d =
     foldE (\<lambda>d' old. update_product_stock (TG_DELETE old) d')
       (filter (\<lambda>m. m_id m = mid) (stock_movements d))
       (d\<lparr>stock_movements := filter (\<lambda>m. m_id m \<noteq> mid) (stock_movements d)\<rparr>)"

text \<open>
  \<open>UPDATE stock_movements SET product_id = pid, quantity = q WHERE id = mid\<close>, the trigger
  firing for each updated row with its old and its new version.
\<close>

definition update_stock_movement :: "uuid \<Rightarrow> uuid \<Rightarrow> number \<Rightarrow> db \<Rightarrow> db_error + db" where
  "update_stock_movement mid pid qty d =
     thenE (to_numeric 10 3 qty) (\<lambda>q.
       if (\<exists>m \<in> set (stock_movements d). m_id m = mid) \<and> \<not> product_exists d pid
       then Inl Foreign_key_violation
       else
         let upd = (\<lambda>m. m\<lparr>m_product_id := pid, m_quantity := q\<rparr>)
         in foldE (\<lambda>d' old. update_product_stock (TG_UPDATE old (upd old)) d')
              (filter (\<lambda>m. m_id m = mid) (stock_movements d))
              (d\<lparr>stock_movements :=
                 map (\<lambda>m. if m_id m = mid then upd m else m) (stock_movements d)\<rparr>))"

text \<open>
  A sequence of ledger statements. A statement that fails is rolled back and leaves the store
  as it was.
\<close>

datatype ledger_op =
    Ins movement_values
  | Del uuid
  | Upd uuid uuid number

fun ledger_stmt :: "ledger_op \<Rightarrow> db \<Rightarrow> db_error + db" where
  "ledger_stmt (Ins v) d = insert_stock_movements [v] d"
| "ledger_stmt (Del mid) d = delete_stock_movement mid d"
| "ledger_stmt (Upd mid pid qty) d = update_stock_movement mid pid qty d"

definition apply_op :: "db \<Rightarrow> ledger_op \<Rightarrow> db" where
  "apply_op d opn = (case ledger_stmt opn d of Inl e \<Rightarrow> d | Inr d' \<Rightarrow> d')"

fun apply_ops :: "db \<Rightarrow> ledger_op list \<Rightarrow> db" where
  "apply_ops d [] = d"
| "apply_ops d (opn # ops) = apply_ops (apply_op d opn) ops"

text \<open>The signed sum of the movements of a product, and the ledger invariant.\<close>

definition ledger_sum :: "uuid \<Rightarrow> db \<Rightarrow> int" where
  "ledger_sum pid d =
     sum_list (map m_quantity (filter (\<lambda>m. m_product_id m = pid) (stock_movements d)))"

definition ledger_consistent :: "db \<Rightarrow> bool" where
  "ledger_consistent d = (\<forall>p \<in> set (products d). current_stock p = ledger_sum (p_id p) d)"

text \<open>The part of \<open>current_stock\<close> that the ledger does not account for, per product row.\<close>

definition stock_offsets :: "db \<Rightarrow> (uuid \<times> int) list" where
  "stock_offsets d = map (\<lambda>p. (p_id p, current_stock p - ledger_sum (p_id p) d)) (products d)"

text \<open>An update keeps the product of the movement it changes.\<close>

fun keeps_product :: "db \<Rightarrow> ledger_op \<Rightarrow> bool" where
  "keeps_product d (Upd mid pid qty) =
     (\<forall>m \<in> set (stock_movements d). m_id m = mid \<longrightarrow> m_product_id m = pid)"
| "keeps_product d _ = True"

fun keep_products :: "db \<Rightarrow> ledger_op list \<Rightarrow> bool" where
  "keep_products d [] = True"
| "keep_products d (opn # ops) = (keeps_product d opn \<and> keep_products (apply_op d opn) ops)"


section \<open>Application handlers\<close>

text \<open>
  A handler issues its statements one after the other and stops at the first one that fails;
  what the earlier statements wrote stays written. A handler returns the store it leaves
  and the error it caught, if any.
\<close>

subsection \<open>Products (ProductManager)\<close>

record product_values =
  pv_name :: string
  pv_unit :: string
  pv_current_stock :: number
  pv_min_stock_level :: number
  pv_last_purchase_price :: "number option"

text \<open>
  \<open>supabase.from('products').insert([values]).select().single()\<close>; a column left out takes
  its default (\<open>last_purchase_price numeric(10,2) DEFAULT 0\<close>), \<open>name\<close> is unique.
\<close>

definition insert_product :: "product_values \<Rightarrow> db \<Rightarrow> db_error + (product \<times> db)" where
  "insert_product v d =
     thenE (to_numeric 10 3 (pv_current_stock v)) (\<lambda>cs.
     thenE (to_numeric 10 3 (pv_min_stock_level v)) (\<lambda>msl.
     thenE (case pv_last_purchase_price v of None \<Rightarrow> Inr (Some 0)
            | Some x \<Rightarrow> to_numeric_null 10 2 x) (\<lambda>lpp.
       if \<exists>p \<in> set (products d). p_name p = pv_name v then Inl Unique_violation
       else
         let row = \<lparr>p_id = next_uuid d, p_name = pv_name v, p_unit = pv_unit v,
                    current_stock = cs, min_stock_level = msl, last_purchase_price = lpp\<rparr>
         in Inr (row, d\<lparr>products := products d @ [row], next_uuid := Suc (next_uuid d)\<rparr>))))"

text \<open>
  \<open>UPDATE products SET name, unit, min_stock_level, current_stock WHERE id = pid\<close>, as the
  product form sends it when an existing product is edited.
\<close>

definition update_product :: "uuid \<Rightarrow> product_values \<Rightarrow> db \<Rightarrow> db_error + db" where
  "update_product pid v d =
     thenE (to_numeric 10 3 (pv_current_stock v)) (\<lambda>cs.
     thenE (to_numeric 10 3 (pv_min_stock_level v)) (\<lambda>msl.
       if (\<exists>p \<in> set (products d). p_id p = pid) \<and>
          (\<exists>p \<in> set (products d). p_id p \<noteq> pid \<and> p_name p = pv_name v)
       then Inl Unique_violation
       else Inr (d\<lparr>products :=
              map (\<lambda>p. if p_id p = pid
                        then p\<lparr>p_name := pv_name v, p_unit := pv_unit v,
                               min_stock_level := msl, current_stock := cs\<rparr>
                        else p) (products d)\<rparr>)))"

text \<open>
  \<open>handleSaveProduct\<close>: the form data are name, unit, minimal level and, for a new product,
  the opening stock, written to \<open>current_stock\<close> directly.
\<close>

definition handleSaveProduct :: "product option \<Rightarrow> product_values \<Rightarrow> db \<Rightarrow> db \<times> db_error option" where
  "handleSaveProduct editingProduct productData d =
     (case editingProduct of
        Some ep \<Rightarrow>
          (case update_product (p_id ep) productData d of
             Inl e \<Rightarrow> (d, Some e) | Inr d' \<Rightarrow> (d', None))
      | None \<Rightarrow>
          (case insert_product productData d of
             Inl e \<Rightarrow> (d, Some e) | Inr (row, d') \<Rightarrow> (d', None)))"


subsection \<open>Invoice confirmation and deletion (App)\<close>

text \<open>
  The column \<open>date date\<close> accepts the texts PostgreSQL can read as a date; that reader is the
  parameter \<open>dt\<close>. \<open>now\<close> is the clock reading written to \<open>processed_at\<close>.
\<close>

definition insert_invoice ::
  "(string \<Rightarrow> bool) \<Rightarrow> string \<Rightarrow> ParsedInvoiceData \<Rightarrow> db \<Rightarrow> db_error + (invoice \<times> db)" where
  "insert_invoice dt now pd d =
     (if \<not> dt (date pd) then Inl Invalid_input
      else
        thenE (to_numeric 10 2 (totalNet pd)) (\<lambda>tn.
        thenE (to_numeric 10 2 (totalGross pd)) (\<lambda>tg.
          if \<exists>i \<in> set (invoices d). inv_invoice_number i = invoiceNumber pd
          then Inl Unique_violation
          else
            let row = \<lparr>inv_id = next_uuid d, inv_filename = ''uploaded.pdf'',
                       inv_invoice_number = invoiceNumber pd, inv_date = date pd,
                       inv_vendor = vendor pd, inv_total_net = tn, inv_total_gross = tg,
                       inv_processed_at = now\<rparr>
            in Inr (row, d\<lparr>invoices := invoices d @ [row],
                          next_uuid := Suc (next_uuid d)\<rparr>))))"

definition insert_invoice_item_row :: "uuid \<Rightarrow> db \<Rightarrow> InvoiceItem \<Rightarrow> db_error + db" where
  "insert_invoice_item_row iid d it =
     thenE (to_numeric 10 3 (quantity it)) (\<lambda>q.
     thenE (to_integer (percentage it)) (\<lambda>pc.
     thenE (to_numeric 10 2 (net_price it)) (\<lambda>np.
     thenE (to_numeric 10 2 (gross_price it)) (\<lambda>gp.
     thenE (to_numeric 10 2 (total_net it)) (\<lambda>tn.
     thenE (to_numeric 10 2 (total_gross it)) (\<lambda>tg.
       if \<not> (\<exists>i \<in> set (invoices d). inv_id i = iid) then Inl Foreign_key_violation
       else
         let row = \<lparr>ii_id = next_uuid d, ii_invoice_id = iid, ii_name = name it,
                    ii_quantity = q, ii_unit = unit it, ii_percentage = pc,
                    ii_net_price = np, ii_gross_price = gp,
                    ii_total_net = tn, ii_total_gross = tg\<rparr>
         in Inr (d\<lparr>invoice_items := invoice_items d @ [row],
                   next_uuid := Suc (next_uuid d)\<rparr>)))))))"

definition insert_invoice_items :: "uuid \<Rightarrow> InvoiceItem list \<Rightarrow> db \<Rightarrow> db_error + db" where
  "insert_invoice_items iid its d = foldE (insert_invoice_item_row iid) its d"

text \<open>
  \<open>supabase.from('products').select('*').eq('name', n).single()\<close>: the row when exactly one
  matches; otherwise the error \<open>PGRST116\<close>, which the caller takes as ``no such product''.
\<close>

definition find_product_by_name :: "db \<Rightarrow> string \<Rightarrow> product option" where
  "find_product_by_name d n =
     (case filter (\<lambda>p. p_name p = n) (products d) of [p] \<Rightarrow> Some p | _ \<Rightarrow> None)"

definition find_or_create_product :: "InvoiceItem \<Rightarrow> db \<Rightarrow> db_error + (uuid \<times> db)" where
  "find_or_create_product it d =
     (case find_product_by_name d (name it) of
        None \<Rightarrow>
          thenE (insert_product
                   \<lparr>pv_name = name it, pv_unit = unit it, pv_current_stock = Num 0,
                    pv_min_stock_level = Num 0,
                    pv_last_purchase_price = Some (net_price it)\<rparr> d)
            (\<lambda>(newProduct, d'). Inr (p_id newProduct, d'))
      | Some existingProduct \<Rightarrow> Inr (p_id existingProduct, d))"

definition purchase_movement :: "string \<Rightarrow> uuid \<Rightarrow> uuid \<Rightarrow> InvoiceItem \<Rightarrow> movement_values" where
  "purchase_movement invno iid productId it =
     \<lparr>mv_product_id = productId, mv_movement_type = Purchase, mv_quantity = quantity it,
      mv_reference_id = Some iid, mv_reference_type = Some Invoice_item,
      mv_notes = ''Zakup z faktury '' @ invno\<rparr>"

text \<open>The loop over the parsed items; \<open>iid\<close> is \<open>invoice.id\<close>.\<close>

fun confirm_items :: "string \<Rightarrow> uuid \<Rightarrow> InvoiceItem list \<Rightarrow> db \<Rightarrow> db \<times> db_error option" where
  "confirm_items invno iid [] d = (d, None)"
| "confirm_items invno iid (it # its) d =
     (case find_or_create_product it d of
        Inl e \<Rightarrow> (d, Some e)
      | Inr (productId, d1) \<Rightarrow>
          (case insert_stock_movements [purchase_movement invno iid productId it] d1 of
             Inl e \<Rightarrow> (d1, Some e)
           | Inr d2 \<Rightarrow> confirm_items invno iid its d2))"

definition handleConfirmInvoice ::
  "(string \<Rightarrow> bool) \<Rightarrow> string \<Rightarrow> ParsedInvoiceData option \<Rightarrow> db \<Rightarrow> db \<times> db_error option" where
  "handleConfirmInvoice dt now parsedData d =
     (case parsedData of
        None \<Rightarrow> (d, None)
      | Some pd \<Rightarrow>
          (case insert_invoice dt now pd d of
             Inl e \<Rightarrow> (d, Some e)
           | Inr (invoice, d1) \<Rightarrow>
               (case insert_invoice_items (inv_id invoice) (items pd) d1 of
                  Inl e \<Rightarrow> (d1, Some e)
                | Inr d2 \<Rightarrow> confirm_items (invoiceNumber pd) (inv_id invoice) (items pd) d2)))"

text \<open>
  \<open>confirmDeleteInvoice\<close>: the two deletes; \<open>invoice_items.invoice_id\<close> is declared
  \<open>ON DELETE CASCADE\<close>. The results of the two statements are not inspected.
\<close>

definition delete_invoice_items_of :: "uuid \<Rightarrow> db \<Rightarrow> db" where
  "delete_invoice_items_of iid d =
     d\<lparr>invoice_items := filter (\<lambda>ii. ii_invoice_id ii \<noteq> iid) (invoice_items d)\<rparr>"

definition delete_invoice :: "uuid \<Rightarrow> db \<Rightarrow> db" where
  "delete_invoice iid d =
     delete_invoice_items_of iid (d\<lparr>invoices := filter (\<lambda>i. inv_id i \<noteq> iid) (invoices d)\<rparr>)"

definition confirmDeleteInvoice :: "invoice option \<Rightarrow> db \<Rightarrow> db" where
  "confirmDeleteInvoice invoiceToDelete d =
     (case invoiceToDelete of
        None \<Rightarrow> d
      | Some invoice \<Rightarrow>
          delete_invoice (inv_id invoice) (delete_invoice_items_of (inv_id invoice) d))"


subsection \<open>Sales (SalesManager)\<close>

definition insert_sale ::
  "(string \<Rightarrow> bool) \<Rightarrow> CreateSaleData \<Rightarrow> number \<Rightarrow> db \<Rightarrow> db_error + (sale \<times> db)" where
  "insert_sale dt sd totalAmount d =
     (if \<not> dt (csd_date sd) then Inl Invalid_input
      else
        thenE (to_numeric 10 2 totalAmount) (\<lambda>ta.
          if \<exists>s \<in> set (sales d). s_sale_number s = csd_sale_number sd
          then Inl Unique_violation
          else
            let row = \<lparr>s_id = next_uuid d, s_sale_number = csd_sale_number sd,
                       s_date = csd_date sd, s_customer = csd_customer sd,
                       s_total_amount = ta\<rparr>
            in Inr (row, d\<lparr>sales := sales d @ [row], next_uuid := Suc (next_uuid d)\<rparr>)))"

definition insert_sale_item_row ::
  "arith \<Rightarrow> uuid \<Rightarrow> db \<Rightarrow> CreateSaleItem \<Rightarrow> db_error + db" where
  "insert_sale_item_row ar sid d it =
     thenE (to_numeric 10 3 (csi_quantity it)) (\<lambda>q.
     thenE (to_numeric 10 2 (csi_unit_price it)) (\<lambda>up.
     thenE (to_numeric 10 2 (fmul ar (csi_quantity it) (csi_unit_price it))) (\<lambda>tp.
       if \<not> (\<exists>s \<in> set (sales d). s_id s = sid) \<or> \<not> product_exists d (csi_product_id it)
       then Inl Foreign_key_violation
       else
         let row = \<lparr>si_id = next_uuid d, si_sale_id = sid, si_product_id = csi_product_id it,
                    si_quantity = q, si_unit_price = up, si_total_price = tp\<rparr>
         in Inr (d\<lparr>sale_items := sale_items d @ [row], next_uuid := Suc (next_uuid d)\<rparr>))))"

definition insert_sale_items ::
  "arith \<Rightarrow> uuid \<Rightarrow> CreateSaleItem list \<Rightarrow> db \<Rightarrow> db_error + db" where
  "insert_sale_items ar sid its d = foldE (insert_sale_item_row ar sid) its d"

text \<open>The note is \<open>Sprzeda\<close>, the letter z with dot above (two bytes), a blank, the number.\<close>

definition sale_movement :: "string \<Rightarrow> uuid \<Rightarrow> CreateSaleItem \<Rightarrow> movement_values" where
  "sale_movement saleno sid it =
     \<lparr>mv_product_id = csi_product_id it, mv_movement_type = Sale,
      mv_quantity = jneg (csi_quantity it),
      mv_reference_id = Some sid, mv_reference_type = Some Sale_item,
      mv_notes = ''Sprzeda'' @ [CHR 0xC5, CHR 0xBC] @ '' '' @ saleno\<rparr>"

definition handleCreateSale ::
  "arith \<Rightarrow> (string \<Rightarrow> bool) \<Rightarrow> CreateSaleData \<Rightarrow> db \<Rightarrow> db \<times> db_error option" where
  "handleCreateSale ar dt saleData d =
     (let totalAmount =
            foldl (\<lambda>sum it. fadd ar sum (fmul ar (csi_quantity it) (csi_unit_price it)))
              (Num 0) (csd_items saleData)
      in case insert_sale dt saleData totalAmount d of
           Inl e \<Rightarrow> (d, Some e)
         | Inr (sale, d1) \<Rightarrow>
             (case insert_sale_items ar (s_id sale) (csd_items saleData) d1 of
                Inl e \<Rightarrow> (d1, Some e)
              | Inr d2 \<Rightarrow>
                  (case insert_stock_movements
                          (map (sale_movement (csd_sale_number saleData) (s_id sale))
                             (csd_items saleData)) d2 of
                     Inl e \<Rightarrow> (d2, Some e)
                   | Inr d3 \<Rightarrow> (d3, None))))"


subsection \<open>Inventories (InventoryManager)\<close>

definition insert_inventory_item_row :: "uuid \<Rightarrow> db \<Rightarrow> uuid \<times> number \<Rightarrow> db_error + db" where
  "insert_inventory_item_row vid d pe =
     thenE (to_numeric 10 3 (snd pe)) (\<lambda>ex.
       if \<not> (\<exists>i \<in> set (inventories d). ivt_id i = vid) \<or> \<not> product_exists d (fst pe)
       then Inl Foreign_key_violation
       else if \<exists>it \<in> set (inventory_items d).
                 it_inventory_id it = vid \<and> it_product_id it = fst pe
       then Inl Unique_violation
       else
         let row = \<lparr>it_id = next_uuid d, it_inventory_id = vid, it_product_id = fst pe,
                    expected_quantity = ex, counted_quantity = None\<rparr>
         in Inr (d\<lparr>inventory_items := inventory_items d @ [row],
                   next_uuid := Suc (next_uuid d)\<rparr>))"

text \<open>
  \<open>handleCreateInventory\<close>: the expected quantity is the stock of the product in the list
  the client holds (\<open>cached\<close>), \<open>0\<close> when the product is not in it.
\<close>

definition handleCreateInventory ::
  "product list \<Rightarrow> CreateInventoryData \<Rightarrow> db \<Rightarrow> db \<times> db_error option" where
  "handleCreateInventory cached inventoryData d =
     (let inventory = \<lparr>ivt_id = next_uuid d, ivt_name = cid_name inventoryData,
                 ivt_status = Draft, ivt_completed_at = None\<rparr>;
          d1 = d\<lparr>inventories := inventories d @ [inventory], next_uuid := Suc (next_uuid d)\<rparr>;
          inventoryItems =
            map (\<lambda>productId.
                   (productId,
                    case find (\<lambda>p. p_id p = productId) cached of
                      None \<Rightarrow> Num 0
                    | Some p \<Rightarrow> num_or (of_numeric 3 (current_stock p)) (Num 0)))
              (cid_product_ids inventoryData)
      in case foldE (insert_inventory_item_row (ivt_id inventory)) inventoryItems d1 of
           Inl e \<Rightarrow> (d1, Some e)
         | Inr d2 \<Rightarrow> (d2, None))"

definition handleStartInventory :: "uuid \<Rightarrow> db \<Rightarrow> db" where
  "handleStartInventory inventoryId d =
     d\<lparr>inventories :=
         map (\<lambda>i. if ivt_id i = inventoryId then i\<lparr>ivt_status := In_progress\<rparr> else i)
           (inventories d)\<rparr>"

text \<open>
  \<open>handleUpdateCount\<close>: \<open>UPDATE inventory_items SET counted_quantity = c WHERE id = itemId\<close>;
  the generated column \<open>difference\<close> must fit \<open>numeric(10,3)\<close> too.
\<close>

definition handleUpdateCount :: "uuid \<Rightarrow> number \<Rightarrow> db \<Rightarrow> db \<times> db_error option" where
  "handleUpdateCount itemId countedQuantity d =
     (case to_numeric_null 10 3 countedQuantity of
        Inl e \<Rightarrow> (d, Some e)
      | Inr c \<Rightarrow>
          if \<exists>it \<in> set (inventory_items d). it_id it = itemId \<and>
               (case c of None \<Rightarrow> False | Some v \<Rightarrow> \<not> fits 10 (v - expected_quantity it))
          then (d, Some Numeric_overflow)
          else (d\<lparr>inventory_items :=
                   map (\<lambda>it. if it_id it = itemId then it\<lparr>counted_quantity := c\<rparr> else it)
                     (inventory_items d)\<rparr>, None))"

text \<open>
  The correction movement for a counted item. The note ends in \<open>nadwy\<close>, z with dot above,
  \<open>ka\<close> for a surplus and in \<open>niedob\<close>, o with acute, \<open>r\<close> for a shortfall.
\<close>

definition inventory_movement :: "uuid \<Rightarrow> inventory_item \<Rightarrow> int \<Rightarrow> movement_values" where
  "inventory_movement inventoryId it diff =
     \<lparr>mv_product_id = it_product_id it, mv_movement_type = Inventory,
      mv_quantity = of_numeric 3 diff,
      mv_reference_id = Some inventoryId, mv_reference_type = Some Inventory_ref,
      mv_notes = ''Korekta inwentaryzacyjna: '' @
        (if diff > 0 then ''nadwy'' @ [CHR 0xC5, CHR 0xBC] @ ''ka''
         else ''niedob'' @ [CHR 0xC3, CHR 0xB3] @ ''r'')\<rparr>"

text \<open>
  The items selected with \<open>.eq('inventory_id', inventoryId).not('difference', 'is', null)\<close>.
  The query has no \<open>ORDER BY\<close>, so the store may answer with the rows in any order:
  \<open>sel\<close> is the arrangement it chooses for the rows that qualify.
\<close>

definition select_counted_items ::
  "(inventory_item list \<Rightarrow> inventory_item list) \<Rightarrow> uuid \<Rightarrow> db \<Rightarrow> inventory_item list" where
  "select_counted_items sel inventoryId d =
     sel (filter (\<lambda>it. it_inventory_id it = inventoryId \<and> difference it \<noteq> None)
            (inventory_items d))"

text \<open>\<open>items.filter(item => item.difference !== 0).map(...)\<close>, in the order of \<open>items\<close>.\<close>

definition correction_movements :: "uuid \<Rightarrow> inventory_item list \<Rightarrow> movement_values list" where
  "correction_movements inventoryId its =
     concat (map (\<lambda>it. case difference it of
                          None \<Rightarrow> []
                        | Some diff \<Rightarrow>
                            if diff \<noteq> 0 then [inventory_movement inventoryId it diff] else [])
               its)"

definition handleCompleteInventory ::
  "(inventory_item list \<Rightarrow> inventory_item list) \<Rightarrow> string \<Rightarrow> uuid \<Rightarrow> db \<Rightarrow>
   db \<times> db_error option" where
  "handleCompleteInventory sel now inventoryId d =
     (let d1 = d\<lparr>inventories :=
                  map (\<lambda>i. if ivt_id i = inventoryId
                            then i\<lparr>ivt_status := Completed, ivt_completed_at := Some now\<rparr>
                            else i) (inventories d)\<rparr>;
          stockMovements =
            correction_movements inventoryId (select_counted_items sel inventoryId d1)
      in if stockMovements \<noteq> []
         then (case insert_stock_movements stockMovements d1 of
                 Inl e \<Rightarrow> (d1, Some e)
               | Inr d2 \<Rightarrow> (d2, None))
         else (d1, None))"

text \<open>
  What the inventory screens offer. The list shows ``start'' for an inventory it holds as
  \<open>draft\<close> and ``complete'' for one it holds as \<open>in_progress\<close>; the detail view lets a count be
  saved (\<open>canEdit\<close>) when the inventory it was opened with is \<open>in_progress\<close>, for the items it
  loaded for that inventory. \<open>shown\<close> is the copy of the inventory the client holds.
\<close>

datatype ui_action = Click_start | Click_complete | Save_count uuid number

fun offered :: "inventory \<Rightarrow> db \<Rightarrow> ui_action \<Rightarrow> bool" where
  "offered shown d Click_start = (ivt_status shown = Draft)"
| "offered shown d Click_complete = (ivt_status shown = In_progress)"
| "offered shown d (Save_count itemId c) =
     (ivt_status shown = In_progress \<and>
      (\<exists>it \<in> set (inventory_items d). it_id it = itemId \<and> it_inventory_id it = ivt_id shown))"

fun run_action ::
  "(inventory_item list \<Rightarrow> inventory_item list) \<Rightarrow> string \<Rightarrow> uuid \<Rightarrow> ui_action \<Rightarrow> db \<Rightarrow>
   db \<times> db_error option" where
  "run_action sel now vid Click_start d = (handleStartInventory vid d, None)"
| "run_action sel now vid Click_complete d = handleCompleteInventory sel now vid d"
| "run_action sel now vid (Save_count itemId c) d = handleUpdateCount itemId c d"

definition ui_step ::
  "(inventory_item list \<Rightarrow> inventory_item list) \<Rightarrow> string \<Rightarrow> inventory \<Rightarrow> ui_action \<Rightarrow> db \<Rightarrow>
   db \<times> db_error option" where
  "ui_step sel now shown a d =
     (if offered shown d a then run_action sel now (ivt_id shown) a d else (d, None))"

definition status_of :: "uuid \<Rightarrow> db \<Rightarrow> inventory_status list" where
  "status_of vid d = map ivt_status (filter (\<lambda>i. ivt_id i = vid) (inventories d))"

definition counts_of :: "uuid \<Rightarrow> db \<Rightarrow> (uuid \<times> int option) list" where
  "counts_of vid d =
     map (\<lambda>it. (it_id it, counted_quantity it))
       (filter (\<lambda>it. it_inventory_id it = vid) (inventory_items d))"

text \<open>The order of the states: no step of the workflow may go down in it.\<close>

fun rank :: "inventory_status \<Rightarrow> nat" where
  "rank Draft = 0"
| "rank In_progress = 1"
| "rank Completed = 2"


section \<open>Example runs\<close>

text \<open>
  The exact operations on rationals, for the example runs. Their operands there are whole
  numbers and halves far below \<open>2\<^sup>5\<^sup>3\<close>, on which double arithmetic is exact too.
\<close>

definition exact_arith :: arith where
  "exact_arith =
     \<lparr>fmul = (\<lambda>a b. case (a, b) of (Num x, Num y) \<Rightarrow> Num (x * y) | _ \<Rightarrow> NaN),
      fadd = (\<lambda>a b. case (a, b) of (Num x, Num y) \<Rightarrow> Num (x + y) | _ \<Rightarrow> NaN),
      fdiv = (\<lambda>a b. case (a, b) of
                (Num x, Num y) \<Rightarrow> if y = 0 then NaN else Num (x / y) | _ \<Rightarrow> NaN)\<rparr>"

text \<open>An invoice with one line of ten pieces of a product that is not known yet.\<close>

definition ex_item :: InvoiceItem where
  "ex_item = \<lparr>name = ''Mysz optyczna'', quantity = Num 10, unit = ''szt'', percentage = Num 23,
     net_price = Num 45, gross_price = Num (5535 / 100),
     total_net = Num 450, total_gross = Num (5535 / 10)\<rparr>"

definition ex_invoice :: ParsedInvoiceData where
  "ex_invoice = \<lparr>invoiceNumber = ''FV/2024/001'', date = ''2024-01-15'',
     vendor = ''ABC Company'', items = [ex_item], totalNet = Num 450,
     totalGross = Num (5535 / 10)\<rparr>"

definition stocked_db :: db where
  "stocked_db = fst (handleConfirmInvoice (\<lambda>s. True) ''t0'' (Some ex_invoice) empty_db)"

text \<open>An inventory of that product: created, started, and counted as seven pieces.\<close>

definition draft_db :: db where
  "draft_db = fst (handleCreateInventory (products stocked_db)
     \<lparr>cid_name = ''Inwentaryzacja'', cid_product_ids = [2]\<rparr> stocked_db)"

definition counted_db :: db where
  "counted_db = fst (handleUpdateCount 5 (Num 7) (handleStartInventory 4 draft_db))"

definition completed_db :: db where
  "completed_db = fst (handleCompleteInventory (\<lambda>rows. rows) ''t1'' 4 counted_db)"

text \<open>A product entered in the product form with an opening stock of five.\<close>

definition opening_db :: db where
  "opening_db = fst (handleSaveProduct None
     \<lparr>pv_name = ''Kabel'', pv_unit = ''m'', pv_current_stock = Num 5,
      pv_min_stock_level = Num 0, pv_last_purchase_price = None\<rparr> empty_db)"

definition ex_adjustment :: "uuid \<Rightarrow> movement_values" where
  "ex_adjustment pid = \<lparr>mv_product_id = pid, mv_movement_type = Adjustment,
     mv_quantity = Num 2, mv_reference_id = None, mv_reference_type = Some Manual,
     mv_notes = ''''\<rparr>"

text \<open>A sale of five pieces of the product in stock.\<close>

definition ex_sale :: CreateSaleData where
  "ex_sale = \<lparr>csd_sale_number = ''S/1'', csd_date = ''2024-02-01'', csd_customer = ''Jan'',
     csd_items = [\<lparr>csi_product_id = 2, csi_quantity = Num 5, csi_unit_price = Num 60\<rparr>]\<rparr>"

text \<open>A second invoice for the same product, three pieces.\<close>

definition ex_invoice2 :: ParsedInvoiceData where
  "ex_invoice2 = \<lparr>invoiceNumber = ''FV/2024/002'', date = ''2024-01-20'',
     vendor = ''ABC Company'',
     items = [ex_item\<lparr>quantity := Num 3, total_net := Num 135,
                     total_gross := Num (16605 / 100)\<rparr>],
     totalNet = Num 135, totalGross = Num (16605 / 100)\<rparr>"

definition restocked_db :: db where
  "restocked_db = fst (handleConfirmInvoice (\<lambda>s. True) ''t2'' (Some ex_invoice2) stocked_db)"

text \<open>The stocked store with a second product, entered in the product form without stock.\<close>

definition two_products_db :: db where
  "two_products_db = fst (handleSaveProduct None
     \<lparr>pv_name = ''Kabel'', pv_unit = ''m'', pv_current_stock = Num 0,
      pv_min_stock_level = Num 0, pv_last_purchase_price = None\<rparr> stocked_db)"

text \<open>
  A third product, and an inventory of the three products: created, started, the first counted
  as seven pieces (three short), the second as two metres (two over), the third not counted.
\<close>

definition three_products_db :: db where
  "three_products_db = fst (handleSaveProduct None
     \<lparr>pv_name = ''Tusz'', pv_unit = ''szt'', pv_current_stock = Num 0,
      pv_min_stock_level = Num 0, pv_last_purchase_price = None\<rparr> two_products_db)"

definition draft3_db :: db where
  "draft3_db = fst (handleCreateInventory (products three_products_db)
     \<lparr>cid_name = ''Spis'', cid_product_ids = [2, 4, 5]\<rparr> three_products_db)"

definition counted3_db :: db where
  "counted3_db =
     fst (handleUpdateCount 8 (Num 2)
       (fst (handleUpdateCount 7 (Num 7) (handleStartInventory 6 draft3_db))))"

text \<open>
  An inventory of the product with the opening stock of five metres, counted as 9999999
  metres; before the inventory is completed, one more metre is bought.
\<close>

definition kabel_invoice :: ParsedInvoiceData where
  "kabel_invoice = \<lparr>invoiceNumber = ''FV/2024/003'', date = ''2024-01-25'',
     vendor = ''ABC Company'',
     items = [\<lparr>name = ''Kabel'', quantity = Num 1, unit = ''m'', percentage = Num 23,
                net_price = Num 2, gross_price = Num (246 / 100),
                total_net = Num 2, total_gross = Num (246 / 100)\<rparr>],
     totalNet = Num 2, totalGross = Num (246 / 100)\<rparr>"

definition miscounted_db :: db where
  "miscounted_db =
     fst (handleConfirmInvoice (\<lambda>s. True) ''t3'' (Some kabel_invoice)
       (fst (handleUpdateCount 2 (Num 9999999)
         (handleStartInventory 1
           (fst (handleCreateInventory (products opening_db)
              \<lparr>cid_name = ''Spis'', cid_product_ids = [0]\<rparr> opening_db))))))"

text \<open>A sale of two positions: five pieces of the product in stock and half a metre of cable.\<close>

definition ex_sale2 :: CreateSaleData where
  "ex_sale2 = \<lparr>csd_sale_number = ''S/2'', csd_date = ''2024-02-02'', csd_customer = ''Ewa'',
     csd_items = [\<lparr>csi_product_id = 2, csi_quantity = Num 5, csi_unit_price = Num 60\<rparr>,
                  \<lparr>csi_product_id = 4, csi_quantity = Num (1 / 2), csi_unit_price = Num 4\<rparr>]\<rparr>"

text \<open>A sale of twice 9999999 pieces of the product in stock.\<close>

definition big_sale :: CreateSaleData where
  "big_sale = \<lparr>csd_sale_number = ''S/3'', csd_date = ''2024-02-03'', csd_customer = ''Jan'',
     csd_items = [\<lparr>csi_product_id = 2, csi_quantity = Num 9999999, csi_unit_price = Num 1\<rparr>,
                  \<lparr>csi_product_id = 2, csi_quantity = Num 9999999, csi_unit_price = Num 1\<rparr>]\<rparr>"

text \<open>
  An invoice of two lines: two and a half pieces of a product that is not known yet, and one
  piece of the product in stock.
\<close>

definition ex_item3 :: InvoiceItem where
  "ex_item3 = \<lparr>name = ''Klawiatura'', quantity = Num (5 / 2), unit = ''szt'',
     percentage = Num 23, net_price = Num 80, gross_price = Num (984 / 10),
     total_net = Num 200, total_gross = Num 246\<rparr>"

definition ex_invoice3 :: ParsedInvoiceData where
  "ex_invoice3 = \<lparr>invoiceNumber = ''FV/2024/004'', date = ''2024-01-30'',
     vendor = ''ABC Company'',
     items = [ex_item3,
              ex_item\<lparr>quantity := Num 1, total_net := Num 45, total_gross := Num (5535 / 100)\<rparr>],
     totalNet = Num 245, totalGross = Num (30135 / 100)\<rparr>"

text \<open>An invoice with the first of these lines only.\<close>

definition ex_invoice4 :: ParsedInvoiceData where
  "ex_invoice4 = \<lparr>invoiceNumber = ''FV/2024/006'', date = ''2024-02-05'',
     vendor = ''ABC Company'', items = [ex_item3], totalNet = Num 200, totalGross = Num 246\<rparr>"

text \<open>An invoice with one line of 0.0004 pieces of a product that is not known yet.\<close>

definition tiny_item :: InvoiceItem where
  "tiny_item = \<lparr>name = ''Klawiatura'', quantity = Num (4 / 10000), unit = ''szt'',
     percentage = Num 23, net_price = Num 80, gross_price = Num (984 / 10),
     total_net = Num (3 / 100), total_gross = Num (4 / 100)\<rparr>"

definition tiny_invoice :: ParsedInvoiceData where
  "tiny_invoice = \<lparr>invoiceNumber = ''FV/2024/005'', date = ''2024-01-31'',
     vendor = ''ABC Company'', items = [tiny_item], totalNet = Num (3 / 100),
     totalGross = Num (4 / 100)\<rparr>"

section \<open>Auxiliary functions for the proofs\<close>


definition stocks :: "db \<Rightarrow> (uuid \<times> int) list" where
  "stocks d = map (\<lambda>p. (p_id p, current_stock p)) (products d)"

definition lsum :: "uuid \<Rightarrow> stock_movement list \<Rightarrow> int" where
  "lsum i ms = sum_list (map m_quantity (filter (\<lambda>m. m_product_id m = i) ms))"



definition stores :: "movement_values \<Rightarrow> stock_movement \<Rightarrow> bool" where
  "stores v m =
     (m_product_id m = mv_product_id v \<and> m_movement_type m = mv_movement_type v \<and>
      to_numeric 10 3 (mv_quantity v) = Inr (m_quantity m) \<and>
      m_reference_id m = mv_reference_id v \<and> m_reference_type m = mv_reference_type v \<and>
      m_notes m = mv_notes v)"

definition other_tables ::
  "db \<Rightarrow> invoice list \<times> invoice_item list \<times> inventory list \<times> inventory_item list \<times>
        sale list \<times> sale_item list" where
  "other_tables d =
     (invoices d, invoice_items d, inventories d, inventory_items d, sales d, sale_items d)"

definition product_static :: "db \<Rightarrow> (uuid \<times> string \<times> string \<times> int) list" where
  "product_static d = map (\<lambda>p. (p_id p, p_name p, p_unit p, min_stock_level p)) (products d)"

definition signed_difference :: "inventory_item \<Rightarrow> int" where
  "signed_difference it =
     (case counted_quantity it of None \<Rightarrow> 0 | Some c \<Rightarrow> c - expected_quantity it)"

text \<open>An invoice line whose six numbers the columns of \<open>invoice_items\<close> accept.\<close>

definition storable :: "InvoiceItem \<Rightarrow> bool" where
  "storable it =
     (\<not> isl (to_numeric 10 3 (quantity it)) \<and> \<not> isl (to_integer (percentage it)) \<and>
      \<not> isl (to_numeric 10 2 (net_price it)) \<and> \<not> isl (to_numeric 10 2 (gross_price it)) \<and>
      \<not> isl (to_numeric 10 2 (total_net it)) \<and> \<not> isl (to_numeric 10 2 (total_gross it)))"


section \<open>Strings, as the parsers use them\<close>

text \<open>
  A \<open>char\<close> stands for one UTF-16 code unit below 256, which covers ASCII and Latin-1 text;
  \<open>length\<close> then counts what JavaScript's \<open>.length\<close> counts.
\<close>

definition code :: "char \<Rightarrow> nat" where
  "code c = of_char c"

definition is_digit :: "char \<Rightarrow> bool" where
  "is_digit c = (48 \<le> code c \<and> code c \<le> 57)"

text \<open>White space and line terminators, as \<open>\s\<close> and \<open>trim()\<close> see them.\<close>

definition is_space :: "char \<Rightarrow> bool" where
  "is_space c = (code c \<in> {9, 10, 11, 12, 13, 32, 160})"

definition to_upper :: "char \<Rightarrow> char" where
  "to_upper c = (if 97 \<le> code c \<and> code c \<le> 122 then char_of (code c - 32) else c)"

definition to_lower :: "char \<Rightarrow> char" where
  "to_lower c = (if 65 \<le> code c \<and> code c \<le> 90 then char_of (code c + 32) else c)"

definition trim :: "string \<Rightarrow> string" where
  "trim s = rev (dropWhile is_space (rev (dropWhile is_space s)))"

text \<open>\<open>s.split(c)\<close> for a one-character separator: never empty.\<close>

fun split_on :: "char \<Rightarrow> string \<Rightarrow> string list" where
  "split_on c [] = [[]]"
| "split_on c (x # xs) =
     (if x = c then [] # split_on c xs
      else (case split_on c xs of [] \<Rightarrow> [[x]] | p # ps \<Rightarrow> (x # p) # ps))"

definition padStart :: "nat \<Rightarrow> char \<Rightarrow> string \<Rightarrow> string" where
  "padStart n c s = replicate (n - length s) c @ s"

text \<open>\<open>s.replace(',', '.')\<close>: the first occurrence only.\<close>

fun replace_first :: "char \<Rightarrow> char \<Rightarrow> string \<Rightarrow> string" where
  "replace_first a b [] = []"
| "replace_first a b (x # xs) = (if x = a then b # xs else x # replace_first a b xs)"

definition digit_val :: "char \<Rightarrow> nat" where
  "digit_val c = code c - 48"

definition dec_val :: "string \<Rightarrow> nat" where
  "dec_val s = foldl (\<lambda>a c. 10 * a + digit_val c) 0 s"

definition is_hex_digit :: "char \<Rightarrow> bool" where
  "is_hex_digit c = (is_digit c \<or> (65 \<le> code c \<and> code c \<le> 70) \<or> (97 \<le> code c \<and> code c \<le> 102))"

definition hex_digit_val :: "char \<Rightarrow> nat" where
  "hex_digit_val c =
     (if is_digit c then code c - 48
      else if 65 \<le> code c \<and> code c \<le> 70 then code c - 55 else code c - 87)"

definition hex_val :: "string \<Rightarrow> nat" where
  "hex_val s = foldl (\<lambda>a c. 16 * a + hex_digit_val c) 0 s"

text \<open>
  \<open>parseInt(s)\<close> without a radix: leading white space, a sign, \<open>0x\<close> for hexadecimal, then the
  longest run of digits; \<open>None\<close> is \<open>NaN\<close>.
\<close>

definition parseInt :: "string \<Rightarrow> int option" where
  "parseInt s =
     (let s1 = dropWhile is_space s;
          neg = (s1 \<noteq> [] \<and> hd s1 = CHR ''-'');
          s2 = (if s1 \<noteq> [] \<and> (hd s1 = CHR ''-'' \<or> hd s1 = CHR ''+'') then tl s1 else s1);
          hex = (take 2 s2 = ''0x'' \<or> take 2 s2 = ''0X'');
          ds = (if hex then takeWhile is_hex_digit (drop 2 s2) else takeWhile is_digit s2);
          v = (if hex then hex_val ds else dec_val ds)
      in if ds = [] then None else Some (if neg then - int v else int v))"

text \<open>
  \<open>parseFloat(s)\<close>: leading white space, a sign, digits with an optional fraction and an
  optional exponent; \<open>NaN\<close> when no number starts the text. (\<open>Infinity\<close> is not a value of
  \<open>number\<close> here; a text of up to 15 significant digits denotes the double that prints as
  it, a longer one is taken at its decimal value.)
\<close>

definition exponent_of :: "string \<Rightarrow> int" where
  "exponent_of r =
     (if r \<noteq> [] \<and> (hd r = CHR ''e'' \<or> hd r = CHR ''E'') then
        (let r1 = tl r;
             neg = (r1 \<noteq> [] \<and> hd r1 = CHR ''-'');
             r2 = (if r1 \<noteq> [] \<and> (hd r1 = CHR ''-'' \<or> hd r1 = CHR ''+'') then tl r1 else r1);
             ds = takeWhile is_digit r2
         in if neg then - int (dec_val ds) else int (dec_val ds))
      else 0)"

definition parseFloat :: "string \<Rightarrow> number" where
  "parseFloat s =
     (let s1 = dropWhile is_space s;
          neg = (s1 \<noteq> [] \<and> hd s1 = CHR ''-'');
          s2 = (if s1 \<noteq> [] \<and> (hd s1 = CHR ''-'' \<or> hd s1 = CHR ''+'') then tl s1 else s1);
          ip = takeWhile is_digit s2;
          r1 = dropWhile is_digit s2;
          dot = (r1 \<noteq> [] \<and> hd r1 = CHR ''.'');
          fp = (if dot then takeWhile is_digit (tl r1) else []);
          r2 = (if dot then dropWhile is_digit (tl r1) else r1);
          e = exponent_of r2;
          m = of_nat (dec_val ip) + of_nat (dec_val fp) / 10 ^ length fp;
          v = (if 0 \<le> e then m * 10 ^ nat e else m / 10 ^ nat (- e))
      in if ip = [] \<and> fp = [] then NaN else Num (if neg then - v else v))"

definition of_int_opt :: "int option \<Rightarrow> number" where
  "of_int_opt v = (case v of None \<Rightarrow> NaN | Some i \<Rightarrow> Num (of_int i))"


section \<open>Regular expressions: the constructs the parsers use\<close>

text \<open>
  A backtracking matcher in the order ECMAScript prescribes: a matcher maps a state (position,
  remaining input, captures) to the list of states in which it can end, the preferred one
  first. A greedy quantifier prefers one more iteration, a lazy one prefers to stop;
  an iteration that is not required and consumes nothing is discarded. The flag \<open>ic\<close> is
  \<open>/i\<close>. The iteration of a quantifier is bounded by the number of required iterations
  plus the length of the remaining text, since every further iteration consumes a character.
  No pattern of the parsers has a capture inside a quantifier, so captures are not reset
  between iterations.
\<close>

datatype citem = Ch char | Rg char char | Ws

datatype re =
    Cls "citem list"
  | Dot
  | AnyChar
  | Eps
  | Seq re re
  | Alt re re
  | Rep bool nat "nat option" re
  | Grp nat re
  | Bol
  | Eol

fun item_has :: "citem \<Rightarrow> char \<Rightarrow> bool" where
  "item_has (Ch a) c = (c = a)"
| "item_has (Rg a b) c = (code a \<le> code c \<and> code c \<le> code b)"
| "item_has Ws c = is_space c"

definition in_cls :: "bool \<Rightarrow> citem list \<Rightarrow> char \<Rightarrow> bool" where
  "in_cls ic its c =
     (\<exists>it \<in> set its. item_has it c \<or> (ic \<and> (item_has it (to_upper c) \<or> item_has it (to_lower c))))"

type_synonym mstate = "nat \<times> string \<times> (nat \<times> string) list"

fun rep ::
  "nat \<Rightarrow> bool \<Rightarrow> nat \<Rightarrow> nat option \<Rightarrow> (mstate \<Rightarrow> mstate list) \<Rightarrow> mstate \<Rightarrow> mstate list" where
  "rep 0 g mn mx f st = []"
| "rep (Suc fuel) g mn mx f st =
     (if mx = Some 0 then [st]
      else
        let more = concat (map (\<lambda>st'. if mn = 0 \<and> fst st' = fst st then []
                                        else rep fuel g (mn - 1) (map_option (\<lambda>k. k - 1) mx) f st')
                             (f st))
        in if 0 < mn then more else if g then more @ [st] else st # more)"

fun rmatch :: "bool \<Rightarrow> re \<Rightarrow> mstate \<Rightarrow> mstate list" where
  "rmatch ic (Cls its) (i, s, c) =
     (case s of [] \<Rightarrow> [] | x # xs \<Rightarrow> if in_cls ic its x then [(Suc i, xs, c)] else [])"
| "rmatch ic Dot (i, s, c) =
     (case s of [] \<Rightarrow> [] | x # xs \<Rightarrow> if code x = 10 \<or> code x = 13 then [] else [(Suc i, xs, c)])"
| "rmatch ic AnyChar (i, s, c) = (case s of [] \<Rightarrow> [] | x # xs \<Rightarrow> [(Suc i, xs, c)])"
| "rmatch ic Eps st = [st]"
| "rmatch ic (Seq r1 r2) st = concat (map (rmatch ic r2) (rmatch ic r1 st))"
| "rmatch ic (Alt r1 r2) st = rmatch ic r1 st @ rmatch ic r2 st"
| "rmatch ic (Rep g mn mx r) (i, s, c) = rep (Suc (mn + length s)) g mn mx (rmatch ic r) (i, s, c)"
| "rmatch ic (Grp k r) (i, s, c) =
     map (\<lambda>(j, s', c'). (j, s', (k, take (j - i) s) # c')) (rmatch ic r (i, s, c))"
| "rmatch ic Bol (i, s, c) = (if i = 0 then [(i, s, c)] else [])"
| "rmatch ic Eol (i, s, c) = (if s = [] then [(i, s, c)] else [])"

text \<open>
  \<open>s.match(re)\<close>: the leftmost start at which the expression matches, with the preferred match
  there. The result holds the matched text (\<open>match[0]\<close>) and the captures.
\<close>

fun search_from :: "bool \<Rightarrow> re \<Rightarrow> nat \<Rightarrow> string \<Rightarrow> (string \<times> (nat \<times> string) list) option" where
  "search_from ic r i [] =
     (case rmatch ic r (i, [], []) of
        [] \<Rightarrow> None
      | (j, s', c) # rest \<Rightarrow> Some ([], c))"
| "search_from ic r i (x # xs) =
     (case rmatch ic r (i, x # xs, []) of
        [] \<Rightarrow> search_from ic r (Suc i) xs
      | (j, s', c) # rest \<Rightarrow> Some (take (j - i) (x # xs), c))"

definition re_match :: "bool \<Rightarrow> re \<Rightarrow> string \<Rightarrow> (string \<times> (nat \<times> string) list) option" where
  "re_match ic r s = search_from ic r 0 s"

text \<open>\<open>match[k]\<close> for \<open>k > 0\<close>: \<open>None\<close> is \<open>undefined\<close>.\<close>

definition group :: "nat \<Rightarrow> string \<times> (nat \<times> string) list \<Rightarrow> string option" where
  "group k m = map_of (snd m) k"

text \<open>Shorthands for writing the patterns down.\<close>

fun seqs :: "re list \<Rightarrow> re" where
  "seqs [] = Eps"
| "seqs [r] = r"
| "seqs (r # rs) = Seq r (seqs rs)"

fun alts :: "re list \<Rightarrow> re" where
  "alts [] = Eps"
| "alts [r] = r"
| "alts (r # rs) = Alt r (alts rs)"

definition lit :: "string \<Rightarrow> re" where
  "lit s = seqs (map (\<lambda>c. Cls [Ch c]) s)"

definition rplus :: "re \<Rightarrow> re" where
  "rplus r = Rep True 1 None r"

definition rstar :: "re \<Rightarrow> re" where
  "rstar r = Rep True 0 None r"

definition ropt :: "re \<Rightarrow> re" where
  "ropt r = Rep True 0 (Some 1) r"

definition digit :: re where
  "digit = Cls [Rg CHR ''0'' CHR ''9'']"

text \<open>\<open>[0-9]+(?:[.,][0-9]+)?\<close>\<close>

definition decimal :: re where
  "decimal = Seq (rplus digit) (ropt (Seq (Cls [Ch CHR ''.'', Ch CHR '','']) (rplus digit)))"

text \<open>\<open>[.\-\/]\<close>\<close>

definition date_sep :: re where
  "date_sep = Cls [Ch CHR ''.'', Ch CHR ''-'', Ch CHR ''/'']"


section \<open>Calendar dates (\<open>new Date(year, monthIndex, day)\<close>)\<close>

text \<open>
  The constructor takes any integers and normalises them: a year from 0 to 99 means 1900 plus
  that year, months beyond the year and days beyond the month carry over. The getters
  \<open>getFullYear\<close>, \<open>getMonth\<close>, \<open>getDate\<close> read the normalised date. Dates are local; the model
  assumes a time zone whose calendar skips no day. A date outside the range of \<open>Date\<close>
  (20 April -271821 to 13 September 275760) is invalid: \<open>None\<close>.
\<close>

definition leap_year :: "int \<Rightarrow> bool" where
  "leap_year y = (y mod 4 = 0 \<and> (y mod 100 \<noteq> 0 \<or> y mod 400 = 0))"

definition days_in_month :: "int \<Rightarrow> int \<Rightarrow> int" where
  "days_in_month y m =
     (if m = 1 then (if leap_year y then 29 else 28)
      else if m = 3 \<or> m = 5 \<or> m = 8 \<or> m = 10 then 30 else 31)"

definition prev_month :: "int \<times> int \<Rightarrow> int \<times> int" where
  "prev_month ym = (if snd ym = 0 then (fst ym - 1, 11) else (fst ym, snd ym - 1))"

definition next_month :: "int \<times> int \<Rightarrow> int \<times> int" where
  "next_month ym = (if snd ym = 11 then (fst ym + 1, 0) else (fst ym, snd ym + 1))"

function norm_day :: "int \<Rightarrow> int \<Rightarrow> int \<Rightarrow> int \<times> int \<times> int" where
  "norm_day y m d =
     (if d < 1 then
        norm_day (fst (prev_month (y, m))) (snd (prev_month (y, m)))
          (d + days_in_month (fst (prev_month (y, m))) (snd (prev_month (y, m))))
      else if days_in_month y m < d then
        norm_day (fst (next_month (y, m))) (snd (next_month (y, m))) (d - days_in_month y m)
      else (y, m, d))"
  by pat_completeness auto
termination
  by (relation "measure (\<lambda>(y, m, d). if d < 1 then nat (1 - d) + 32 else nat d)")
     (auto simp: days_in_month_def)

declare norm_day.simps [simp del]

definition in_date_range :: "int \<times> int \<times> int \<Rightarrow> bool" where
  "in_date_range ymd =
     (case ymd of (y, m, d) \<Rightarrow>
        (- 271821 < y \<or> (y = - 271821 \<and> (3 < m \<or> (m = 3 \<and> 20 \<le> d)))) \<and>
        (y < 275760 \<or> (y = 275760 \<and> (m < 8 \<or> (m = 8 \<and> d \<le> 13)))))"

definition new_Date :: "int \<Rightarrow> int \<Rightarrow> int \<Rightarrow> (int \<times> int \<times> int) option" where
  "new_Date year monthIndex day =
     (let yr = (if 0 \<le> year \<and> year \<le> 99 then 1900 + year else year);
          ymd = norm_day (yr + monthIndex div 12) (monthIndex mod 12) day
      in if in_date_range ymd then Some ymd else None)"


section \<open>The heuristic extractor (InvoicePDFParser)\<close>

text \<open>\<open>today\<close> stands for \<open>new Date().toISOString().split('T')[0]\<close>.\<close>

definition invoice_number_patterns :: "re list" where
  "invoice_number_patterns =
     [seqs [alts [lit ''faktura'', lit ''invoice'', lit ''nr'', lit ''number''],
            rstar (Cls [Ch CHR '':'', Ws]),
            Grp 1 (Rep True 3 None
              (Cls [Rg CHR ''A'' CHR ''Z'', Rg CHR ''0'' CHR ''9'', Ch CHR ''/'', Ch CHR ''-'']))],
      seqs [alts [lit ''FV'', lit ''INV''],
            rstar (Cls [Ch CHR '':'', Ws]),
            Grp 1 (Rep True 3 None
              (Cls [Rg CHR ''A'' CHR ''Z'', Rg CHR ''0'' CHR ''9'', Ch CHR ''/'', Ch CHR ''-'']))],
      Grp 1 (seqs [rplus (Cls [Rg CHR ''A'' CHR ''Z'', Rg CHR ''0'' CHR ''9'']), lit ''/'',
                   rplus digit, lit ''/'', rplus digit])]"

fun first_group :: "re list \<Rightarrow> string \<Rightarrow> string option" where
  "first_group [] text = None"
| "first_group (pattern # patterns) text =
     (case re_match True pattern text of
        Some m \<Rightarrow> (case group 1 m of Some g \<Rightarrow> Some (trim g) | None \<Rightarrow> None)
      | None \<Rightarrow> first_group patterns text)"

definition extractInvoiceNumber :: "string \<Rightarrow> string" where
  "extractInvoiceNumber text =
     (case first_group invoice_number_patterns text of Some n \<Rightarrow> n | None \<Rightarrow> ''UNKNOWN'')"

definition date_patterns :: "re list" where
  "date_patterns =
     [Grp 1 (seqs [Rep True 1 (Some 2) digit, date_sep, Rep True 1 (Some 2) digit, date_sep,
                   Rep True 4 (Some 4) digit]),
      Grp 1 (seqs [Rep True 4 (Some 4) digit, date_sep, Rep True 1 (Some 2) digit, date_sep,
                   Rep True 1 (Some 2) digit])]"

text \<open>The first pattern that matches, and the text of its first match (\<open>match[0]\<close>).\<close>

fun first_match :: "re list \<Rightarrow> string \<Rightarrow> string option" where
  "first_match [] text = None"
| "first_match (pattern # patterns) text =
     (case re_match False pattern text of
        Some m \<Rightarrow> Some (fst m)
      | None \<Rightarrow> first_match patterns text)"

text \<open>\<open>dateStr.replace(/[.\-\/]/g, '/')\<close>, character by character.\<close>

definition to_slash :: "char \<Rightarrow> char" where
  "to_slash c = (if c \<in> set ''.-/'' then CHR ''/'' else c)"

definition formatDateToISO :: "string \<Rightarrow> string \<Rightarrow> string" where
  "formatDateToISO today dateStr =
     (let cleanDate = map to_slash dateStr;
          parts = split_on CHR ''/'' cleanDate
      in case parts of
           [p0, p1, p2] \<Rightarrow>
             (let year = (if length p0 = 4 then p0 else p2);
                  month = padStart 2 CHR ''0'' p1;
                  day = (if length p0 = 4 then padStart 2 CHR ''0'' p2
                         else padStart 2 CHR ''0'' p0)
              in case (parseInt year, parseInt month, parseInt day) of
                   (Some y, Some m, Some d) \<Rightarrow>
                     (case new_Date y (m - 1) d of
                        Some (fy, fm, fd) \<Rightarrow>
                          if fy \<noteq> y \<or> fm \<noteq> m - 1 \<or> fd \<noteq> d then today
                          else year @ ''-'' @ month @ ''-'' @ day
                      | None \<Rightarrow> today)
                 | _ \<Rightarrow> today)
         | _ \<Rightarrow> today)"

definition extractDate :: "string \<Rightarrow> string \<Rightarrow> string" where
  "extractDate today text =
     (case first_match date_patterns text of
        Some dateStr \<Rightarrow> formatDateToISO today dateStr
      | None \<Rightarrow> today)"

definition vendor_keywords :: re where
  "vendor_keywords = alts [lit ''faktura'', lit ''invoice'', lit ''data'', lit ''date'']"

definition numeric_line :: re where
  "numeric_line =
     seqs [Bol, rplus (Cls [Rg CHR ''0'' CHR ''9'', Ws, Ch CHR ''.'', Ch CHR ''-'', Ch CHR ''/'']),
           Eol]"

fun first_vendor_line :: "string list \<Rightarrow> string option" where
  "first_vendor_line [] = None"
| "first_vendor_line (l # ls) =
     (let line = trim l
      in if 5 < length line \<and> length line < 100 \<and>
            re_match True vendor_keywords line = None \<and>
            re_match False numeric_line line = None
         then Some line else first_vendor_line ls)"

definition extractVendor :: "string \<Rightarrow> string" where
  "extractVendor text =
     (case first_vendor_line (take 10 (split_on (CHR 0x0A) text)) of
        Some line \<Rightarrow> line | None \<Rightarrow> ''UNKNOWN VENDOR'')"

text \<open>
  The two line patterns of \<open>extractItems\<close>:
  \<open>(.+?)\s+(N)\s+(szt|kg|m|l|godz)\s+(N)\s+([0-9]+)%\s+(N)\<close> and \<open>(.+?)\s+(N)\s+(N)\s+(N)\<close>, with
  \<open>N = [0-9]+(?:[.,][0-9]+)?\<close>.
\<close>

definition spaces :: re where
  "spaces = rplus (Cls [Ws])"

definition item_patterns :: "re list" where
  "item_patterns =
     [seqs [Grp 1 (Rep False 1 None Dot), spaces, Grp 2 decimal, spaces,
            Grp 3 (alts [lit ''szt'', lit ''kg'', lit ''m'', lit ''l'', lit ''godz'']), spaces,
            Grp 4 decimal, spaces, Grp 5 (rplus digit), lit ''%'', spaces, Grp 6 decimal],
      seqs [Grp 1 (Rep False 1 None Dot), spaces, Grp 2 decimal, spaces, Grp 3 decimal, spaces,
            Grp 4 decimal]]"

text \<open>
  The body of the inner loop for one pattern that matched: the six names are bound to the
  captures in order, whatever the pattern. Both patterns have the first four captures.
\<close>

definition item_of_match ::
  "arith \<Rightarrow> string \<times> (nat \<times> string) list \<Rightarrow> InvoiceItem list" where
  "item_of_match ar m =
     (case (group 1 m, group 2 m, group 3 m, group 4 m) of
        (Some nameStr, Some quantityStr, Some unitStr, Some netPriceStr) \<Rightarrow>
          (let qty = parseFloat (replace_first CHR '','' CHR ''.'' quantityStr);
               net = parseFloat (replace_first CHR '','' CHR ''.'' netPriceStr);
               percent = (case group 5 m of
                            None \<Rightarrow> Num 23
                          | Some p \<Rightarrow> if p = [] then Num 23 else of_int_opt (parseInt p));
               gross = (case group 6 m of
                          None \<Rightarrow>
                            fmul ar net (fadd ar (Num 1) (fdiv ar percent (Num 100)))
                        | Some g \<Rightarrow>
                            if g = []
                            then fmul ar net (fadd ar (Num 1) (fdiv ar percent (Num 100)))
                            else parseFloat (replace_first CHR '','' CHR ''.'' g))
           in [\<lparr>name = trim nameStr, quantity = qty,
                 unit = (if unitStr = [] then ''szt'' else unitStr), percentage = percent,
                 net_price = net, gross_price = gross,
                 total_net = fmul ar qty net, total_gross = fmul ar qty gross\<rparr>])
      | _ \<Rightarrow> [])"

text \<open>The items one line contributes: the inner loop runs over both patterns.\<close>

definition line_items :: "arith \<Rightarrow> string \<Rightarrow> InvoiceItem list" where
  "line_items ar l =
     concat (map (\<lambda>pattern. case re_match False pattern (trim l) of
                               Some m \<Rightarrow> item_of_match ar m
                             | None \<Rightarrow> [])
               item_patterns)"

definition placeholder_item :: InvoiceItem where
  "placeholder_item =
     \<lparr>name = ''Extracted item from PDF'', quantity = Num 1, unit = ''szt'',
      percentage = Num 23, net_price = Num 100, gross_price = Num 123,
      total_net = Num 100, total_gross = Num 123\<rparr>"

definition extractItems :: "arith \<Rightarrow> string \<Rightarrow> InvoiceItem list" where
  "extractItems ar text =
     (let items = concat (map (line_items ar) (split_on (CHR 0x0A) text))
      in if items = [] then [placeholder_item] else items)"


section \<open>The AI-assisted extractor (AIInvoiceParser)\<close>

datatype json =
    JNull
  | JBool bool
  | JNum number
  | JStr string
  | JArr "json list"
  | JObj "(string \<times> json) list"

text \<open>
  What lies outside the repository is a parameter: the completion call (prompt built from the
  text, HTTP request, reading of the answer; \<open>None\<close> when any of it fails), \<open>JSON.parse\<close>,
  \<open>new Date(value)\<close> followed by \<open>toISOString().split('T')[0]\<close> (\<open>None\<close> for an invalid date),
  and the conversions \<open>String(value)\<close> and \<open>Number(value)\<close> of values that are not already a
  string or a number.
\<close>

record env =
  e_today :: string
  completion :: "string \<Rightarrow> string option"
  json_parse :: "string \<Rightarrow> json option"
  date_of :: "json \<Rightarrow> string option"
  string_of :: "json \<Rightarrow> string"
  number_of :: "json \<Rightarrow> number"

text \<open>A property of a parsed value; \<open>None\<close> is \<open>undefined\<close>.\<close>

fun property :: "json \<Rightarrow> string \<Rightarrow> json option" where
  "property (JObj kvs) k = map_of kvs k"
| "property _ k = None"

fun truthy :: "json option \<Rightarrow> bool" where
  "truthy None = False"
| "truthy (Some JNull) = False"
| "truthy (Some (JBool b)) = b"
| "truthy (Some (JNum NaN)) = False"
| "truthy (Some (JNum (Num r))) = (r \<noteq> 0)"
| "truthy (Some (JStr s)) = (s \<noteq> [])"
| "truthy (Some (JArr xs)) = True"
| "truthy (Some (JObj kvs)) = True"

text \<open>\<open>String(v || d)\<close> and \<open>Number(v) || d\<close>.\<close>

definition String_or :: "env \<Rightarrow> json option \<Rightarrow> string \<Rightarrow> string" where
  "String_or e v d =
     (if truthy v then (case v of Some (JStr s) \<Rightarrow> s | Some x \<Rightarrow> string_of e x | None \<Rightarrow> d)
      else d)"

definition Number :: "env \<Rightarrow> json option \<Rightarrow> number" where
  "Number e v =
     (case v of
        None \<Rightarrow> NaN
      | Some JNull \<Rightarrow> Num 0
      | Some (JBool b) \<Rightarrow> Num (if b then 1 else 0)
      | Some (JNum n) \<Rightarrow> n
      | Some x \<Rightarrow> number_of e x)"

definition iso_date_shape :: re where
  "iso_date_shape =
     seqs [Bol, Rep True 4 (Some 4) digit, lit ''-'', Rep True 2 (Some 2) digit, lit ''-'',
           Rep True 2 (Some 2) digit, Eol]"

definition validateDate :: "env \<Rightarrow> json option \<Rightarrow> string" where
  "validateDate e dateStr =
     (if \<not> truthy dateStr then e_today e
      else case dateStr of
             None \<Rightarrow> e_today e
           | Some v \<Rightarrow>
               (let s = (case v of JStr s \<Rightarrow> s | _ \<Rightarrow> string_of e v)
                in if re_match False iso_date_shape s \<noteq> None then s
                   else (case date_of e v of None \<Rightarrow> e_today e | Some isoDate \<Rightarrow> isoDate)))"

definition validateItem :: "env \<Rightarrow> json \<Rightarrow> InvoiceItem" where
  "validateItem e item =
     \<lparr>name = String_or e (property item ''name'') ''Unknown item'',
      quantity = num_or (Number e (property item ''quantity'')) (Num 1),
      unit = String_or e (property item ''unit'') ''szt'',
      percentage = num_or (Number e (property item ''percentage'')) (Num 23),
      net_price = num_or (Number e (property item ''net_price'')) (Num 0),
      gross_price = num_or (Number e (property item ''gross_price'')) (Num 0),
      total_net = num_or (Number e (property item ''total_net'')) (Num 0),
      total_gross = num_or (Number e (property item ''total_gross'')) (Num 0)\<rparr>"

datatype js_error = TypeError | SyntaxError | No_JSON | Request_failed

text \<open>
  \<open>validateItems\<close>: \<open>items.map(...)\<close> exists only on an array, and reading a property of
  \<open>null\<close> throws.
\<close>

definition validateItems :: "env \<Rightarrow> json \<Rightarrow> js_error + InvoiceItem list" where
  "validateItems e itemsValue =
     (case itemsValue of
        JArr xs \<Rightarrow> if JNull \<in> set xs then Inl TypeError else Inr (map (validateItem e) xs)
      | _ \<Rightarrow> Inl TypeError)"

text \<open>\<open>/\{[\s\S]*\}/\<close>\<close>

definition json_block :: re where
  "json_block = seqs [lit ''{'', rstar AnyChar, lit ''}'']"

definition parseAIResponse :: "env \<Rightarrow> string \<Rightarrow> js_error + ParsedInvoiceData" where
  "parseAIResponse e aiResponse =
     (case re_match False json_block aiResponse of
        None \<Rightarrow> Inl No_JSON
      | Some jsonMatch \<Rightarrow>
          (case json_parse e (fst jsonMatch) of
             None \<Rightarrow> Inl SyntaxError
           | Some JNull \<Rightarrow> Inl TypeError
           | Some parsedData \<Rightarrow>
               thenE (validateItems e
                        (if truthy (property parsedData ''items'')
                         then (case property parsedData ''items'' of Some x \<Rightarrow> x | None \<Rightarrow> JArr [])
                         else JArr []))
                 (\<lambda>its. Inr
                    \<lparr>invoiceNumber = String_or e (property parsedData ''invoiceNumber'') ''UNKNOWN'',
                     date = validateDate e (property parsedData ''date''),
                     vendor = String_or e (property parsedData ''vendor'') ''UNKNOWN VENDOR'',
                     items = its,
                     totalNet = num_or (Number e (property parsedData ''totalNet'')) (Num 0),
                     totalGross = num_or (Number e (property parsedData ''totalGross'')) (Num 0)\<rparr>)))"

text \<open>The private helpers of the class; the number and vendor helpers are those above.\<close>

definition ai_extractDate :: "env \<Rightarrow> string \<Rightarrow> string" where
  "ai_extractDate e text =
     (case first_match date_patterns text of
        Some dateStr \<Rightarrow> validateDate e (Some (JStr dateStr))
      | None \<Rightarrow> e_today e)"

definition ai_extractItems :: "string \<Rightarrow> InvoiceItem list" where
  "ai_extractItems text = [placeholder_item]"

definition fallbackParsing :: "env \<Rightarrow> string \<Rightarrow> ParsedInvoiceData" where
  "fallbackParsing e pdfText =
     \<lparr>invoiceNumber = extractInvoiceNumber pdfText,
      date = ai_extractDate e pdfText,
      vendor = extractVendor pdfText,
      items = ai_extractItems pdfText,
      totalNet = Num 0,
      totalGross = Num 0\<rparr>"

text \<open>
  \<open>parseInvoiceWithAI\<close>: every failure inside the \<open>try\<close> ends in \<open>fallbackParsing\<close>; the
  function itself never throws.
\<close>

definition parseInvoiceWithAI :: "env \<Rightarrow> string \<Rightarrow> js_error + ParsedInvoiceData" where
  "parseInvoiceWithAI e pdfText =
     (case completion e pdfText of
        None \<Rightarrow> Inr (fallbackParsing e pdfText)
      | Some response \<Rightarrow>
          (case parseAIResponse e response of
             Inl err \<Rightarrow> Inr (fallbackParsing e pdfText)
           | Inr parsed \<Rightarrow> Inr parsed))"

text \<open>
  \<open>InvoicePDFParser.parsePDF\<close>, given the text of the PDF (the source takes it from
  \<open>simulatePDFText\<close>, which returns a fixed sample): the AI parser first, the heuristic
  extractor when the AI parser throws.
\<close>

definition parsePDF :: "arith \<Rightarrow> env \<Rightarrow> string \<Rightarrow> ParsedInvoiceData" where
  "parsePDF ar e text =
     (case parseInvoiceWithAI e text of
        Inr aiResult \<Rightarrow> aiResult
      | Inl err \<Rightarrow>
          (let its = extractItems ar text
           in \<lparr>invoiceNumber = extractInvoiceNumber text,
               date = extractDate (e_today e) text,
               vendor = extractVendor text,
               items = its,
               totalNet = foldl (\<lambda>sum item. fadd ar sum (total_net item)) (Num 0) its,
               totalGross = foldl (\<lambda>sum item. fadd ar sum (total_gross item)) (Num 0) its\<rparr>))"

text \<open>
  The check of the specification: a total agrees with the sum of the items within 0.01. The
  sum is the mathematical one.
\<close>

fun exact_sum :: "number list \<Rightarrow> number" where
  "exact_sum [] = Num 0"
| "exact_sum (NaN # xs) = NaN"
| "exact_sum (Num x # xs) = (case exact_sum xs of NaN \<Rightarrow> NaN | Num y \<Rightarrow> Num (x + y))"

definition within_tolerance :: "number \<Rightarrow> number \<Rightarrow> bool" where
  "within_tolerance a b =
     (case (a, b) of (Num x, Num y) \<Rightarrow> \<bar>x - y\<bar> \<le> 1 / 100 | _ \<Rightarrow> False)"

definition totals_consistent :: "ParsedInvoiceData \<Rightarrow> bool" where
  "totals_consistent pd =
     (within_tolerance (exact_sum (map total_net (items pd))) (totalNet pd) \<and>
      within_tolerance (exact_sum (map total_gross (items pd))) (totalGross pd))"

text \<open>An environment in which the completion call fails.\<close>

definition offline_env :: env where
  "offline_env =
     \<lparr>e_today = ''2026-01-01'', completion = (\<lambda>t. None), json_parse = (\<lambda>t. None),
      date_of = (\<lambda>v. None), string_of = (\<lambda>v. ''''), number_of = (\<lambda>v. NaN)\<rparr>"

text \<open>The text of the sample invoice, without the lines that carry non-Latin letters.\<close>

definition sample_text :: string where
  "sample_text =
     ''      ABC Company Sp. z o.o.'' @ [CHR 0x0A] @
     ''      FAKTURA VAT'' @ [CHR 0x0A] @
     ''      Nr: FV/2024/001'' @ [CHR 0x0A] @
     ''      Data: 15.01.2024'' @ [CHR 0x0A] @
     ''      Laptop Dell Inspiron 15 1 szt 2500,00 23% 3075,00'' @ [CHR 0x0A] @
     ''      Mysz optyczna Logitech 2 szt 45,00 23% 55,35''"

text \<open>An environment whose completion service answers with inconsistent totals.\<close>

definition answering_env :: env where
  "answering_env =
     \<lparr>e_today = ''2026-01-01'', completion = (\<lambda>t. Some ''{}''),
      json_parse = (\<lambda>t. Some (JObj
        [(''items'', JArr [JObj [(''total_net'', JNum (Num 100))]]),
         (''totalNet'', JNum (Num 999))])),
      date_of = (\<lambda>v. None), string_of = (\<lambda>v. ''''), number_of = (\<lambda>v. NaN)\<rparr>"


section \<open>Calendar validity, for the statement about dates\<close>

text \<open>
  A day, a month (1 to 12) and a year that name a day of the Gregorian calendar; \<open>digits\<close>
  are the non-empty texts of decimal digits, as the date patterns capture them.
\<close>


definition calendar_date :: "nat \<Rightarrow> nat \<Rightarrow> nat \<Rightarrow> bool" where
  "calendar_date y m d =
     (1 \<le> m \<and> m \<le> 12 \<and> 1 \<le> d \<and> int d \<le> days_in_month (int y) (int m - 1))"

definition valid_ymd :: "nat \<Rightarrow> nat \<Rightarrow> nat \<Rightarrow> bool" where
  "valid_ymd y m d = (100 \<le> y \<and> calendar_date y m d)"

definition digits :: "string \<Rightarrow> bool" where
  "digits s = (s \<noteq> [] \<and> list_all is_digit s)"


text \<open>A matcher only moves forward: position and remaining text add up to the same length.\<close>

definition advances :: "mstate \<Rightarrow> mstate \<Rightarrow> bool" where
  "advances st st' =
     (fst st \<le> fst st' \<and>
      fst st' + length (fst (snd st')) = fst st + length (fst (snd st)))"

section \<open>The ledger and the stock column\<close>

lemma stock_offsets_alt:
  "stock_offsets d = map (\<lambda>(i, c). (i, c - lsum i (stock_movements d))) (stocks d)"
  by (simp add: stock_offsets_def stocks_def ledger_sum_def lsum_def comp_def)

lemma thenE_Inr_iff: "thenE x f = Inr y \<longleftrightarrow> (\<exists>a. x = Inr a \<and> f a = Inr y)"
  by (cases x) auto

lemma set_current_stock_Inr:
  assumes "set_current_stock pid f d = Inr d'"
  shows "stock_movements d' = stock_movements d"
    and "stocks d' = map (\<lambda>(i, c). (i, if i = pid then f c else c)) (stocks d)"
  using assms by (auto simp: set_current_stock_def stocks_def split: if_splits)

lemma price_trigger_Inr:
  assumes "update_product_price_from_purchase new d = Inr d'"
  shows "stock_movements d' = stock_movements d" and "stocks d' = stocks d"
  using assms
  by (auto simp: update_product_price_from_purchase_def thenE_Inr_iff stocks_def
      split: if_splits)

lemma lsum_append: "lsum i (ms @ [m]) = lsum i ms + (if m_product_id m = i then m_quantity m else 0)"
  by (simp add: lsum_def)

lemma insert_movement_row_offsets:
  assumes "insert_movement_row d v = Inr d'"
  shows "stock_offsets d' = stock_offsets d"
proof -
  from assms obtain q row d1 d2 where
    row: "row = \<lparr>m_id = next_uuid d, m_product_id = mv_product_id v,
            m_movement_type = mv_movement_type v, m_quantity = q,
            m_reference_id = mv_reference_id v,
            m_reference_type = mv_reference_type v, m_notes = mv_notes v\<rparr>" and
    d1: "d1 = d\<lparr>stock_movements := stock_movements d @ [row], next_uuid := Suc (next_uuid d)\<rparr>" and
    d2: "update_product_price_from_purchase row d1 = Inr d2" and
    d': "set_current_stock (mv_product_id v) (\<lambda>s. s + q) d2 = Inr d'"
    by (auto simp: insert_movement_row_def thenE_Inr_iff Let_def split: if_splits)
  have m: "stock_movements d' = stock_movements d @ [row]"
    using set_current_stock_Inr(1)[OF d'] price_trigger_Inr(1)[OF d2] d1 by simp
  have "stocks d1 = stocks d"
    using d1 by (simp add: stocks_def)
  then have s: "stocks d' = map (\<lambda>(i, c). (i, if i = mv_product_id v then c + q else c)) (stocks d)"
    using set_current_stock_Inr(2)[OF d'] price_trigger_Inr(2)[OF d2] by simp
  show ?thesis
    unfolding stock_offsets_alt m s
    by (auto simp: comp_def lsum_append row)
qed

lemma foldE_delete:
  "foldE (\<lambda>d' old. update_product_stock (TG_DELETE old) d') olds d1 = Inr d' \<Longrightarrow>
   stock_movements d' = stock_movements d1 \<and>
   stocks d' = map (\<lambda>(i, c). (i, c - lsum i olds)) (stocks d1)"
proof (induction olds arbitrary: d1)
  case Nil
  then show ?case by (simp add: lsum_def)
next
  case (Cons old olds)
  then obtain d2 where d2: "set_current_stock (m_product_id old) (\<lambda>s. s - m_quantity old) d1 = Inr d2"
    and r: "foldE (\<lambda>d' old. update_product_stock (TG_DELETE old) d') olds d2 = Inr d'"
    by (auto simp: thenE_Inr_iff)
  from Cons.IH[OF r] show ?case
    unfolding set_current_stock_Inr[OF d2]
    by (auto simp: comp_def lsum_def)
qed

lemma lsum_split:
  "lsum i ms = lsum i (filter Q ms) + lsum i (filter (\<lambda>x. \<not> Q x) ms)"
  unfolding lsum_def by (induction ms) auto

lemma delete_offsets:
  assumes "delete_stock_movement mid d = Inr d'"
  shows "stock_offsets d' = stock_offsets d"
proof -
  note r = foldE_delete[OF assms[unfolded delete_stock_movement_def]]
  have "lsum i (stock_movements d) = lsum i (filter (\<lambda>m. m_id m = mid) (stock_movements d))
     + lsum i (stock_movements d')" for i
    using lsum_split[of i "stock_movements d" "\<lambda>m. m_id m = mid"] conjunct1[OF r] by simp
  then show ?thesis
    unfolding stock_offsets_alt conjunct2[OF r]
    by (simp add: comp_def stocks_def)
qed

lemma foldE_update:
  "foldE (\<lambda>d' old. update_product_stock (TG_UPDATE old (upd old)) d') olds d1 = Inr d' \<Longrightarrow>
   \<forall>m \<in> set olds. m_product_id (upd m) = pid \<Longrightarrow>
   stock_movements d' = stock_movements d1 \<and>
   stocks d' = map (\<lambda>(i, c). (i, if i = pid then c - sum_list (map m_quantity olds)
        + sum_list (map (\<lambda>m. m_quantity (upd m)) olds) else c)) (stocks d1)"
proof (induction olds arbitrary: d1)
  case Nil
  then have e: "d' = d1" by simp
  show ?case unfolding e by (auto intro!: map_idI[symmetric])
next
  case (Cons old olds)
  then obtain d2 where d2: "set_current_stock pid (\<lambda>s. s - m_quantity old + m_quantity (upd old)) d1 = Inr d2"
    and r: "foldE (\<lambda>d' old. update_product_stock (TG_UPDATE old (upd old)) d') olds d2 = Inr d'"
    by (auto simp: thenE_Inr_iff)
  from Cons.prems(2) have "\<forall>m \<in> set olds. m_product_id (upd m) = pid" by simp
  from Cons.IH[OF r this] show ?case
    unfolding set_current_stock_Inr[OF d2]
    by (auto simp: comp_def)
qed

lemma lsum_map_upd:
  assumes "\<forall>m \<in> set ms. m_id m = mid \<longrightarrow> m_product_id m = pid"
  shows "lsum i (map (\<lambda>m. if m_id m = mid then m\<lparr>m_product_id := pid, m_quantity := q\<rparr> else m) ms)
       = lsum i ms + (if i = pid then
            sum_list (map (\<lambda>m. q) (filter (\<lambda>m. m_id m = mid) ms))
          - sum_list (map m_quantity (filter (\<lambda>m. m_id m = mid) ms)) else 0)"
  using assms unfolding lsum_def by (induction ms) auto

lemma update_offsets:
  assumes "update_stock_movement mid pid qty d = Inr d'"
    and "keeps_product d (Upd mid pid qty)"
  shows "stock_offsets d' = stock_offsets d"
proof -
  from assms(1) obtain q where q: "to_numeric 10 3 qty = Inr q"
    and f: "foldE (\<lambda>d' old. update_product_stock
               (TG_UPDATE old (old\<lparr>m_product_id := pid, m_quantity := q\<rparr>)) d')
              (filter (\<lambda>m. m_id m = mid) (stock_movements d))
              (d\<lparr>stock_movements :=
                 map (\<lambda>m. if m_id m = mid then m\<lparr>m_product_id := pid, m_quantity := q\<rparr> else m)
                   (stock_movements d)\<rparr>) = Inr d'"
    by (auto simp: update_stock_movement_def thenE_Inr_iff Let_def split: if_splits)
  have "\<forall>m \<in> set (filter (\<lambda>m. m_id m = mid) (stock_movements d)).
          m_product_id (m\<lparr>m_product_id := pid, m_quantity := q\<rparr>) = pid" by simp
  note r = foldE_update[OF f this]
  from assms(2) have k: "\<forall>m \<in> set (stock_movements d). m_id m = mid \<longrightarrow> m_product_id m = pid"
    by simp
  show ?thesis
    unfolding stock_offsets_alt conjunct2[OF r] conjunct1[OF r]
    by (simp add: comp_def stocks_def lsum_map_upd[OF k])
qed

lemma apply_op_offsets:
  "keeps_product d opn \<Longrightarrow> stock_offsets (apply_op d opn) = stock_offsets d"
proof (cases opn)
  case (Ins v)
  then show ?thesis
    by (auto simp: apply_op_def insert_stock_movements_def thenE_Inr_iff
        dest: insert_movement_row_offsets split: sum.splits)
next
  case (Del mid)
  then show ?thesis
    by (auto simp: apply_op_def dest: delete_offsets split: sum.splits)
next
  case (Upd mid pid qty)
  assume "keeps_product d opn"
  with Upd show ?thesis
    by (auto simp: apply_op_def dest: update_offsets split: sum.splits)
qed


lemma ledger_consistent_offsets:
  "ledger_consistent d \<longleftrightarrow> (\<forall>x \<in> set (stock_offsets d). snd x = 0)"
  by (auto simp: ledger_consistent_def stock_offsets_def)

lemma floor_half: "\<lfloor>1 / 2 :: rat\<rfloor> = 0"
  by (rule floor_unique) simp_all

lemma round_half_away_of_int: "round_half_away (of_int v) = v"
  by (simp add: round_half_away_def floor_half)

lemma round_half_away_scaled: "round_half_away (of_int v / 10 ^ s * 10 ^ s) = v"
  by (simp add: round_half_away_of_int)

lemma round_half_away_minus: "round_half_away (- x) = - round_half_away x"
  by (cases "x = 0") (auto simp: round_half_away_def floor_half)

lemma to_numeric_of_numeric: "to_numeric p s (of_numeric s v) = Inr q \<Longrightarrow> q = v"
  by (auto simp: of_numeric_def round_half_away_of_int Let_def split: if_splits)

lemma to_numeric_jneg: "to_numeric p s (jneg x) = Inr q \<longleftrightarrow> to_numeric p s x = Inr (- q)"
  by (cases x) (auto simp: Let_def round_half_away_minus fits_def)

lemma set_current_stock_static:
  assumes "set_current_stock pid f d = Inr d'"
  shows "other_tables d' = other_tables d" and "product_static d' = product_static d"
    and "next_uuid d' = next_uuid d"
    and "map (\<lambda>p. (p_id p, last_purchase_price p)) (products d') = map (\<lambda>p. (p_id p, last_purchase_price p)) (products d)"
  using assms
  by (auto simp: set_current_stock_def other_tables_def product_static_def split: if_splits)

lemma price_trigger_static:
  assumes "update_product_price_from_purchase new d = Inr d'"
  shows "other_tables d' = other_tables d" and "product_static d' = product_static d"
    and "next_uuid d' = next_uuid d"
  using assms
  by (auto simp: update_product_price_from_purchase_def thenE_Inr_iff other_tables_def
      product_static_def split: if_splits)

lemma insert_movement_row_effect:
  assumes "insert_movement_row d v = Inr d'"
  shows "\<exists>row. stores v row \<and> stock_movements d' = stock_movements d @ [row] \<and>
           stocks d' = map (\<lambda>(i, c). (i, c + lsum i [row])) (stocks d) \<and>
           other_tables d' = other_tables d \<and> product_static d' = product_static d"
proof -
  from assms obtain q row d1 d2 where
    q: "to_numeric 10 3 (mv_quantity v) = Inr q" and
    row: "row = \<lparr>m_id = next_uuid d, m_product_id = mv_product_id v,
            m_movement_type = mv_movement_type v, m_quantity = q,
            m_reference_id = mv_reference_id v,
            m_reference_type = mv_reference_type v, m_notes = mv_notes v\<rparr>" and
    d1: "d1 = d\<lparr>stock_movements := stock_movements d @ [row], next_uuid := Suc (next_uuid d)\<rparr>" and
    d2: "update_product_price_from_purchase row d1 = Inr d2" and
    d': "set_current_stock (mv_product_id v) (\<lambda>s. s + q) d2 = Inr d'"
    by (auto simp: insert_movement_row_def thenE_Inr_iff Let_def split: if_splits)
  have 1: "stores v row" using q row by (simp add: stores_def)
  have 2: "stock_movements d' = stock_movements d @ [row]"
    using set_current_stock_Inr(1)[OF d'] price_trigger_Inr(1)[OF d2] d1 by simp
  have "stocks d1 = stocks d" "other_tables d1 = other_tables d"
    "product_static d1 = product_static d"
    using d1 by (simp_all add: stocks_def other_tables_def product_static_def)
  then have 3: "stocks d' = map (\<lambda>(i, c). (i, if i = mv_product_id v then c + q else c)) (stocks d)"
    and 4: "other_tables d' = other_tables d" and 5: "product_static d' = product_static d"
    using set_current_stock_Inr(2)[OF d'] price_trigger_Inr(2)[OF d2]
      set_current_stock_static[OF d'] price_trigger_static[OF d2] by simp_all
  have "stocks d' = map (\<lambda>(i, c). (i, c + lsum i [row])) (stocks d)"
    unfolding 3 by (auto simp: lsum_def row)
  with 1 2 4 5 show ?thesis by blast
qed

lemma lsum_Cons: "lsum i (m # ms) = lsum i [m] + lsum i ms"
  by (simp add: lsum_def)

lemma insert_stock_movements_effect:
  "insert_stock_movements vs d = Inr d' \<Longrightarrow>
   \<exists>rows. list_all2 stores vs rows \<and> stock_movements d' = stock_movements d @ rows \<and>
           stocks d' = map (\<lambda>(i, c). (i, c + lsum i rows)) (stocks d) \<and>
           other_tables d' = other_tables d \<and> product_static d' = product_static d"
proof (induction vs arbitrary: d)
  case Nil
  then have "d' = d" by (simp add: insert_stock_movements_def)
  then have "list_all2 stores [] [] \<and> stock_movements d' = stock_movements d @ [] \<and>
           stocks d' = map (\<lambda>(i, c). (i, c + lsum i [])) (stocks d) \<and>
           other_tables d' = other_tables d \<and> product_static d' = product_static d"
    by (auto simp: lsum_def intro!: map_idI[symmetric])
  then show ?case by blast
next
  case (Cons v vs)
  then obtain d1 where d1: "insert_movement_row d v = Inr d1"
    and r: "insert_stock_movements vs d1 = Inr d'"
    by (auto simp: insert_stock_movements_def thenE_Inr_iff)
  from insert_movement_row_effect[OF d1] obtain row where
    a: "stores v row" "stock_movements d1 = stock_movements d @ [row]"
       "stocks d1 = map (\<lambda>(i, c). (i, c + lsum i [row])) (stocks d)"
       "other_tables d1 = other_tables d" "product_static d1 = product_static d"
    by blast
  from Cons.IH[OF r] obtain rows where
    b: "list_all2 stores vs rows" "stock_movements d' = stock_movements d1 @ rows"
       "stocks d' = map (\<lambda>(i, c). (i, c + lsum i rows)) (stocks d1)"
       "other_tables d' = other_tables d1" "product_static d' = product_static d1"
    by blast
  have "list_all2 stores (v # vs) (row # rows)" using a(1) b(1) by simp
  moreover have "stock_movements d' = stock_movements d @ (row # rows)"
    using a(2) b(2) by simp
  moreover have "stocks d' = map (\<lambda>(i, c). (i, c + lsum i (row # rows))) (stocks d)"
    unfolding b(3) a(3) by (auto simp: lsum_Cons[of _ row rows])
  moreover have "other_tables d' = other_tables d" "product_static d' = product_static d"
    using a b by simp_all
  ultimately show ?case by blast
qed

lemma product_exists_static:
  "product_static d' = product_static d \<Longrightarrow> product_exists d' pid = product_exists d pid"
proof -
  assume "product_static d' = product_static d"
  then have "map fst (product_static d') = map fst (product_static d)" by simp
  then have "map p_id (products d') = map p_id (products d)"
    by (simp add: product_static_def comp_def)
  then have "set (map p_id (products d')) = set (map p_id (products d))" by simp
  moreover have "product_exists x pid = (pid \<in> set (map p_id (products x)))" for x
    by (auto simp: product_exists_def)
  ultimately show ?thesis by simp
qed

lemma insert_movement_row_succeeds:
  assumes q: "to_numeric 10 3 (mv_quantity v) = Inr q"
    and ex: "product_exists d (mv_product_id v)"
    and pr: "mv_movement_type v = Purchase \<and> mv_reference_type v = Some Invoice_item \<longrightarrow>
             (\<exists>x. net_price_of_item d (mv_reference_id v) = Inr x)"
    and fit: "\<forall>p \<in> set (products d). p_id p = mv_product_id v \<longrightarrow> fits 10 (current_stock p + q)"
  shows "\<exists>d'. insert_movement_row d v = Inr d'"
proof -
  define row where "row = \<lparr>m_id = next_uuid d, m_product_id = mv_product_id v,
            m_movement_type = mv_movement_type v, m_quantity = q,
            m_reference_id = mv_reference_id v,
            m_reference_type = mv_reference_type v, m_notes = mv_notes v\<rparr>"
  define d1 where "d1 = d\<lparr>stock_movements := stock_movements d @ [row], next_uuid := Suc (next_uuid d)\<rparr>"
  have np: "net_price_of_item d1 r = net_price_of_item d r" for r
    by (simp add: net_price_of_item_def d1_def)
  have "\<exists>d2. update_product_price_from_purchase row d1 = Inr d2 \<and>
          map (\<lambda>p. (p_id p, current_stock p)) (products d2) = map (\<lambda>p. (p_id p, current_stock p)) (products d)"
  proof (cases "mv_movement_type v = Purchase \<and> mv_reference_type v = Some Invoice_item")
    case True
    with pr obtain x where "net_price_of_item d (mv_reference_id v) = Inr x" by blast
    with True have "update_product_price_from_purchase row d1 =
        Inr (d1\<lparr>products := map (\<lambda>p. if p_id p = m_product_id row
                          then p\<lparr>last_purchase_price := x\<rparr> else p) (products d1)\<rparr>)"
      by (simp add: update_product_price_from_purchase_def row_def np)
    moreover have "map (\<lambda>p. (p_id p, current_stock p))
        (map (\<lambda>p. if p_id p = m_product_id row
                          then p\<lparr>last_purchase_price := x\<rparr> else p) (products d1))
        = map (\<lambda>p. (p_id p, current_stock p)) (products d)"
      by (auto simp: d1_def)
    ultimately show ?thesis by simp
  next
    case False
    then show ?thesis
      by (auto simp: update_product_price_from_purchase_def row_def d1_def)
  qed
  then obtain d2 where d2: "update_product_price_from_purchase row d1 = Inr d2"
    and st: "map (\<lambda>p. (p_id p, current_stock p)) (products d2) = map (\<lambda>p. (p_id p, current_stock p)) (products d)"
    by blast
  have "\<not> (\<exists>p \<in> set (products d2). p_id p = mv_product_id v \<and> \<not> fits 10 (current_stock p + q))"
  proof
    assume "\<exists>p \<in> set (products d2). p_id p = mv_product_id v \<and> \<not> fits 10 (current_stock p + q)"
    then obtain p where p: "p \<in> set (products d2)" "p_id p = mv_product_id v"
      "\<not> fits 10 (current_stock p + q)" by blast
    from p(1) have "(p_id p, current_stock p) \<in> set (map (\<lambda>p. (p_id p, current_stock p)) (products d2))"
      by force
    then have "(p_id p, current_stock p) \<in> set (map (\<lambda>p. (p_id p, current_stock p)) (products d))"
      unfolding st .
    then obtain p' where "p' \<in> set (products d)" "p_id p' = p_id p" "current_stock p' = current_stock p"
      by auto
    with fit p(2,3) show False by auto
  qed
  then have "\<exists>d'. set_current_stock (mv_product_id v) (\<lambda>s. s + q) d2 = Inr d'"
    by (simp add: set_current_stock_def)
  then obtain d' where d': "set_current_stock (mv_product_id v) (\<lambda>s. s + q) d2 = Inr d'"
    by blast
  have "insert_movement_row d v =
      thenE (update_product_price_from_purchase row d1) (update_product_stock (TG_INSERT row))"
    using q ex by (simp add: insert_movement_row_def Let_def row_def d1_def)
  also have "\<dots> = set_current_stock (mv_product_id v) (\<lambda>s. s + q) d2"
    unfolding d2 by (simp add: row_def)
  finally show ?thesis using d' by simp
qed

lemma insert_movement_row_stock_bound:
  assumes r: "insert_movement_row d v = Inr d1"
    and q: "to_numeric 10 3 (mv_quantity v) = Inr q"
    and p': "p' \<in> set (products d1)"
  shows "\<exists>p \<in> set (products d). \<bar>current_stock p'\<bar> \<le> \<bar>current_stock p\<bar> + \<bar>q\<bar>"
proof -
  from insert_movement_row_effect[OF r] obtain row where
    a: "stores v row" "stocks d1 = map (\<lambda>(i, c). (i, c + lsum i [row])) (stocks d)"
    by blast
  from a(1) q have mq: "m_quantity row = q" by (simp add: stores_def)
  from p' have "(p_id p', current_stock p') \<in> set (stocks d1)"
    by (force simp: stocks_def)
  then obtain i c where ic: "(i, c) \<in> set (stocks d)" "current_stock p' = c + lsum i [row]"
    unfolding a(2) by auto
  from ic(1) obtain p where p: "p \<in> set (products d)" "current_stock p = c"
    by (auto simp: stocks_def)
  have "\<bar>lsum i [row]\<bar> \<le> \<bar>q\<bar>" by (simp add: lsum_def mq)
  with ic(2) p show ?thesis by (intro bexI[of _ p]) auto
qed

lemma insert_stock_movements_succeeds:
  assumes "list_all2 (\<lambda>v q. to_numeric 10 3 (mv_quantity v) = Inr q) vs qs"
    and "\<forall>v \<in> set vs. product_exists d (mv_product_id v)"
    and "\<forall>v \<in> set vs. mv_movement_type v \<noteq> Purchase"
    and "\<forall>p \<in> set (products d). \<bar>current_stock p\<bar> + sum_list (map abs qs) < 10 ^ 10"
  shows "\<exists>d'. insert_stock_movements vs d = Inr d'"
  using assms
proof (induction vs qs arbitrary: d rule: list_all2_induct)
  case Nil
  then show ?case by (simp add: insert_stock_movements_def)
next
  case (Cons v vs q qs)
  have nn: "0 \<le> sum_list (map abs qs)" by (rule sum_list_nonneg) auto
  have "\<forall>p \<in> set (products d). p_id p = mv_product_id v \<longrightarrow> fits 10 (current_stock p + q)"
  proof (intro ballI impI)
    fix p assume "p \<in> set (products d)"
    with Cons.prems(3) have "\<bar>current_stock p\<bar> + (\<bar>q\<bar> + sum_list (map abs qs)) < 10 ^ 10" by simp
    with nn show "fits 10 (current_stock p + q)" by (simp add: fits_def)
  qed
  with Cons.hyps(1) Cons.prems(1,2) obtain d1 where d1: "insert_movement_row d v = Inr d1"
    using insert_movement_row_succeeds[of v q d] by auto
  from insert_movement_row_effect[OF d1] have ps: "product_static d1 = product_static d" by blast
  have 1: "\<forall>v \<in> set vs. product_exists d1 (mv_product_id v)"
    using Cons.prems(1) by (simp add: product_exists_static[OF ps])
  have 2: "\<forall>v \<in> set vs. mv_movement_type v \<noteq> Purchase" using Cons.prems(2) by simp
  have 3: "\<forall>p \<in> set (products d1). \<bar>current_stock p\<bar> + sum_list (map abs qs) < 10 ^ 10"
  proof
    fix p' assume "p' \<in> set (products d1)"
    from insert_movement_row_stock_bound[OF d1 Cons.hyps(1) this] obtain p where
      p: "p \<in> set (products d)" "\<bar>current_stock p'\<bar> \<le> \<bar>current_stock p\<bar> + \<bar>q\<bar>" by blast
    from Cons.prems(3) p(1) have "\<bar>current_stock p\<bar> + (\<bar>q\<bar> + sum_list (map abs qs)) < 10 ^ 10"
      by simp
    with p(2) show "\<bar>current_stock p'\<bar> + sum_list (map abs qs) < 10 ^ 10" by linarith
  qed
  from Cons.IH[OF 1 2 3] obtain d' where "insert_stock_movements vs d1 = Inr d'" by blast
  with d1 show ?case by (simp add: insert_stock_movements_def)
qed

lemma not_isl_Inr: "\<not> isl x \<Longrightarrow> \<exists>v. x = Inr v"
  by (cases x) simp_all

lemma to_numeric_fits: "to_numeric p s x = Inr v \<Longrightarrow> fits p v"
  by (cases x) (auto simp: Let_def split: if_splits)

lemma to_numeric_null_of_to_numeric:
  "to_numeric p s x = Inr v \<Longrightarrow> to_numeric_null p s x = Inr (Some v)"
  by (cases x) (auto simp: Let_def split: if_splits)

lemma to_numeric_of_numeric_fits: "fits p v \<Longrightarrow> to_numeric p s (of_numeric s v) = Inr v"
  by (simp add: of_numeric_def round_half_away_of_int Let_def)

lemma concat_map_if:
  "concat (map (\<lambda>x. if P x then [f x] else []) xs) = map f (filter P xs)"
  by (induction xs) auto

lemma correction_movements_eq:
  "correction_movements vid its =
   map (\<lambda>it. inventory_movement vid it (signed_difference it))
     (filter (\<lambda>it. counted_quantity it \<noteq> None \<and> signed_difference it \<noteq> 0) its)"
proof -
  have "correction_movements vid its =
      concat (map (\<lambda>it. if counted_quantity it \<noteq> None \<and> signed_difference it \<noteq> 0
                         then [inventory_movement vid it (signed_difference it)] else []) its)"
    unfolding correction_movements_def
    by (rule arg_cong[where f=concat], rule map_cong)
       (auto simp: difference_def signed_difference_def split: option.splits)
  then show ?thesis by (simp add: concat_map_if)
qed

text \<open>
  Claim C1, amended. A sequence of inserts, deletes and updates on \<open>stock_movements\<close>
  whose updates leave the product of a movement as it is changes \<open>current_stock\<close> of every
  product by exactly the change of the signed sum of its movements: the difference between the
  two is the same before and after. So a product whose stock equals the signed sum (one created
  with stock \<open>0\<close>, as invoice confirmation does) keeps that equality, and a product entered
  with an opening stock keeps the opening stock as offset.
\<close>

theorem ledger_offsets_preserved:
  assumes "keep_products d ops"
  shows "stock_offsets (apply_ops d ops) = stock_offsets d \<and>
         (ledger_consistent d \<longrightarrow> ledger_consistent (apply_ops d ops))"
proof -
  have "stock_offsets (apply_ops d ops) = stock_offsets d"
    using assms by (induction ops arbitrary: d) (simp_all add: apply_op_offsets)
  then show ?thesis by (simp add: ledger_consistent_offsets)
qed


theorem ledger_offsets_preserved_witness:
  "keep_products stocked_db [Ins (ex_adjustment 2), Upd 3 2 (Num 4), Del 4] \<and>
   ledger_consistent stocked_db \<and>
   ledger_consistent (apply_ops stocked_db [Ins (ex_adjustment 2), Upd 3 2 (Num 4), Del 4]) \<and>
   stocks stocked_db = [(2, 10000)] \<and>
   stocks (apply_ops stocked_db [Ins (ex_adjustment 2), Upd 3 2 (Num 4), Del 4]) = [(2, 4000)]"
proof -
  have h: "keep_products stocked_db [Ins (ex_adjustment 2), Upd 3 2 (Num 4), Del 4]"
    by code_simp
  have c: "ledger_consistent stocked_db" by code_simp
  have s: "stocks stocked_db = [(2, 10000)]"
    "stocks (apply_ops stocked_db [Ins (ex_adjustment 2), Upd 3 2 (Num 4), Del 4]) = [(2, 4000)]"
    by code_simp+
  show ?thesis using ledger_offsets_preserved[OF h] h c s by simp
qed


text \<open>
  Claim C1 as stated fails for a product that the product form created with an opening stock:
  after one insert of quantity 2 its stock is 7 while its movements sum to 2.
\<close>

theorem opening_stock_counterexample:
  "map current_stock (products (apply_ops opening_db [Ins (ex_adjustment 0)])) = [7000] \<and>
   ledger_sum 0 (apply_ops opening_db [Ins (ex_adjustment 0)]) = 2000 \<and>
   \<not> ledger_consistent (apply_ops opening_db [Ins (ex_adjustment 0)])"
  by code_simp

text \<open>
  An update that moves a movement to another product is outside the theorem: the trigger
  adjusts only the product the movement now names.
\<close>

lemma product_changing_update_example:
  "ledger_consistent two_products_db \<and>
   stocks two_products_db = [(2, 10000), (4, 0)] \<and>
   stocks (apply_ops two_products_db [Upd 3 4 (Num 10)]) = [(2, 10000), (4, 0)] \<and>
   map (\<lambda>m. (m_product_id m, m_quantity m))
     (stock_movements (apply_ops two_products_db [Upd 3 4 (Num 10)])) = [(4, 10000)]"
  by code_simp

section \<open>Inventory completion\<close>

lemma list_all2_lsum:
  assumes "list_all2 (\<lambda>x m. m_product_id m = pid x \<and> m_quantity m = qty x) xs rows"
  shows "lsum i rows = sum_list (map qty (filter (\<lambda>x. pid x = i) xs))"
  using assms by (induction rule: list_all2_induct) (auto simp: lsum_def)

lemma mset_sum_list_map:
  fixes f :: "'a \<Rightarrow> int"
  shows "mset xs = mset ys \<Longrightarrow> sum_list (map f xs) = sum_list (map f ys)"
proof -
  assume "mset xs = mset ys"
  then have "mset (map f xs) = mset (map f ys)" by simp
  then have "sum_mset (mset (map f xs)) = sum_mset (mset (map f ys))" by (rule arg_cong)
  then show ?thesis by (simp only: sum_mset_sum_list)
qed

lemma abs_le_sum_list:
  fixes f :: "'a \<Rightarrow> int"
  shows "x \<in> set xs \<Longrightarrow> \<bar>f x\<bar> \<le> sum_list (map (\<lambda>x. \<bar>f x\<bar>) xs)"
proof (induction xs)
  case Nil
  then show ?case by simp
next
  case (Cons a xs)
  have "0 \<le> sum_list (map (\<lambda>x. \<bar>f x\<bar>) xs)" by (rule sum_list_nonneg) auto
  with Cons show ?case by auto
qed

lemma sum_list_abs_filter_le:
  fixes f :: "'a \<Rightarrow> int"
  shows "sum_list (map (\<lambda>x. \<bar>f x\<bar>) (filter P xs)) \<le> sum_list (map (\<lambda>x. \<bar>f x\<bar>) xs)"
  by (induction xs) auto

lemma complete_inventory_effect:
  assumes "handleCompleteInventory sel now vid d = (d', None)"
  shows "\<exists>new.
     stock_movements d' = stock_movements d @ new \<and>
     list_all2 (\<lambda>it m. m_product_id m = it_product_id it \<and> m_movement_type m = Inventory \<and>
                  m_quantity m = signed_difference it \<and> m_reference_id m = Some vid \<and>
                  m_reference_type m = Some Inventory_ref)
       (filter (\<lambda>it. counted_quantity it \<noteq> None \<and> signed_difference it \<noteq> 0)
          (select_counted_items sel vid d)) new \<and>
     (\<forall>i. lsum i new = sum_list (map signed_difference
              (filter (\<lambda>it. it_product_id it = i)
                 (filter (\<lambda>it. counted_quantity it \<noteq> None \<and> signed_difference it \<noteq> 0)
                    (select_counted_items sel vid d))))) \<and>
     stocks d' = map (\<lambda>(i, c). (i, c + lsum i new)) (stocks d)"
proof -
  define d1 where "d1 = d\<lparr>inventories :=
                  map (\<lambda>i. if ivt_id i = vid
                            then i\<lparr>ivt_status := Completed, ivt_completed_at := Some now\<rparr>
                            else i) (inventories d)\<rparr>"
  define its where "its = filter (\<lambda>it. counted_quantity it \<noteq> None \<and> signed_difference it \<noteq> 0)
      (select_counted_items sel vid d)"
  have sc: "select_counted_items sel vid d1 = select_counted_items sel vid d"
    by (simp add: select_counted_items_def d1_def)
  have cm: "correction_movements vid (select_counted_items sel vid d1)
      = map (\<lambda>it. inventory_movement vid it (signed_difference it)) its"
    unfolding correction_movements_eq its_def sc by simp
  have s1: "stocks d1 = stocks d" "stock_movements d1 = stock_movements d"
    by (simp_all add: d1_def stocks_def)
  show ?thesis
  proof (cases "its = []")
    case True
    with assms cm have "d' = d1"
      by (simp add: handleCompleteInventory_def Let_def d1_def)
    with True s1 show ?thesis
      unfolding its_def[symmetric] by (auto simp: lsum_def intro!: exI[of _ "[]"] map_idI[symmetric])
  next
    case False
    with assms cm have "insert_stock_movements
        (map (\<lambda>it. inventory_movement vid it (signed_difference it)) its) d1 = Inr d'"
      by (auto simp: handleCompleteInventory_def Let_def d1_def[symmetric] split: sum.splits)
    from insert_stock_movements_effect[OF this] obtain rows where
      r: "list_all2 stores (map (\<lambda>it. inventory_movement vid it (signed_difference it)) its) rows"
         "stock_movements d' = stock_movements d1 @ rows"
         "stocks d' = map (\<lambda>(i, c). (i, c + lsum i rows)) (stocks d1)"
      by blast
    from r(1) have l: "list_all2 (\<lambda>it m. m_product_id m = it_product_id it \<and> m_movement_type m = Inventory \<and>
                  m_quantity m = signed_difference it \<and> m_reference_id m = Some vid \<and>
                  m_reference_type m = Some Inventory_ref) its rows"
      unfolding list_all2_map1
      by (rule list_all2_mono)
         (auto simp: stores_def inventory_movement_def dest: to_numeric_of_numeric)
    then have "list_all2 (\<lambda>it m. m_product_id m = it_product_id it \<and>
         m_quantity m = signed_difference it) its rows"
      by (rule list_all2_mono) simp
    from list_all2_lsum[OF this]
    have "lsum i rows = sum_list (map signed_difference (filter (\<lambda>it. it_product_id it = i) its))" for i .
    with r(2,3) l s1 show ?thesis
      unfolding its_def[symmetric] by auto
  qed
qed

text \<open>
  Claim C3, amended. Let the store answer the query for the counted items in any order
  (\<open>sel\<close> rearranges the rows it is given), let every item of the inventory name an existing
  product, and let there be room for the corrections: for every product, the absolute value of
  its stock plus the sum of the absolute differences of the items of the inventory stays within
  the ten digits of \<open>numeric(10,3)\<close>. Then \<open>handleCompleteInventory\<close> reports no error, and
  the movements it appends to the ledger correspond one to one to an arrangement \<open>rows\<close> of
  exactly the items of that inventory that have a count and a nonzero difference: each
  movement is of type \<open>inventory\<close>, has the item's product, the difference (counted minus
  expected) as quantity and the inventory's id as reference. Items without a count and items
  counted as expected contribute nothing. The stock of every product changes by the sum of the
  differences of its items. The handler does not look at the state of the inventory, so this
  holds for an inventory that is \<open>in_progress\<close> in particular. The witness is an inventory of
  three items that the store answers in reverse order: expected 10 and counted 7, expected 0
  and counted 2, and one not counted; the movements are +2 and -3.
\<close>

theorem complete_inventory_movements:
  assumes sel: "\<forall>xs. mset (sel xs) = mset xs"
    and fk: "\<forall>it \<in> set (inventory_items d).
               it_inventory_id it = vid \<longrightarrow> product_exists d (it_product_id it)"
    and room: "\<forall>p \<in> set (products d).
       \<bar>current_stock p\<bar> +
       sum_list (map (\<lambda>it. \<bar>signed_difference it\<bar>)
                  (filter (\<lambda>it. it_inventory_id it = vid) (inventory_items d))) < 10 ^ 10"
  shows "\<exists>d' rows new.
     handleCompleteInventory sel now vid d = (d', None) \<and>
     mset rows = mset (filter (\<lambda>it. it_inventory_id it = vid \<and> counted_quantity it \<noteq> None \<and>
                                  signed_difference it \<noteq> 0) (inventory_items d)) \<and>
     stock_movements d' = stock_movements d @ new \<and>
     list_all2 (\<lambda>it m. m_product_id m = it_product_id it \<and> m_movement_type m = Inventory \<and>
                  m_quantity m = signed_difference it \<and> m_reference_id m = Some vid \<and>
                  m_reference_type m = Some Inventory_ref) rows new \<and>
     stocks d' =
       map (\<lambda>(i, c). (i, c + sum_list (map signed_difference
              (filter (\<lambda>it. it_product_id it = i)
                 (filter (\<lambda>it. it_inventory_id it = vid \<and> counted_quantity it \<noteq> None \<and>
                      signed_difference it \<noteq> 0) (inventory_items d)))))) (stocks d)"
proof -
  define d1 where "d1 = d\<lparr>inventories :=
                  map (\<lambda>i. if ivt_id i = vid
                            then i\<lparr>ivt_status := Completed, ivt_completed_at := Some now\<rparr>
                            else i) (inventories d)\<rparr>"
  define its where "its = filter (\<lambda>it. it_inventory_id it = vid \<and> counted_quantity it \<noteq> None \<and>
                                  signed_difference it \<noteq> 0) (inventory_items d)"
  define rows where "rows = filter (\<lambda>it. counted_quantity it \<noteq> None \<and> signed_difference it \<noteq> 0)
      (select_counted_items sel vid d)"
  have "mset (select_counted_items sel vid d) =
      mset (filter (\<lambda>it. it_inventory_id it = vid \<and> counted_quantity it \<noteq> None) (inventory_items d))"
    using sel by (simp add: select_counted_items_def difference_def)
  then have "mset rows = mset (filter (\<lambda>it. counted_quantity it \<noteq> None \<and> signed_difference it \<noteq> 0)
      (filter (\<lambda>it. it_inventory_id it = vid \<and> counted_quantity it \<noteq> None) (inventory_items d)))"
    unfolding rows_def by (simp only: mset_filter)
  also have "\<dots> = mset its"
    unfolding its_def filter_filter
    by (rule arg_cong[where f=mset], rule filter_cong) auto
  finally have mr: "mset rows = mset its" .
  then have sr: "set rows = set its" by (rule mset_eq_setD)
  have sub: "its = filter (\<lambda>it. counted_quantity it \<noteq> None \<and> signed_difference it \<noteq> 0)
      (filter (\<lambda>it. it_inventory_id it = vid) (inventory_items d))"
    unfolding its_def by simp
  have total: "sum_list (map (\<lambda>it. \<bar>signed_difference it\<bar>) rows)
      \<le> sum_list (map (\<lambda>it. \<bar>signed_difference it\<bar>)
                  (filter (\<lambda>it. it_inventory_id it = vid) (inventory_items d)))"
    unfolding mset_sum_list_map[OF mr] sub by (rule sum_list_abs_filter_le)
  have fit: "fits 10 (signed_difference it)" if "it \<in> set rows" for it
  proof -
    from that sr have i: "it \<in> set (filter (\<lambda>it. it_inventory_id it = vid) (inventory_items d))"
      by (auto simp: its_def)
    with fk obtain p where p: "p \<in> set (products d)" by (auto simp: product_exists_def)
    from room p have "\<bar>current_stock p\<bar> +
       sum_list (map (\<lambda>it. \<bar>signed_difference it\<bar>)
                  (filter (\<lambda>it. it_inventory_id it = vid) (inventory_items d))) < 10 ^ 10"
      by blast
    with abs_le_sum_list[OF i, of signed_difference] have "\<bar>signed_difference it\<bar> < 10 ^ 10"
      by linarith
    then show ?thesis by (simp add: fits_def)
  qed
  have c: "list_all2 (\<lambda>v q. to_numeric 10 3 (mv_quantity v) = Inr q)
      (map (\<lambda>it. inventory_movement vid it (signed_difference it)) rows)
      (map signed_difference rows)"
    unfolding list_all2_map1 list_all2_map2
    by (rule list_all2_all_nthI)
       (simp_all add: inventory_movement_def to_numeric_of_numeric_fits fit)
  have e: "\<forall>v \<in> set (map (\<lambda>it. inventory_movement vid it (signed_difference it)) rows).
      product_exists d1 (mv_product_id v)"
    using fk sr by (auto simp: inventory_movement_def its_def product_exists_def d1_def)
  have t: "\<forall>v \<in> set (map (\<lambda>it. inventory_movement vid it (signed_difference it)) rows).
      mv_movement_type v \<noteq> Purchase"
    by (auto simp: inventory_movement_def)
  have b: "\<forall>p \<in> set (products d1).
      \<bar>current_stock p\<bar> + sum_list (map abs (map signed_difference rows)) < 10 ^ 10"
    using room total by (auto simp: d1_def comp_def)
  from insert_stock_movements_succeeds[OF c e t b] obtain d2 where
    d2: "insert_stock_movements
           (map (\<lambda>it. inventory_movement vid it (signed_difference it)) rows) d1 = Inr d2"
    by blast
  have sc: "select_counted_items sel vid d1 = select_counted_items sel vid d"
    by (simp add: select_counted_items_def d1_def)
  have cm: "correction_movements vid (select_counted_items sel vid d1)
      = map (\<lambda>it. inventory_movement vid it (signed_difference it)) rows"
    unfolding correction_movements_eq rows_def sc by simp
  have "\<exists>d'. handleCompleteInventory sel now vid d = (d', None)"
    unfolding handleCompleteInventory_def Let_def d1_def[symmetric] cm
    using d2 by simp
  then obtain d' where h: "handleCompleteInventory sel now vid d = (d', None)" by blast
  from complete_inventory_effect[OF h] obtain new where
    n: "stock_movements d' = stock_movements d @ new"
       "list_all2 (\<lambda>it m. m_product_id m = it_product_id it \<and> m_movement_type m = Inventory \<and>
                  m_quantity m = signed_difference it \<and> m_reference_id m = Some vid \<and>
                  m_reference_type m = Some Inventory_ref) rows new"
       "\<And>i. lsum i new = sum_list (map signed_difference
              (filter (\<lambda>it. it_product_id it = i) rows))"
       "stocks d' = map (\<lambda>(i, c). (i, c + lsum i new)) (stocks d)"
    unfolding rows_def[symmetric] by blast
  have "mset (filter (\<lambda>it. it_product_id it = i) rows) = mset (filter (\<lambda>it. it_product_id it = i) its)"
    for i using mr by (simp only: mset_filter)
  from mset_sum_list_map[OF this]
  have "lsum i new = sum_list (map signed_difference (filter (\<lambda>it. it_product_id it = i) its))"
    for i using n(3) by simp
  then have st: "stocks d' = map (\<lambda>(i, c). (i, c + sum_list (map signed_difference
              (filter (\<lambda>it. it_product_id it = i) its)))) (stocks d)"
    unfolding n(4) by simp
  show ?thesis
    unfolding its_def[symmetric]
    by (rule exI[of _ d'], rule exI[of _ rows], rule exI[of _ new]) (simp add: h mr n(1,2) st)
qed

theorem complete_inventory_movements_witness:
  "snd (handleCompleteInventory rev ''t1'' 6 counted3_db) = None \<and>
   status_of 6 counted3_db = [In_progress] \<and>
   map (\<lambda>it. (it_product_id it, expected_quantity it, counted_quantity it))
     (inventory_items counted3_db)
     = [(2, 10000, Some 7000), (4, 0, Some 2000), (5, 0, None)] \<and>
   map (\<lambda>m. (m_product_id m, m_movement_type m, m_quantity m))
     (drop (length (stock_movements counted3_db))
        (stock_movements (fst (handleCompleteInventory rev ''t1'' 6 counted3_db))))
     = [(4, Inventory, 2000), (2, Inventory, - 3000)] \<and>
   stocks counted3_db = [(2, 10000), (4, 0), (5, 0)] \<and>
   stocks (fst (handleCompleteInventory rev ''t1'' 6 counted3_db)) = [(2, 7000), (4, 2000), (5, 0)]"
proof -
  have h1: "\<forall>xs :: inventory_item list. mset (rev xs) = mset xs" by simp
  have h2: "\<forall>it \<in> set (inventory_items counted3_db).
               it_inventory_id it = 6 \<longrightarrow> product_exists counted3_db (it_product_id it)"
    by code_simp
  have h3: "\<forall>p \<in> set (products counted3_db).
       \<bar>current_stock p\<bar> +
       sum_list (map (\<lambda>it. \<bar>signed_difference it\<bar>)
                  (filter (\<lambda>it. it_inventory_id it = 6) (inventory_items counted3_db))) < 10 ^ 10"
    by code_simp
  from complete_inventory_movements[OF h1 h2 h3, of "''t1''"]
  obtain d' where "handleCompleteInventory rev ''t1'' 6 counted3_db = (d', None)" by blast
  then have s: "snd (handleCompleteInventory rev ''t1'' 6 counted3_db) = None" by simp
  have v: "status_of 6 counted3_db = [In_progress]"
    "map (\<lambda>it. (it_product_id it, expected_quantity it, counted_quantity it))
     (inventory_items counted3_db)
     = [(2, 10000, Some 7000), (4, 0, Some 2000), (5, 0, None)]"
    "map (\<lambda>m. (m_product_id m, m_movement_type m, m_quantity m))
     (drop (length (stock_movements counted3_db))
        (stock_movements (fst (handleCompleteInventory rev ''t1'' 6 counted3_db))))
     = [(4, Inventory, 2000), (2, Inventory, - 3000)]"
    "stocks counted3_db = [(2, 10000), (4, 0), (5, 0)]"
    "stocks (fst (handleCompleteInventory rev ''t1'' 6 counted3_db)) = [(2, 7000), (4, 2000), (5, 0)]"
    by code_simp+
  show ?thesis using s v by simp
qed

text \<open>
  Claim C3 as stated fails when the insert of the corrections fails. The handler sets the state
  to \<open>completed\<close> first and has no transaction around its statements. Below, the item was
  expected as 5 and counted as 9999999, and the stock has meanwhile grown to 6: the correction
  would take the stock beyond \<open>numeric(10,3)\<close>, the insert is refused, and the inventory is
  left completed with no movement for its counted item.
\<close>

theorem complete_inventory_counterexample:
  "status_of 1 miscounted_db = [In_progress] \<and>
   map (\<lambda>it. (it_product_id it, expected_quantity it, counted_quantity it))
     (inventory_items miscounted_db) = [(0, 5000, Some 9999999000)] \<and>
   stocks miscounted_db = [(0, 6000)] \<and>
   snd (handleCompleteInventory (\<lambda>rows. rows) ''t4'' 1 miscounted_db) = Some Numeric_overflow \<and>
   status_of 1 (fst (handleCompleteInventory (\<lambda>rows. rows) ''t4'' 1 miscounted_db)) = [Completed] \<and>
   stock_movements (fst (handleCompleteInventory (\<lambda>rows. rows) ''t4'' 1 miscounted_db))
     = stock_movements miscounted_db \<and>
   stocks (fst (handleCompleteInventory (\<lambda>rows. rows) ''t4'' 1 miscounted_db)) = [(0, 6000)]"
  by code_simp

section \<open>Invoice confirmation and deletion\<close>

text \<open>
  Claim C4 at a concrete input. Confirming the example invoice on the empty store writes a
  purchase movement with \<open>reference_type = invoice_item\<close> whose \<open>reference_id\<close> is the id of
  the invoice (0), not of the invoice item (1). The price trigger finds no invoice item with
  that id and sets \<open>last_purchase_price\<close> of the product to null, although the line has the net
  price 45.00.
\<close>

theorem purchase_price_not_propagated:
  "handleConfirmInvoice (\<lambda>s. True) ''t0'' (Some ex_invoice) empty_db = (stocked_db, None) \<and>
   map ii_net_price (invoice_items stocked_db) = [4500] \<and>
   map (\<lambda>m. (m_movement_type m, m_reference_type m, m_reference_id m)) (stock_movements stocked_db)
     = [(Purchase, Some Invoice_item, Some 0)] \<and>
   map inv_id (invoices stocked_db) = [0] \<and> map ii_id (invoice_items stocked_db) = [1] \<and>
   map last_purchase_price (products stocked_db) = [None]"
  by code_simp

text \<open>
  Claim C5 as stated fails: after the second invoice (three pieces) is deleted, the stock
  is still 13, not the 10 it was before that invoice was confirmed.
\<close>

theorem delete_invoice_counterexample:
  "map inv_invoice_number (invoices restocked_db) = [''FV/2024/001'', ''FV/2024/002''] \<and>
   stocks stocked_db = [(2, 10000)] \<and> stocks restocked_db = [(2, 13000)] \<and>
   stocks (confirmDeleteInvoice (find (\<lambda>i. inv_invoice_number i = ''FV/2024/002'')
             (invoices restocked_db)) restocked_db) = [(2, 13000)]"
  by code_simp


text \<open>
  Claim C5, amended. Deleting an invoice removes the invoice and its items and nothing else:
  the products, their stock and the stock movements stay as they are.
\<close>

theorem delete_invoice_keeps_ledger:
  "products (confirmDeleteInvoice (Some i) d) = products d \<and>
   stock_movements (confirmDeleteInvoice (Some i) d) = stock_movements d \<and>
   invoices (confirmDeleteInvoice (Some i) d) = filter (\<lambda>j. inv_id j \<noteq> inv_id i) (invoices d) \<and>
   invoice_items (confirmDeleteInvoice (Some i) d)
     = filter (\<lambda>ii. ii_invoice_id ii \<noteq> inv_id i) (invoice_items d)"
  by (simp add: confirmDeleteInvoice_def delete_invoice_def delete_invoice_items_of_def)

lemma insert_invoice_succeeds:
  assumes "dt (date pd)"
    and "\<forall>i \<in> set (invoices d). inv_invoice_number i \<noteq> invoiceNumber pd"
    and "\<not> isl (to_numeric 10 2 (totalNet pd))" and "\<not> isl (to_numeric 10 2 (totalGross pd))"
  shows "\<exists>i d1. insert_invoice dt now pd d = Inr (i, d1) \<and> inv_id i = next_uuid d \<and>
           invoices d1 = invoices d @ [i] \<and> products d1 = products d \<and>
           stock_movements d1 = stock_movements d \<and> invoice_items d1 = invoice_items d \<and>
           next_uuid d1 = Suc (next_uuid d)"
proof -
  from assms(3,4) obtain tn tg where "to_numeric 10 2 (totalNet pd) = Inr tn"
    "to_numeric 10 2 (totalGross pd) = Inr tg"
    by (auto dest!: not_isl_Inr)
  with assms(1,2) show ?thesis by (simp add: insert_invoice_def Let_def)
qed

lemma insert_invoice_item_row_succeeds:
  assumes "\<exists>i \<in> set (invoices d). inv_id i = iid" and "storable l"
  shows "\<exists>d'. insert_invoice_item_row iid d l = Inr d' \<and> products d' = products d \<and>
           stock_movements d' = stock_movements d \<and> invoices d' = invoices d \<and>
           next_uuid d' = Suc (next_uuid d) \<and>
           (\<exists>row. invoice_items d' = invoice_items d @ [row] \<and> ii_id row = next_uuid d)"
proof -
  from assms(2) obtain q pc np gp tn tg where
    "to_numeric 10 3 (quantity l) = Inr q" "to_integer (percentage l) = Inr pc"
    "to_numeric 10 2 (net_price l) = Inr np" "to_numeric 10 2 (gross_price l) = Inr gp"
    "to_numeric 10 2 (total_net l) = Inr tn" "to_numeric 10 2 (total_gross l) = Inr tg"
    unfolding storable_def by (auto dest!: not_isl_Inr)
  with assms(1) show ?thesis by (simp add: insert_invoice_item_row_def Let_def)
qed

lemma insert_invoice_items_succeeds:
  assumes "\<exists>i \<in> set (invoices d). inv_id i = iid" and "\<forall>l \<in> set its. storable l"
  shows "\<exists>d'. insert_invoice_items iid its d = Inr d' \<and> products d' = products d \<and>
           stock_movements d' = stock_movements d \<and> next_uuid d \<le> next_uuid d' \<and>
           (\<forall>row \<in> set (invoice_items d').
              row \<in> set (invoice_items d) \<or> next_uuid d \<le> ii_id row)"
  using assms
proof (induction its arbitrary: d)
  case Nil
  then show ?case by (simp add: insert_invoice_items_def)
next
  case (Cons l its)
  from Cons.prems have "storable l" by simp
  from insert_invoice_item_row_succeeds[OF Cons.prems(1) this] obtain d1 row where
    d1: "insert_invoice_item_row iid d l = Inr d1" "products d1 = products d"
      "stock_movements d1 = stock_movements d" "invoices d1 = invoices d"
      "next_uuid d1 = Suc (next_uuid d)"
      "invoice_items d1 = invoice_items d @ [row]" "ii_id row = next_uuid d"
    by blast
  have 1: "\<exists>i \<in> set (invoices d1). inv_id i = iid" using Cons.prems(1) d1(4) by simp
  have 2: "\<forall>l \<in> set its. storable l" using Cons.prems(2) by simp
  from Cons.IH[OF 1 2] obtain d' where
    d': "insert_invoice_items iid its d1 = Inr d'" "products d' = products d1"
      "stock_movements d' = stock_movements d1" "next_uuid d1 \<le> next_uuid d'"
      "\<forall>row \<in> set (invoice_items d').
              row \<in> set (invoice_items d1) \<or> next_uuid d1 \<le> ii_id row"
    by blast
  have "insert_invoice_items iid (l # its) d = Inr d'"
    using d1(1) d'(1) by (simp add: insert_invoice_items_def)
  moreover have "\<forall>r \<in> set (invoice_items d').
              r \<in> set (invoice_items d) \<or> next_uuid d \<le> ii_id r"
    using d'(5) d1(5,6,7) by fastforce
  ultimately show ?case using d1 d' by simp
qed

text \<open>
  One turn of the loop of \<open>handleConfirmInvoice\<close> for a line whose name no product has, at
  any position of the loop and in any store with fresh ids.
\<close>

lemma confirm_items_new_product:
  assumes nm: "\<forall>p \<in> set (products d). p_name p \<noteq> name it"
    and q: "to_numeric 10 3 (quantity it) = Inr q"
    and np: "\<not> isl (to_numeric 10 2 (net_price it))"
    and fp: "\<forall>p \<in> set (products d). p_id p \<noteq> next_uuid d"
    and fi: "\<forall>l \<in> set (invoice_items d). ii_id l \<noteq> iid"
  shows "\<exists>d1 d2 lpp m.
     find_or_create_product it d = Inr (next_uuid d, d1) \<and>
     to_numeric_null 10 2 (net_price it) = Inr lpp \<and>
     products d1 = products d @
       [\<lparr>p_id = next_uuid d, p_name = name it, p_unit = unit it, current_stock = 0,
         min_stock_level = 0, last_purchase_price = lpp\<rparr>] \<and>
     stock_movements d1 = stock_movements d \<and>
     insert_stock_movements [purchase_movement invno iid (next_uuid d) it] d1 = Inr d2 \<and>
     stock_movements d2 = stock_movements d @ [m] \<and>
     m_product_id m = next_uuid d \<and> m_movement_type m = Purchase \<and> m_quantity m = q \<and>
     map current_stock (filter (\<lambda>p. p_name p = name it) (products d2)) = [q] \<and>
     confirm_items invno iid (it # its) d = confirm_items invno iid its d2"
proof -
  from np obtain v where "to_numeric 10 2 (net_price it) = Inr v" by (auto dest!: not_isl_Inr)
  then have lpp: "to_numeric_null 10 2 (net_price it) = Inr (Some v)"
    by (rule to_numeric_null_of_to_numeric)
  define row where "row = \<lparr>p_id = next_uuid d, p_name = name it, p_unit = unit it,
      current_stock = 0, min_stock_level = 0, last_purchase_price = Some v\<rparr>"
  define d1 where "d1 = d\<lparr>products := products d @ [row], next_uuid := Suc (next_uuid d)\<rparr>"
  from nm have "filter (\<lambda>p. p_name p = name it) (products d) = []"
    by (auto simp: filter_empty_conv)
  then have fnd: "find_product_by_name d (name it) = None"
    by (simp add: find_product_by_name_def)
  have ip: "insert_product \<lparr>pv_name = name it, pv_unit = unit it, pv_current_stock = Num 0,
                    pv_min_stock_level = Num 0,
                    pv_last_purchase_price = Some (net_price it)\<rparr> d = Inr (row, d1)"
    using nm
    by (simp add: insert_product_def lpp Let_def row_def d1_def round_half_away_def fits_def
        floor_half)
  have foc: "find_or_create_product it d = Inr (next_uuid d, d1)"
    by (simp add: find_or_create_product_def fnd ip) (simp add: row_def)
  define mv where "mv = purchase_movement invno iid (next_uuid d) it"
  have a1: "to_numeric 10 3 (mv_quantity mv) = Inr q" using q by (simp add: mv_def purchase_movement_def)
  have a2: "product_exists d1 (mv_product_id mv)"
    by (simp add: product_exists_def d1_def mv_def purchase_movement_def row_def)
  have "filter (\<lambda>ii. Some (ii_id ii) = Some iid) (invoice_items d1) = []"
    using fi by (auto simp: filter_empty_conv d1_def)
  then have a3: "mv_movement_type mv = Purchase \<and> mv_reference_type mv = Some Invoice_item \<longrightarrow>
             (\<exists>x. net_price_of_item d1 (mv_reference_id mv) = Inr x)"
    by (simp add: net_price_of_item_def mv_def purchase_movement_def)
  have a4: "\<forall>p \<in> set (products d1). p_id p = mv_product_id mv \<longrightarrow> fits 10 (current_stock p + q)"
    using fp to_numeric_fits[OF q]
    by (auto simp: d1_def mv_def purchase_movement_def row_def)
  from insert_movement_row_succeeds[OF a1 a2 a3 a4] obtain d2 where
    "insert_movement_row d1 mv = Inr d2" by blast
  then have d2: "insert_stock_movements [mv] d1 = Inr d2"
    by (simp add: insert_stock_movements_def)
  from insert_stock_movements_effect[OF d2] obtain rows where
    r: "list_all2 stores [mv] rows" "stock_movements d2 = stock_movements d1 @ rows"
       "stocks d2 = map (\<lambda>(i, c). (i, c + lsum i rows)) (stocks d1)"
       "product_static d2 = product_static d1"
    by blast
  from r(1) obtain m where m: "rows = [m]" "stores mv m"
    by (auto simp: list_all2_Cons1)
  from m(2) a1 have mq: "m_product_id m = next_uuid d" "m_movement_type m = Purchase"
    "m_quantity m = q"
    by (auto simp: stores_def mv_def purchase_movement_def)
  have names: "map p_name (products d2) = map p_name (products d) @ [name it]"
    using arg_cong[OF r(4), of "map (\<lambda>x. fst (snd x))"]
    by (simp add: product_static_def comp_def d1_def row_def)
  have st: "map current_stock (products d2) =
      map snd (map (\<lambda>(i, c). (i, c + lsum i rows)) (stocks d1))"
    using arg_cong[OF r(3), of "map snd"] by (simp add: stocks_def comp_def)
  have len: "length (products d2) = Suc (length (products d))"
    using arg_cong[OF names, of length] by simp
  then obtain ps p where pp: "products d2 = ps @ [p]" "length ps = length (products d)"
    by (metis length_Suc_conv_rev)
  from names pp have n1: "map p_name ps = map p_name (products d)" "p_name p = name it"
    by auto
  from st pp have "current_stock p = 0 + lsum (next_uuid d) rows"
    by (auto simp: stocks_def d1_def row_def)
  with m(1) mq have cs: "current_stock p = q" by (simp add: lsum_def)
  from n1(1) nm have "\<forall>x \<in> set ps. p_name x \<noteq> name it"
    by (metis (no_types, lifting) image_set imageE imageI)
  then have "filter (\<lambda>p. p_name p = name it) ps = []" by (auto simp: filter_empty_conv)
  with pp n1 cs have f: "map current_stock (filter (\<lambda>p. p_name p = name it) (products d2)) = [q]"
    by simp
  have ci: "confirm_items invno iid (it # its) d = confirm_items invno iid its d2"
    using foc d2 by (simp add: mv_def)
  have sm: "stock_movements d2 = stock_movements d @ [m]"
    using r(2) m(1) by (simp add: d1_def)
  show ?thesis
    by (rule exI[of _ d1], rule exI[of _ d2], rule exI[of _ "Some v"], rule exI[of _ m])
       (simp add: foc lpp d2[unfolded mv_def] sm mq f ci, simp add: d1_def row_def)
qed

text \<open>
  Claim C10, amended. Let the first line \<open>it\<close> of a parsed invoice name a product that the
  store does not hold, let the date, the number and the totals of the invoice and the numbers
  of all its lines be acceptable to their columns, let \<open>q\<close> be the quantity of \<open>it\<close> as
  \<open>numeric(10,3)\<close> stores it (rounded to three decimals), and let the ids in the store be
  older than the next generated id. Then \<open>handleConfirmInvoice\<close> stores the invoice and its
  lines, which leaves products and ledger as they were; it creates the product with stock 0,
  minimal level 0, the unit of the line and the net price of the line as last purchase price,
  the ledger still being as before; it inserts one purchase movement of quantity \<open>q\<close> for that
  product; after that the store holds exactly one product of that name, and its stock is \<open>q\<close>;
  and it goes on with the remaining lines. When \<open>it\<close> is the only line, the handler reports
  no error and leaves that store. The lemma \<open>confirm_items_new_product\<close> above says the same
  of a line at any position of the loop. The witnesses are an invoice with the single line of
  2.5 pieces of a new product, and an invoice of two lines, 2.5 pieces of a new product and
  one piece of the product in stock, both confirmed on a store that holds that other product.
\<close>

theorem confirm_new_product_stock:
  assumes "items pd = it # its"
    and "\<forall>p \<in> set (products d). p_name p \<noteq> name it"
    and "dt (date pd)"
    and "\<forall>i \<in> set (invoices d). inv_invoice_number i \<noteq> invoiceNumber pd"
    and "\<not> isl (to_numeric 10 2 (totalNet pd))" and "\<not> isl (to_numeric 10 2 (totalGross pd))"
    and "\<forall>l \<in> set (items pd). storable l"
    and "to_numeric 10 3 (quantity it) = Inr q"
    and "\<forall>p \<in> set (products d). p_id p < next_uuid d"
    and "\<forall>l \<in> set (invoice_items d). ii_id l < next_uuid d"
  shows "\<exists>d2 d3 d4 pid lpp m.
     products d2 = products d \<and> stock_movements d2 = stock_movements d \<and>
     find_or_create_product it d2 = Inr (pid, d3) \<and>
     to_numeric_null 10 2 (net_price it) = Inr lpp \<and>
     products d3 = products d @
       [\<lparr>p_id = pid, p_name = name it, p_unit = unit it, current_stock = 0,
         min_stock_level = 0, last_purchase_price = lpp\<rparr>] \<and>
     stock_movements d3 = stock_movements d \<and>
     insert_stock_movements [purchase_movement (invoiceNumber pd) (next_uuid d) pid it] d3
       = Inr d4 \<and>
     stock_movements d4 = stock_movements d @ [m] \<and>
     m_product_id m = pid \<and> m_movement_type m = Purchase \<and> m_quantity m = q \<and>
     map current_stock (filter (\<lambda>p. p_name p = name it) (products d4)) = [q] \<and>
     handleConfirmInvoice dt now (Some pd) d
       = confirm_items (invoiceNumber pd) (next_uuid d) its d4 \<and>
     (its = [] \<longrightarrow> handleConfirmInvoice dt now (Some pd) d = (d4, None))"
proof -
  from insert_invoice_succeeds[of dt pd d now, OF assms(3,4,5,6)] obtain i d1 where
    d1: "insert_invoice dt now pd d = Inr (i, d1)" "inv_id i = next_uuid d"
      "invoices d1 = invoices d @ [i]" "products d1 = products d"
      "stock_movements d1 = stock_movements d" "invoice_items d1 = invoice_items d"
      "next_uuid d1 = Suc (next_uuid d)"
    by blast
  have "\<exists>x \<in> set (invoices d1). inv_id x = inv_id i" using d1(3) by simp
  from insert_invoice_items_succeeds[OF this assms(7)] obtain d2 where
    d2: "insert_invoice_items (inv_id i) (items pd) d1 = Inr d2" "products d2 = products d1"
      "stock_movements d2 = stock_movements d1" "next_uuid d1 \<le> next_uuid d2"
      "\<forall>row \<in> set (invoice_items d2).
              row \<in> set (invoice_items d1) \<or> next_uuid d1 \<le> ii_id row"
    by blast
  have nm: "\<forall>p \<in> set (products d2). p_name p \<noteq> name it" using assms(2) d1(4) d2(2) by simp
  have np: "\<not> isl (to_numeric 10 2 (net_price it))"
    using assms(1,7) by (simp add: storable_def)
  have fp: "\<forall>p \<in> set (products d2). p_id p \<noteq> next_uuid d2"
    using assms(9) d1(4,7) d2(2,4) by fastforce
  have fi: "\<forall>l \<in> set (invoice_items d2). ii_id l \<noteq> next_uuid d"
    using assms(10) d1(6,7) d2(5) by fastforce
  from confirm_items_new_product[OF nm assms(8) np fp fi, of "invoiceNumber pd" its]
  obtain d3 d4 lpp m where
    c: "find_or_create_product it d2 = Inr (next_uuid d2, d3)"
       "to_numeric_null 10 2 (net_price it) = Inr lpp"
       "products d3 = products d2 @
         [\<lparr>p_id = next_uuid d2, p_name = name it, p_unit = unit it, current_stock = 0,
           min_stock_level = 0, last_purchase_price = lpp\<rparr>]"
       "stock_movements d3 = stock_movements d2"
       "insert_stock_movements [purchase_movement (invoiceNumber pd) (next_uuid d) (next_uuid d2) it] d3
          = Inr d4"
       "stock_movements d4 = stock_movements d2 @ [m]"
       "m_product_id m = next_uuid d2" "m_movement_type m = Purchase" "m_quantity m = q"
       "map current_stock (filter (\<lambda>p. p_name p = name it) (products d4)) = [q]"
       "confirm_items (invoiceNumber pd) (next_uuid d) (it # its) d2
          = confirm_items (invoiceNumber pd) (next_uuid d) its d4"
    by (elim exE conjE) (rule that, assumption+)
  have h: "handleConfirmInvoice dt now (Some pd) d
       = confirm_items (invoiceNumber pd) (next_uuid d) its d4"
    using d1(1,2) d2(1) c(11) assms(1) by (simp add: handleConfirmInvoice_def)
  show ?thesis
    by (rule exI[of _ d2], rule exI[of _ d3], rule exI[of _ d4], rule exI[of _ "next_uuid d2"],
        rule exI[of _ lpp], rule exI[of _ m])
       (simp add: d1(4,5) d2(2,3) c h)
qed

theorem confirm_new_product_stock_witness:
  "(\<exists>d4. map current_stock (filter (\<lambda>p. p_name p = name ex_item3) (products d4)) = [2500] \<and>
      handleConfirmInvoice (\<lambda>s. True) ''t5'' (Some ex_invoice4) stocked_db = (d4, None)) \<and>
   (\<exists>d4. map current_stock (filter (\<lambda>p. p_name p = name ex_item3) (products d4)) = [2500] \<and>
      handleConfirmInvoice (\<lambda>s. True) ''t5'' (Some ex_invoice3) stocked_db
        = confirm_items (invoiceNumber ex_invoice3) (next_uuid stocked_db)
            (tl (items ex_invoice3)) d4) \<and>
   map p_name (products stocked_db) = [''Mysz optyczna''] \<and>
   map (\<lambda>l. (name l, quantity l)) (items ex_invoice4) = [(''Klawiatura'', Num (5 / 2))] \<and>
   map (\<lambda>p. (p_name p, current_stock p))
     (products (fst (handleConfirmInvoice (\<lambda>s. True) ''t5'' (Some ex_invoice4) stocked_db)))
     = [(''Mysz optyczna'', 10000), (''Klawiatura'', 2500)] \<and>
   map (\<lambda>l. (name l, quantity l)) (items ex_invoice3)
     = [(''Klawiatura'', Num (5 / 2)), (''Mysz optyczna'', Num 1)] \<and>
   snd (handleConfirmInvoice (\<lambda>s. True) ''t5'' (Some ex_invoice3) stocked_db) = None \<and>
   map (\<lambda>p. (p_name p, current_stock p))
     (products (fst (handleConfirmInvoice (\<lambda>s. True) ''t5'' (Some ex_invoice3) stocked_db)))
     = [(''Mysz optyczna'', 11000), (''Klawiatura'', 2500)]"
proof -
  have h2: "\<forall>p \<in> set (products stocked_db). p_name p \<noteq> name ex_item3" by code_simp
  have h8: "to_numeric 10 3 (quantity ex_item3) = Inr 2500" by code_simp
  have h9: "\<forall>p \<in> set (products stocked_db). p_id p < next_uuid stocked_db" by code_simp
  have h10: "\<forall>l \<in> set (invoice_items stocked_db). ii_id l < next_uuid stocked_db" by code_simp
  have g1: "items ex_invoice4 = ex_item3 # []" by (simp add: ex_invoice4_def)
  have g3: "(\<lambda>s. True) (date ex_invoice4)" by simp
  have g4: "\<forall>i \<in> set (invoices stocked_db). inv_invoice_number i \<noteq> invoiceNumber ex_invoice4"
    by code_simp
  have g5: "\<not> isl (to_numeric 10 2 (totalNet ex_invoice4))"
    and g6: "\<not> isl (to_numeric 10 2 (totalGross ex_invoice4))"
    by code_simp+
  have g7: "\<forall>l \<in> set (items ex_invoice4). storable l" by code_simp
  from confirm_new_product_stock[OF g1 h2 g3 g4 g5 g6 g7 h8 h9 h10, of "''t5''"]
  have e1: "\<exists>d4. map current_stock (filter (\<lambda>p. p_name p = name ex_item3) (products d4)) = [2500] \<and>
      handleConfirmInvoice (\<lambda>s. True) ''t5'' (Some ex_invoice4) stocked_db = (d4, None)"
    by (elim exE conjE) (rule exI, rule conjI, assumption, simp)
  have h1: "items ex_invoice3 = ex_item3 # tl (items ex_invoice3)"
    by (simp add: ex_invoice3_def)
  have h3: "(\<lambda>s. True) (date ex_invoice3)" by simp
  have h4: "\<forall>i \<in> set (invoices stocked_db). inv_invoice_number i \<noteq> invoiceNumber ex_invoice3"
    by code_simp
  have h5: "\<not> isl (to_numeric 10 2 (totalNet ex_invoice3))"
    and h6: "\<not> isl (to_numeric 10 2 (totalGross ex_invoice3))"
    by code_simp+
  have h7: "\<forall>l \<in> set (items ex_invoice3). storable l" by code_simp
  from confirm_new_product_stock[OF h1 h2 h3 h4 h5 h6 h7 h8 h9 h10, of "''t5''"]
  have e2: "\<exists>d4. map current_stock (filter (\<lambda>p. p_name p = name ex_item3) (products d4)) = [2500] \<and>
      handleConfirmInvoice (\<lambda>s. True) ''t5'' (Some ex_invoice3) stocked_db
        = confirm_items (invoiceNumber ex_invoice3) (next_uuid stocked_db)
            (tl (items ex_invoice3)) d4"
    by (elim exE conjE) (rule exI, rule conjI, assumption+)
  have v: "map p_name (products stocked_db) = [''Mysz optyczna'']"
    "map (\<lambda>l. (name l, quantity l)) (items ex_invoice4) = [(''Klawiatura'', Num (5 / 2))]"
    "map (\<lambda>p. (p_name p, current_stock p))
     (products (fst (handleConfirmInvoice (\<lambda>s. True) ''t5'' (Some ex_invoice4) stocked_db)))
     = [(''Mysz optyczna'', 10000), (''Klawiatura'', 2500)]"
    "map (\<lambda>l. (name l, quantity l)) (items ex_invoice3)
     = [(''Klawiatura'', Num (5 / 2)), (''Mysz optyczna'', Num 1)]"
    "snd (handleConfirmInvoice (\<lambda>s. True) ''t5'' (Some ex_invoice3) stocked_db) = None"
    "map (\<lambda>p. (p_name p, current_stock p))
     (products (fst (handleConfirmInvoice (\<lambda>s. True) ''t5'' (Some ex_invoice3) stocked_db)))
     = [(''Mysz optyczna'', 11000), (''Klawiatura'', 2500)]"
    by code_simp+
  from e1 e2 v show ?thesis by (intro conjI)
qed

text \<open>
  Claim C10 as stated fails for a quantity with more than three decimals: the line below has
  the quantity 0.0004; the invoice is confirmed without error, the movement is stored with
  the quantity 0.000, and the stock of the new product is 0, not 0.0004.
\<close>

theorem confirm_new_product_counterexample:
  "map p_name (products stocked_db) = [''Mysz optyczna''] \<and>
   map (\<lambda>l. (name l, quantity l)) (items tiny_invoice) = [(''Klawiatura'', Num (4 / 10000))] \<and>
   snd (handleConfirmInvoice (\<lambda>s. True) ''t6'' (Some tiny_invoice) stocked_db) = None \<and>
   map (\<lambda>p. (p_name p, current_stock p))
     (products (fst (handleConfirmInvoice (\<lambda>s. True) ''t6'' (Some tiny_invoice) stocked_db)))
     = [(''Mysz optyczna'', 10000), (''Klawiatura'', 0)] \<and>
   map (\<lambda>m. (m_movement_type m, m_quantity m))
     (stock_movements (fst (handleConfirmInvoice (\<lambda>s. True) ''t6'' (Some tiny_invoice) stocked_db)))
     = [(Purchase, 10000), (Purchase, 0)] \<and>
   of_numeric 3 0 \<noteq> Num (4 / 10000)"
  by code_simp

section \<open>The inventory workflow\<close>

text \<open>
  Claim C6 as stated fails on the handlers. On an inventory in state \<open>draft\<close>,
  \<open>handleUpdateCount\<close> records the count and reports no error, and
  \<open>handleCompleteInventory\<close> sets the state to \<open>completed\<close>; on a completed inventory
  \<open>handleStartInventory\<close> sets the state back to \<open>in_progress\<close>.
\<close>

theorem inventory_handlers_counterexample:
  "status_of 4 draft_db = [Draft] \<and>
   counts_of 4 draft_db = [(5, None)] \<and>
   handleUpdateCount 5 (Num 7) draft_db \<noteq> (draft_db, None) \<and>
   snd (handleUpdateCount 5 (Num 7) draft_db) = None \<and>
   counts_of 4 (fst (handleUpdateCount 5 (Num 7) draft_db)) = [(5, Some 7000)] \<and>
   status_of 4 (fst (handleCompleteInventory (\<lambda>rows. rows) ''t'' 4 draft_db)) = [Completed] \<and>
   status_of 4 completed_db = [Completed] \<and>
   status_of 4 (handleStartInventory 4 completed_db) = [In_progress]"
  by code_simp

lemma other_tables_inventories:
  "other_tables d' = other_tables d \<Longrightarrow>
   inventories d' = inventories d \<and> inventory_items d' = inventory_items d"
  by (simp add: other_tables_def)

lemma handleCompleteInventory_tables:
  assumes "handleCompleteInventory sel now vid d = (d', e)"
  shows "inventories d' =
           map (\<lambda>i. if ivt_id i = vid
                     then i\<lparr>ivt_status := Completed, ivt_completed_at := Some now\<rparr> else i)
             (inventories d)"
    and "inventory_items d' = inventory_items d"
  using assms
  by (auto simp: handleCompleteInventory_def Let_def other_tables_def
      split: if_splits sum.splits dest!: insert_stock_movements_effect)

lemma handleUpdateCount_tables:
  assumes "handleUpdateCount itemId c d = (d', e)"
  shows "inventories d' = inventories d"
  using assms by (auto simp: handleUpdateCount_def split: sum.splits if_splits)

text \<open>
  Claim C6, amended. The gate is in the screens, not in the handlers: the list offers
  ``start'' for an inventory it shows as \<open>draft\<close> and ``complete'' for one it shows as
  \<open>in_progress\<close>, and the detail view lets counts be saved when it shows \<open>in_progress\<close>.
  When the status the client shows is the stored one, a step through the screens moves every
  inventory's status forward by at most one state and never back, records no count unless the
  inventory is \<open>in_progress\<close>, and does nothing at all for ``complete'' outside
  \<open>in_progress\<close> and for ``start'' outside \<open>draft\<close>.
\<close>

theorem ui_step_forward:
  assumes "\<forall>i \<in> set (inventories d). ivt_id i = ivt_id shown \<longrightarrow> ivt_status i = ivt_status shown"
    and "ui_step sel now shown a d = (d', e)"
  shows "list_all2 (\<lambda>i i'. ivt_id i' = ivt_id i \<and> rank (ivt_status i) \<le> rank (ivt_status i') \<and>
                     rank (ivt_status i') \<le> Suc (rank (ivt_status i)))
           (inventories d) (inventories d') \<and>
         (ivt_status shown \<noteq> In_progress \<longrightarrow> inventory_items d' = inventory_items d) \<and>
         (ivt_status shown \<noteq> In_progress \<and> a = Click_complete \<longrightarrow> d' = d) \<and>
         (ivt_status shown \<noteq> Draft \<and> a = Click_start \<longrightarrow> d' = d)"
proof (cases "offered shown d a")
  case False
  with assms(2) have "d' = d" by (simp add: ui_step_def)
  then show ?thesis by (simp add: list_all2_same)
next
  case True
  show ?thesis
  proof (cases a)
    case Click_start
    with True assms have "ivt_status shown = Draft"
      and "d' = handleStartInventory (ivt_id shown) d"
      by (simp_all add: ui_step_def)
    with assms(1) Click_start show ?thesis
      by (auto simp: handleStartInventory_def list_all2_map2 intro!: list_all2_same[THEN iffD2])
  next
    case Click_complete
    with True assms have s: "ivt_status shown = In_progress"
      and "handleCompleteInventory sel now (ivt_id shown) d = (d', e)"
      by (simp_all add: ui_step_def)
    from handleCompleteInventory_tables[OF this(2)] s assms(1) Click_complete show ?thesis
      by (auto simp: list_all2_map2 intro!: list_all2_same[THEN iffD2])
  next
    case (Save_count itemId c)
    with True assms have s: "ivt_status shown = In_progress"
      and "handleUpdateCount itemId c d = (d', e)"
      by (simp_all add: ui_step_def)
    from handleUpdateCount_tables[OF this(2)] s Save_count show ?thesis
      by (auto simp: list_all2_same)
  qed
qed

theorem ui_step_forward_witness:
  "map ivt_id (inventories counted_db) = [4] \<and>
   ui_step (\<lambda>rows. rows) ''t1'' (hd (inventories counted_db)) Click_complete counted_db = (completed_db, None) \<and>
   status_of 4 counted_db = [In_progress] \<and> status_of 4 completed_db = [Completed] \<and>
   status_of 4 draft_db = [Draft] \<and>
   ui_step (\<lambda>rows. rows) ''t1'' (hd (inventories draft_db)) Click_complete draft_db = (draft_db, None) \<and>
   ui_step (\<lambda>rows. rows) ''t1'' (hd (inventories draft_db)) (Save_count 5 (Num 7)) draft_db = (draft_db, None) \<and>
   ui_step (\<lambda>rows. rows) ''t1'' (hd (inventories completed_db)) Click_start completed_db = (completed_db, None)"
proof -
  have h1: "\<forall>i \<in> set (inventories counted_db). ivt_id i = ivt_id (hd (inventories counted_db)) \<longrightarrow>
       ivt_status i = ivt_status (hd (inventories counted_db))"
    by code_simp
  have h2: "ui_step (\<lambda>rows. rows) ''t1'' (hd (inventories counted_db)) Click_complete counted_db = (completed_db, None)"
    by code_simp
  have g1: "\<forall>i \<in> set (inventories draft_db). ivt_id i = ivt_id (hd (inventories draft_db)) \<longrightarrow>
       ivt_status i = ivt_status (hd (inventories draft_db))"
    by code_simp
  have g2: "ui_step (\<lambda>rows. rows) ''t1'' (hd (inventories draft_db)) Click_complete draft_db = (draft_db, None)"
    by code_simp
  have k1: "\<forall>i \<in> set (inventories completed_db).
       ivt_id i = ivt_id (hd (inventories completed_db)) \<longrightarrow>
       ivt_status i = ivt_status (hd (inventories completed_db))"
    by code_simp
  have k2: "ui_step (\<lambda>rows. rows) ''t1'' (hd (inventories completed_db)) Click_start completed_db
      = (completed_db, None)"
    by code_simp
  have v: "status_of 4 counted_db = [In_progress]" "status_of 4 completed_db = [Completed]"
   "status_of 4 draft_db = [Draft]"
   "ui_step (\<lambda>rows. rows) ''t1'' (hd (inventories draft_db)) (Save_count 5 (Num 7)) draft_db = (draft_db, None)"
   "map ivt_id (inventories counted_db) = [4]"
    by code_simp+
  show ?thesis
    using ui_step_forward[OF h1 h2] ui_step_forward[OF g1 g2] ui_step_forward[OF k1 k2] h2 g2 k2 v
    by simp
qed

section \<open>Sales\<close>

lemma insert_sale_item_row_effect:
  assumes "insert_sale_item_row ar sid d ci = Inr d'"
  shows "\<exists>si. sale_items d' = sale_items d @ [si] \<and> si_sale_id si = sid \<and>
           si_product_id si = csi_product_id ci \<and>
           to_numeric 10 3 (csi_quantity ci) = Inr (si_quantity si) \<and>
           stock_movements d' = stock_movements d \<and> products d' = products d"
  using assms
  by (auto simp: insert_sale_item_row_def thenE_Inr_iff Let_def split: if_splits)

lemma insert_sale_items_effect:
  "insert_sale_items ar sid cs d = Inr d' \<Longrightarrow>
   \<exists>sis. sale_items d' = sale_items d @ sis \<and>
     list_all2 (\<lambda>ci si. si_sale_id si = sid \<and> si_product_id si = csi_product_id ci \<and>
                  to_numeric 10 3 (csi_quantity ci) = Inr (si_quantity si)) cs sis \<and>
     stock_movements d' = stock_movements d \<and> products d' = products d"
proof (induction cs arbitrary: d)
  case Nil
  then show ?case by (simp add: insert_sale_items_def)
next
  case (Cons ci cs)
  then obtain d1 where d1: "insert_sale_item_row ar sid d ci = Inr d1"
    and r: "insert_sale_items ar sid cs d1 = Inr d'"
    by (auto simp: insert_sale_items_def thenE_Inr_iff)
  from insert_sale_item_row_effect[OF d1] obtain si where
    a: "sale_items d1 = sale_items d @ [si]" "si_sale_id si = sid"
       "si_product_id si = csi_product_id ci"
       "to_numeric 10 3 (csi_quantity ci) = Inr (si_quantity si)"
       "stock_movements d1 = stock_movements d" "products d1 = products d"
    by blast
  from Cons.IH[OF r] obtain sis where
    b: "sale_items d' = sale_items d1 @ sis"
       "list_all2 (\<lambda>ci si. si_sale_id si = sid \<and> si_product_id si = csi_product_id ci \<and>
                  to_numeric 10 3 (csi_quantity ci) = Inr (si_quantity si)) cs sis"
       "stock_movements d' = stock_movements d1" "products d' = products d1"
    by blast
  have "sale_items d' = sale_items d @ (si # sis)" using a b by simp
  moreover have "list_all2 (\<lambda>ci si. si_sale_id si = sid \<and> si_product_id si = csi_product_id ci \<and>
                  to_numeric 10 3 (csi_quantity ci) = Inr (si_quantity si)) (ci # cs) (si # sis)"
    using a b by simp
  ultimately show ?case using a b by (metis (no_types, lifting))
qed

lemma insert_sale_effect:
  assumes "insert_sale dt sd ta d = Inr (s, d')"
  shows "sale_items d' = sale_items d \<and> stock_movements d' = stock_movements d \<and>
         products d' = products d"
  using assms
  by (auto simp: insert_sale_def thenE_Inr_iff Let_def split: if_splits)

lemma list_all2_join:
  assumes "list_all2 P xs ys" and "list_all2 Q xs zs"
  shows "list_all2 (\<lambda>y z. \<exists>x. P x y \<and> Q x z) ys zs"
  using assms
proof (induction arbitrary: zs rule: list_all2_induct)
  case Nil
  then show ?case by simp
next
  case (Cons x xs y ys)
  then show ?case by (cases zs) auto
qed

lemma insert_sale_succeeds:
  assumes "dt (csd_date sd)"
    and "\<forall>s \<in> set (sales d). s_sale_number s \<noteq> csd_sale_number sd"
    and "to_numeric 10 2 amount = Inr ta"
  shows "\<exists>s d1. insert_sale dt sd amount d = Inr (s, d1) \<and> sales d1 = sales d @ [s] \<and>
           products d1 = products d"
  using assms by (simp add: insert_sale_def Let_def)

lemma insert_sale_items_succeeds:
  assumes "\<exists>s \<in> set (sales d). s_id s = sid"
    and "\<forall>it \<in> set its. product_exists d (csi_product_id it) \<and>
           (\<exists>q. to_numeric 10 3 (csi_quantity it) = Inr q) \<and>
           (\<exists>up. to_numeric 10 2 (csi_unit_price it) = Inr up) \<and>
           (\<exists>tp. to_numeric 10 2 (fmul ar (csi_quantity it) (csi_unit_price it)) = Inr tp)"
  shows "\<exists>d'. insert_sale_items ar sid its d = Inr d'"
  using assms
proof (induction its arbitrary: d)
  case Nil
  then show ?case by (simp add: insert_sale_items_def)
next
  case (Cons it its)
  from Cons.prems obtain q up tp where
    c: "to_numeric 10 3 (csi_quantity it) = Inr q" "to_numeric 10 2 (csi_unit_price it) = Inr up"
       "to_numeric 10 2 (fmul ar (csi_quantity it) (csi_unit_price it)) = Inr tp"
       "product_exists d (csi_product_id it)"
    by auto
  with Cons.prems(1) obtain d1 where d1: "insert_sale_item_row ar sid d it = Inr d1"
    and k: "sales d1 = sales d" "products d1 = products d"
    by (auto simp: insert_sale_item_row_def Let_def)
  have 1: "\<exists>s \<in> set (sales d1). s_id s = sid" using Cons.prems(1) k by simp
  have 2: "\<forall>it \<in> set its. product_exists d1 (csi_product_id it) \<and>
           (\<exists>q. to_numeric 10 3 (csi_quantity it) = Inr q) \<and>
           (\<exists>up. to_numeric 10 2 (csi_unit_price it) = Inr up) \<and>
           (\<exists>tp. to_numeric 10 2 (fmul ar (csi_quantity it) (csi_unit_price it)) = Inr tp)"
    using Cons.prems(2) k by (simp add: product_exists_def)
  from Cons.IH[OF 1 2] obtain d' where "insert_sale_items ar sid its d1 = Inr d'" by blast
  with d1 show ?case by (simp add: insert_sale_items_def)
qed

lemma create_sale_effect:
  assumes "handleCreateSale ar dt saleData d = (d', None)"
  shows "\<exists>new_items new_movements.
     sale_items d' = sale_items d @ new_items \<and>
     stock_movements d' = stock_movements d @ new_movements \<and>
     list_all2 (\<lambda>ci si. si_product_id si = csi_product_id ci \<and>
                  to_numeric 10 3 (csi_quantity ci) = Inr (si_quantity si))
       (csd_items saleData) new_items \<and>
     list_all2 (\<lambda>si m. m_movement_type m = Sale \<and> m_product_id m = si_product_id si \<and>
                  m_quantity m = - si_quantity si \<and> m_reference_id m = Some (si_sale_id si) \<and>
                  m_reference_type m = Some Sale_item)
       new_items new_movements"
proof -
  from assms obtain s d1 d2 where
    d1: "insert_sale dt saleData
           (foldl (\<lambda>sum it. fadd ar sum (fmul ar (csi_quantity it) (csi_unit_price it)))
              (Num 0) (csd_items saleData)) d = Inr (s, d1)" and
    d2: "insert_sale_items ar (s_id s) (csd_items saleData) d1 = Inr d2" and
    d3: "insert_stock_movements
           (map (sale_movement (csd_sale_number saleData) (s_id s)) (csd_items saleData)) d2
         = Inr d'"
    by (auto simp: handleCreateSale_def Let_def split: sum.splits prod.splits)
  from insert_sale_items_effect[OF d2] obtain sis where
    a: "sale_items d2 = sale_items d1 @ sis"
       "list_all2 (\<lambda>ci si. si_sale_id si = s_id s \<and> si_product_id si = csi_product_id ci \<and>
                  to_numeric 10 3 (csi_quantity ci) = Inr (si_quantity si)) (csd_items saleData) sis"
       "stock_movements d2 = stock_movements d1"
    by blast
  from insert_stock_movements_effect[OF d3] obtain rows where
    b: "list_all2 stores
          (map (sale_movement (csd_sale_number saleData) (s_id s)) (csd_items saleData)) rows"
       "stock_movements d' = stock_movements d2 @ rows"
       "other_tables d' = other_tables d2"
    by blast
  from b(1) have c: "list_all2 (\<lambda>ci m. m_movement_type m = Sale \<and>
        m_product_id m = csi_product_id ci \<and>
        to_numeric 10 3 (csi_quantity ci) = Inr (- m_quantity m) \<and>
        m_reference_id m = Some (s_id s) \<and> m_reference_type m = Some Sale_item)
      (csd_items saleData) rows"
    unfolding list_all2_map1
    by (rule list_all2_mono) (auto simp: stores_def sale_movement_def to_numeric_jneg)
  have "list_all2 (\<lambda>si m. m_movement_type m = Sale \<and> m_product_id m = si_product_id si \<and>
                  m_quantity m = - si_quantity si \<and> m_reference_id m = Some (si_sale_id si) \<and>
                  m_reference_type m = Some Sale_item) sis rows"
    by (rule list_all2_mono[OF list_all2_join[OF a(2) c]]) auto
  moreover have "list_all2 (\<lambda>ci si. si_product_id si = csi_product_id ci \<and>
                  to_numeric 10 3 (csi_quantity ci) = Inr (si_quantity si))
       (csd_items saleData) sis"
    by (rule list_all2_mono[OF a(2)]) auto
  moreover have "sale_items d' = sale_items d @ sis"
    using b(3) a(1) insert_sale_effect[OF d1] by (simp add: other_tables_def)
  moreover have "stock_movements d' = stock_movements d @ rows"
    using b(2) a(3) insert_sale_effect[OF d1] by simp
  ultimately show ?thesis by blast
qed

lemma list_all2_same_left:
  assumes "list_all2 (\<lambda>x y. f x = Inr y) xs ys" and "list_all2 (\<lambda>x z. P x z \<and> f x = Inr (g z)) xs zs"
  shows "map g zs = ys"
  using assms
proof (induction arbitrary: zs rule: list_all2_induct)
  case Nil
  then show ?case by simp
next
  case (Cons x xs y ys)
  then show ?case by (auto simp: list_all2_Cons1)
qed

text \<open>
  Claim C9, amended. Let the date of the sale be acceptable and its number be new, let the
  total, the prices and the products of its positions be acceptable to their columns, let
  \<open>qs\<close> be the entered quantities as \<open>numeric(10,3)\<close> stores them, and let there be room for
  the movements: for every product, the absolute value of its stock plus the sum of the
  quantities sold stays within the ten digits of \<open>numeric(10,3)\<close>. Then \<open>handleCreateSale\<close>
  reports no error; it has appended one sale item per entered position, holding the entered
  (positive) quantity, and one movement per sale item, in the same order: of type \<open>sale\<close>, for
  the item's product, with the negated quantity, referring to the sale. The witness is a
  sale of two positions, 5 pieces and half a metre, stored as movements of -5 and -0.5.
\<close>

theorem create_sale_movements:
  assumes "dt (csd_date saleData)"
    and "\<forall>s \<in> set (sales d). s_sale_number s \<noteq> csd_sale_number saleData"
    and "to_numeric 10 2
           (foldl (\<lambda>sum it. fadd ar sum (fmul ar (csi_quantity it) (csi_unit_price it)))
              (Num 0) (csd_items saleData)) = Inr ta"
    and "list_all2 (\<lambda>it q. to_numeric 10 3 (csi_quantity it) = Inr q) (csd_items saleData) qs"
    and "\<forall>it \<in> set (csd_items saleData).
           product_exists d (csi_product_id it) \<and>
           (\<exists>up. to_numeric 10 2 (csi_unit_price it) = Inr up) \<and>
           (\<exists>tp. to_numeric 10 2 (fmul ar (csi_quantity it) (csi_unit_price it)) = Inr tp)"
    and "\<forall>p \<in> set (products d). \<bar>current_stock p\<bar> + sum_list (map abs qs) < 10 ^ 10"
  shows "\<exists>d' new_items new_movements.
     handleCreateSale ar dt saleData d = (d', None) \<and>
     sale_items d' = sale_items d @ new_items \<and>
     stock_movements d' = stock_movements d @ new_movements \<and>
     map si_quantity new_items = qs \<and>
     list_all2 (\<lambda>ci si. si_product_id si = csi_product_id ci \<and>
                  to_numeric 10 3 (csi_quantity ci) = Inr (si_quantity si))
       (csd_items saleData) new_items \<and>
     list_all2 (\<lambda>si m. m_movement_type m = Sale \<and> m_product_id m = si_product_id si \<and>
                  m_quantity m = - si_quantity si \<and> m_reference_id m = Some (si_sale_id si) \<and>
                  m_reference_type m = Some Sale_item)
       new_items new_movements"
proof -
  from insert_sale_succeeds[of dt saleData d, OF assms(1,2,3)] obtain s d1 where
    d1: "insert_sale dt saleData
           (foldl (\<lambda>sum it. fadd ar sum (fmul ar (csi_quantity it) (csi_unit_price it)))
              (Num 0) (csd_items saleData)) d = Inr (s, d1)"
    and k1: "sales d1 = sales d @ [s]" "products d1 = products d"
    by blast
  have 1: "\<exists>x \<in> set (sales d1). s_id x = s_id s" using k1 by simp
  have 2: "\<forall>it \<in> set (csd_items saleData). product_exists d1 (csi_product_id it) \<and>
           (\<exists>q. to_numeric 10 3 (csi_quantity it) = Inr q) \<and>
           (\<exists>up. to_numeric 10 2 (csi_unit_price it) = Inr up) \<and>
           (\<exists>tp. to_numeric 10 2 (fmul ar (csi_quantity it) (csi_unit_price it)) = Inr tp)"
  proof
    fix it assume i: "it \<in> set (csd_items saleData)"
    with assms(4) have "\<exists>q. to_numeric 10 3 (csi_quantity it) = Inr q"
      by (auto simp: list_all2_conv_all_nth in_set_conv_nth)
    with assms(5) i k1 show "product_exists d1 (csi_product_id it) \<and>
           (\<exists>q. to_numeric 10 3 (csi_quantity it) = Inr q) \<and>
           (\<exists>up. to_numeric 10 2 (csi_unit_price it) = Inr up) \<and>
           (\<exists>tp. to_numeric 10 2 (fmul ar (csi_quantity it) (csi_unit_price it)) = Inr tp)"
      by (simp add: product_exists_def)
  qed
  from insert_sale_items_succeeds[OF 1 2] obtain d2 where
    d2: "insert_sale_items ar (s_id s) (csd_items saleData) d1 = Inr d2" by blast
  from insert_sale_items_effect[OF d2] have k2: "products d2 = products d1" by blast
  have c: "list_all2 (\<lambda>v q. to_numeric 10 3 (mv_quantity v) = Inr q)
      (map (sale_movement (csd_sale_number saleData) (s_id s)) (csd_items saleData))
      (map uminus qs)"
    unfolding list_all2_map1 list_all2_map2
    by (rule list_all2_mono[OF assms(4)]) (simp add: sale_movement_def to_numeric_jneg)
  have e: "\<forall>v \<in> set (map (sale_movement (csd_sale_number saleData) (s_id s)) (csd_items saleData)).
      product_exists d2 (mv_product_id v)"
    using assms(5) k1 k2 by (auto simp: sale_movement_def product_exists_def)
  have t: "\<forall>v \<in> set (map (sale_movement (csd_sale_number saleData) (s_id s)) (csd_items saleData)).
      mv_movement_type v \<noteq> Purchase"
    by (auto simp: sale_movement_def)
  have "map abs (map uminus qs) = map abs qs" by (induction qs) simp_all
  then have b: "\<forall>p \<in> set (products d2).
      \<bar>current_stock p\<bar> + sum_list (map abs (map uminus qs)) < 10 ^ 10"
    using assms(6) k1 k2 by (simp only:)
  from insert_stock_movements_succeeds[OF c e t b] obtain d3 where
    d3: "insert_stock_movements
           (map (sale_movement (csd_sale_number saleData) (s_id s)) (csd_items saleData)) d2
         = Inr d3" by blast
  have h: "handleCreateSale ar dt saleData d = (d3, None)"
    by (simp add: handleCreateSale_def Let_def d1 d2 d3)
  from create_sale_effect[OF h] obtain new_items new_movements where
    n: "sale_items d3 = sale_items d @ new_items"
       "stock_movements d3 = stock_movements d @ new_movements"
       "list_all2 (\<lambda>ci si. si_product_id si = csi_product_id ci \<and>
                  to_numeric 10 3 (csi_quantity ci) = Inr (si_quantity si))
          (csd_items saleData) new_items"
       "list_all2 (\<lambda>si m. m_movement_type m = Sale \<and> m_product_id m = si_product_id si \<and>
                  m_quantity m = - si_quantity si \<and> m_reference_id m = Some (si_sale_id si) \<and>
                  m_reference_type m = Some Sale_item) new_items new_movements"
    by blast
  have q: "map si_quantity new_items = qs"
    by (rule list_all2_same_left[OF assms(4), where P = "\<lambda>ci si. si_product_id si = csi_product_id ci"])
       (rule n(3))
  show ?thesis
    by (rule exI[of _ d3], rule exI[of _ new_items], rule exI[of _ new_movements])
       (simp add: h n q)
qed

theorem create_sale_movements_witness:
  "snd (handleCreateSale exact_arith (\<lambda>s. True) ex_sale2 two_products_db) = None \<and>
   map (\<lambda>it. (csi_product_id it, csi_quantity it)) (csd_items ex_sale2)
     = [(2, Num 5), (4, Num (1 / 2))] \<and>
   map (\<lambda>si. (si_product_id si, si_quantity si))
     (sale_items (fst (handleCreateSale exact_arith (\<lambda>s. True) ex_sale2 two_products_db)))
     = [(2, 5000), (4, 500)] \<and>
   map (\<lambda>m. (m_product_id m, m_movement_type m, m_quantity m))
     (stock_movements (fst (handleCreateSale exact_arith (\<lambda>s. True) ex_sale2 two_products_db)))
     = [(2, Purchase, 10000), (2, Sale, - 5000), (4, Sale, - 500)] \<and>
   stocks two_products_db = [(2, 10000), (4, 0)] \<and>
   stocks (fst (handleCreateSale exact_arith (\<lambda>s. True) ex_sale2 two_products_db))
     = [(2, 5000), (4, - 500)]"
proof -
  have h1: "(\<lambda>s. True) (csd_date ex_sale2)" by simp
  have h2: "\<forall>s \<in> set (sales two_products_db). s_sale_number s \<noteq> csd_sale_number ex_sale2"
    by code_simp
  have h3: "to_numeric 10 2
           (foldl (\<lambda>sum it. fadd exact_arith sum
                      (fmul exact_arith (csi_quantity it) (csi_unit_price it)))
              (Num 0) (csd_items ex_sale2)) = Inr 30200"
    by code_simp
  have h4: "list_all2 (\<lambda>it q. to_numeric 10 3 (csi_quantity it) = Inr q) (csd_items ex_sale2)
      [5000, 500]"
    by code_simp
  have h5: "\<forall>it \<in> set (csd_items ex_sale2).
           product_exists two_products_db (csi_product_id it) \<and>
           (\<exists>up. to_numeric 10 2 (csi_unit_price it) = Inr up) \<and>
           (\<exists>tp. to_numeric 10 2 (fmul exact_arith (csi_quantity it) (csi_unit_price it)) = Inr tp)"
  proof -
    have "\<forall>it \<in> set (csd_items ex_sale2).
           product_exists two_products_db (csi_product_id it) \<and>
           \<not> isl (to_numeric 10 2 (csi_unit_price it)) \<and>
           \<not> isl (to_numeric 10 2 (fmul exact_arith (csi_quantity it) (csi_unit_price it)))"
      by code_simp
    then show ?thesis by (metis sum.collapse(2))
  qed
  have h6: "\<forall>p \<in> set (products two_products_db).
      \<bar>current_stock p\<bar> + sum_list (map abs [5000, 500]) < 10 ^ 10"
    by code_simp
  from create_sale_movements[OF h1 h2 h3 h4 h5 h6]
  obtain d' where "handleCreateSale exact_arith (\<lambda>s. True) ex_sale2 two_products_db = (d', None)"
    by blast
  then have s: "snd (handleCreateSale exact_arith (\<lambda>s. True) ex_sale2 two_products_db) = None"
    by simp
  have v: "map (\<lambda>it. (csi_product_id it, csi_quantity it)) (csd_items ex_sale2)
     = [(2, Num 5), (4, Num (1 / 2))]"
   "map (\<lambda>si. (si_product_id si, si_quantity si))
     (sale_items (fst (handleCreateSale exact_arith (\<lambda>s. True) ex_sale2 two_products_db)))
     = [(2, 5000), (4, 500)]"
   "map (\<lambda>m. (m_product_id m, m_movement_type m, m_quantity m))
     (stock_movements (fst (handleCreateSale exact_arith (\<lambda>s. True) ex_sale2 two_products_db)))
     = [(2, Purchase, 10000), (2, Sale, - 5000), (4, Sale, - 500)]"
   "stocks two_products_db = [(2, 10000), (4, 0)]"
   "stocks (fst (handleCreateSale exact_arith (\<lambda>s. True) ex_sale2 two_products_db))
     = [(2, 5000), (4, - 500)]"
    by code_simp+
  show ?thesis using s v by simp
qed

text \<open>
  Claim C9 as stated fails when the insert of the movements fails. The handler writes the
  sale, then its items, then the movements, with no transaction around the three statements.
  Below, two positions of 9999999 pieces each would take the stock beyond \<open>numeric(10,3)\<close>:
  the sale and its two items are recorded, and no movement is.
\<close>

theorem create_sale_counterexample:
  "map (\<lambda>it. (csi_product_id it, csi_quantity it)) (csd_items big_sale)
     = [(2, Num 9999999), (2, Num 9999999)] \<and>
   stocks stocked_db = [(2, 10000)] \<and>
   snd (handleCreateSale exact_arith (\<lambda>s. True) big_sale stocked_db) = Some Numeric_overflow \<and>
   map s_sale_number (sales (fst (handleCreateSale exact_arith (\<lambda>s. True) big_sale stocked_db)))
     = [''S/3''] \<and>
   map si_quantity (sale_items (fst (handleCreateSale exact_arith (\<lambda>s. True) big_sale stocked_db)))
     = [9999999000, 9999999000] \<and>
   stock_movements (fst (handleCreateSale exact_arith (\<lambda>s. True) big_sale stocked_db))
     = stock_movements stocked_db \<and>
   stocks (fst (handleCreateSale exact_arith (\<lambda>s. True) big_sale stocked_db)) = [(2, 10000)]"
  by code_simp


section \<open>The matcher\<close>

text \<open>
  The fuel a quantifier starts with is never used up: any larger amount gives the same list of
  matches.
\<close>

lemma advances_refl: "advances st st"
  by (simp add: advances_def)

lemma advances_trans: "advances a b \<Longrightarrow> advances b c \<Longrightarrow> advances a c"
  by (auto simp: advances_def)

lemma rep_advances:
  assumes "\<And>a b. b \<in> set (f a) \<Longrightarrow> advances a b"
  shows "st' \<in> set (rep n g mn mx f st) \<Longrightarrow> advances st st'"
proof (induction n arbitrary: mn mx st)
  case 0
  then show ?case by simp
next
  case (Suc n)
  show ?case
  proof (cases "mx = Some 0")
    case True
    with Suc.prems show ?thesis by (simp add: advances_refl)
  next
    case False
    with Suc.prems have "st' = st \<or>
      (\<exists>m \<in> set (f st). st' \<in> set (rep n g (mn - 1) (map_option (\<lambda>k. k - 1) mx) f m))"
      by (auto simp: Let_def split: if_splits)
    then show ?thesis
      using Suc.IH assms advances_refl advances_trans by blast
  qed
qed

lemma rmatch_advances: "st' \<in> set (rmatch ic r st) \<Longrightarrow> advances st st'"
proof (induction r arbitrary: st st')
  case (Cls x)
  then show ?case by (cases st) (auto simp: advances_def split: list.splits if_splits)
next
  case Dot
  then show ?case by (cases st) (auto simp: advances_def split: list.splits if_splits)
next
  case AnyChar
  then show ?case by (cases st) (auto simp: advances_def split: list.splits if_splits)
next
  case Eps
  then show ?case by (simp add: advances_refl)
next
  case (Seq r1 r2)
  from Seq.prems obtain m where "m \<in> set (rmatch ic r1 st)" "st' \<in> set (rmatch ic r2 m)"
    by auto
  then show ?case using Seq.IH advances_trans by blast
next
  case (Alt r1 r2)
  from Alt.prems have "st' \<in> set (rmatch ic r1 st) \<or> st' \<in> set (rmatch ic r2 st)" by simp
  then show ?case using Alt.IH by blast
next
  case (Rep g mn mx r)
  obtain i s c where st: "st = (i, s, c)" by (cases st) auto
  from Rep.prems show ?case
    unfolding st rmatch.simps
    by (rule rep_advances[rotated]) (rule Rep.IH)
next
  case (Grp k r)
  obtain i s c where st: "st = (i, s, c)" by (cases st) auto
  from Grp.prems obtain m where "m \<in> set (rmatch ic r (i, s, c))"
    and "st' = (fst m, fst (snd m), (k, take (fst m - i) s) # snd (snd m))"
    unfolding st by (auto simp: case_prod_unfold)
  with Grp.IH[of m "(i, s, c)"] show ?case
    unfolding st by (simp add: advances_def)
next
  case Bol
  then show ?case by (cases st) (auto simp: advances_def split: if_splits)
next
  case Eol
  then show ?case by (cases st) (auto simp: advances_def split: if_splits)
qed

lemma rep_fuel_step:
  assumes "\<And>a b. b \<in> set (f a) \<Longrightarrow> advances a b"
  shows "mn + length (fst (snd st)) < n \<Longrightarrow> rep (Suc n) g mn mx f st = rep n g mn mx f st"
proof (induction n arbitrary: mn mx st)
  case 0
  then show ?case by simp
next
  case (Suc n)
  have "(if mn = 0 \<and> fst m = fst st then []
         else rep (Suc n) g (mn - 1) (map_option (\<lambda>k. k - 1) mx) f m)
      = (if mn = 0 \<and> fst m = fst st then []
         else rep n g (mn - 1) (map_option (\<lambda>k. k - 1) mx) f m)"
    if m: "m \<in> set (f st)" for m
  proof (cases "mn = 0 \<and> fst m = fst st")
    case True
    then show ?thesis by simp
  next
    case False
    from assms[OF m] have a: "fst st \<le> fst m"
      "fst m + length (fst (snd m)) = fst st + length (fst (snd st))"
      by (auto simp: advances_def)
    with False Suc.prems have "(mn - 1) + length (fst (snd m)) < n" by auto
    from Suc.IH[OF this] show ?thesis by (simp only: False if_False)
  qed
  then have meq: "map (\<lambda>m. if mn = 0 \<and> fst m = fst st then []
         else rep (Suc n) g (mn - 1) (map_option (\<lambda>k. k - 1) mx) f m) (f st)
    = map (\<lambda>m. if mn = 0 \<and> fst m = fst st then []
         else rep n g (mn - 1) (map_option (\<lambda>k. k - 1) mx) f m) (f st)"
    by (intro map_cong) auto
  have L: "rep (Suc (Suc n)) g mn mx f st =
     (if mx = Some 0 then [st]
      else
        let more = concat (map (\<lambda>st'. if mn = 0 \<and> fst st' = fst st then []
                                        else rep (Suc n) g (mn - 1) (map_option (\<lambda>k. k - 1) mx) f st')
                             (f st))
        in if 0 < mn then more else if g then more @ [st] else st # more)"
    by (rule rep.simps(2))
  have R: "rep (Suc n) g mn mx f st =
     (if mx = Some 0 then [st]
      else
        let more = concat (map (\<lambda>st'. if mn = 0 \<and> fst st' = fst st then []
                                        else rep n g (mn - 1) (map_option (\<lambda>k. k - 1) mx) f st')
                             (f st))
        in if 0 < mn then more else if g then more @ [st] else st # more)"
    by (rule rep.simps(2))
  show ?case by (simp only: L R meq)
qed

lemma fuel_suffices:
  assumes "mn + length s < n"
  shows "rep n g mn mx (rmatch ic r) (i, s, c) = rmatch ic (Rep g mn mx r) (i, s, c)"
proof -
  have "rep (Suc (mn + length s) + k) g mn mx (rmatch ic r) (i, s, c)
      = rep (Suc (mn + length s)) g mn mx (rmatch ic r) (i, s, c)" for k
  proof (induction k)
    case 0
    then show ?case by simp
  next
    case (Suc k)
    have "rep (Suc (Suc (mn + length s) + k)) g mn mx (rmatch ic r) (i, s, c)
        = rep (Suc (mn + length s) + k) g mn mx (rmatch ic r) (i, s, c)"
      by (rule rep_fuel_step) (auto intro: rmatch_advances)
    with Suc show ?case by simp
  qed
  from this[of "n - Suc (mn + length s)"] assms show ?thesis by simp
qed


section \<open>The parsers\<close>

text \<open>
  Claim C7 at a concrete input. The inner loop of \<open>extractItems\<close> has no \<open>break\<close>: a line
  that both patterns match yields two items. The line below (a screw 4 x 50, a hundred pieces)
  matches the six-column pattern with the name \<open>Wkret 4 50\<close> and the four-token pattern with
  the name \<open>Wkret\<close>, the quantity 4, the unit \<open>50\<close> and the net price 100. The net
  total of each item is the product of its quantity and its net price, as the arithmetic
  \<open>ar\<close> rounds it.
\<close>

theorem line_items_two_matches:
  "map (\<lambda>it. (name it, quantity it, unit it, net_price it, total_net it))
     (line_items ar ''Wkret 4 50 100 szt 0,10 23% 0,12'')
   = [(''Wkret 4 50'', Num 100, ''szt'', Num (1 / 10), fmul ar (Num 100) (Num (1 / 10))),
      (''Wkret'', Num 4, ''50'', Num 100, fmul ar (Num 4) (Num 100))] \<and>
   length (extractItems ar ''Wkret 4 50 100 szt 0,10 23% 0,12'') = 2"
proof -
  have m: "map (\<lambda>p. re_match False p (trim ''Wkret 4 50 100 szt 0,10 23% 0,12'')) item_patterns
     = [Some (''Wkret 4 50 100 szt 0,10 23% 0,12'',
          [(6, ''0,12''), (5, ''23''), (4, ''0,10''), (3, ''szt''), (2, ''100''),
           (1, ''Wkret 4 50'')]),
        Some (''Wkret 4 50 100'', [(4, ''100''), (3, ''50''), (2, ''4''), (1, ''Wkret'')])]"
    by code_simp
  have p: "parseFloat ''100'' = Num 100" "parseFloat ''0.10'' = Num (1 / 10)"
    "parseFloat ''4'' = Num 4"
    "trim ''Wkret 4 50'' = ''Wkret 4 50''" "trim ''Wkret'' = ''Wkret''"
    by code_simp+
  have l: "line_items ar ''Wkret 4 50 100 szt 0,10 23% 0,12'' =
      concat (map (\<lambda>m. case m of Some m \<Rightarrow> item_of_match ar m | None \<Rightarrow> [])
        (map (\<lambda>p. re_match False p (trim ''Wkret 4 50 100 szt 0,10 23% 0,12'')) item_patterns))"
    by (simp add: line_items_def comp_def)
  have 1: "map (\<lambda>it. (name it, quantity it, unit it, net_price it, total_net it))
     (line_items ar ''Wkret 4 50 100 szt 0,10 23% 0,12'')
   = [(''Wkret 4 50'', Num 100, ''szt'', Num (1 / 10), fmul ar (Num 100) (Num (1 / 10))),
      (''Wkret'', Num 4, ''50'', Num 100, fmul ar (Num 4) (Num 100))]"
    unfolding l m by (simp add: item_of_match_def group_def p Let_def)
  have "length (map (\<lambda>it. (name it, quantity it, unit it, net_price it, total_net it))
     (line_items ar ''Wkret 4 50 100 szt 0,10 23% 0,12'')) = 2"
    unfolding 1 by simp
  then have n: "length (line_items ar ''Wkret 4 50 100 szt 0,10 23% 0,12'') = 2"
    by simp
  then have "length (extractItems ar ''Wkret 4 50 100 szt 0,10 23% 0,12'') = 2"
    by (auto simp: extractItems_def split_on.simps Let_def)
  with 1 show ?thesis by simp
qed

text \<open>Every item a matched line yields carries the products of its own quantity and prices.\<close>

lemma item_of_match_totals:
  "it \<in> set (item_of_match ar m) \<Longrightarrow>
   total_net it = fmul ar (quantity it) (net_price it) \<and>
   total_gross it = fmul ar (quantity it) (gross_price it)"
  by (auto simp: item_of_match_def Let_def split: option.splits)

text \<open>
  Claim C2 at a concrete input. When the completion call fails, \<open>parseInvoiceWithAI\<close>
  returns \<open>fallbackParsing\<close>: the placeholder item with the totals 100 and 123, and the invoice
  totals 0 and 0.
\<close>

theorem fallback_totals_zero:
  "completion offline_env sample_text = None \<and>
   totalNet (parsePDF ar offline_env sample_text) = Num 0 \<and>
   map total_net (items (parsePDF ar offline_env sample_text)) = [Num 100] \<and>
   totalGross (parsePDF ar offline_env sample_text) = Num 0 \<and>
   map total_gross (items (parsePDF ar offline_env sample_text)) = [Num 123] \<and>
   \<not> totals_consistent (parsePDF ar offline_env sample_text)"
  by (simp add: parsePDF_def parseInvoiceWithAI_def fallbackParsing_def offline_env_def
      ai_extractItems_def placeholder_item_def totals_consistent_def within_tolerance_def)

text \<open>
  The branch of \<open>parsePDF\<close> that sums the items is never taken, and an answer of the
  completion service is passed on with the totals it states.
\<close>

lemma parseInvoiceWithAI_never_throws: "\<exists>r. parseInvoiceWithAI e t = Inr r"
  by (simp add: parseInvoiceWithAI_def split: option.splits sum.splits)

lemma parsePDF_is_AI_result: "parseInvoiceWithAI e t = Inr (parsePDF ar e t)"
  by (simp add: parsePDF_def parseInvoiceWithAI_def split: option.splits sum.splits)

lemma ai_totals_as_stated:
  "totalNet (parsePDF ar answering_env sample_text) = Num 999 \<and>
   map total_net (items (parsePDF ar answering_env sample_text)) = [Num 100]"
  by code_simp

lemma is_digit_facts:
  assumes "is_digit c"
  shows "to_slash c = c" "\<not> is_space c" "c \<noteq> CHR ''/''" "c \<noteq> CHR ''-''" "c \<noteq> CHR ''+''"
    "c \<noteq> CHR ''x''" "c \<noteq> CHR ''X''"
  using assms by (auto simp: is_digit_def is_space_def code_def to_slash_def)

lemma days_in_month_bounds: "28 \<le> days_in_month y m" "days_in_month y m \<le> 31"
  by (auto simp: days_in_month_def)

lemma norm_day_id: "1 \<le> d \<Longrightarrow> d \<le> days_in_month y m \<Longrightarrow> norm_day y m d = (y, m, d)"
  by (subst norm_day.simps) simp

lemma month_step:
  "0 \<le> m \<Longrightarrow> m \<le> 11 \<Longrightarrow> 0 \<le> snd (prev_month (y, m)) \<and> snd (prev_month (y, m)) \<le> 11 \<and>
     0 \<le> snd (next_month (y, m)) \<and> snd (next_month (y, m)) \<le> 11"
  by (auto simp: prev_month_def next_month_def)

lemma norm_day_normal:
  "0 \<le> m \<Longrightarrow> m \<le> 11 \<Longrightarrow> norm_day y m d = (y', m', d') \<Longrightarrow>
   0 \<le> m' \<and> m' \<le> 11 \<and> 1 \<le> d' \<and> d' \<le> days_in_month y' m'"
proof (induction y m d rule: norm_day.induct)
  case (1 y m d)
  show ?case
  proof (cases "d < 1")
    case True
    with "1.prems"(3) have "norm_day (fst (prev_month (y, m))) (snd (prev_month (y, m)))
          (d + days_in_month (fst (prev_month (y, m))) (snd (prev_month (y, m)))) = (y', m', d')"
      by (subst (asm) norm_day.simps) simp
    with "1.IH"(1)[OF True] month_step[OF "1.prems"(1,2)] show ?thesis by blast
  next
    case False
    show ?thesis
    proof (cases "days_in_month y m < d")
      case True
      with False "1.prems"(3) have "norm_day (fst (next_month (y, m))) (snd (next_month (y, m)))
          (d - days_in_month y m) = (y', m', d')"
        by (subst (asm) norm_day.simps) simp
      with "1.IH"(2)[OF False True] month_step[OF "1.prems"(1,2)] show ?thesis by blast
    next
      case F2: False
      with False "1.prems" show ?thesis
        by (subst (asm) norm_day.simps) auto
    qed
  qed
qed

lemma norm_day_year_small:
  assumes "0 \<le> m" "m \<le> 11" "1 \<le> d" "d \<le> 31"
  shows "y \<le> fst (norm_day y m d)"
proof (cases "d \<le> days_in_month y m")
  case True
  with assms show ?thesis by (simp add: norm_day_id)
next
  case False
  have "28 \<le> days_in_month y m" by (rule days_in_month_bounds)
  with False assms have a: "1 \<le> d - days_in_month y m" "d - days_in_month y m \<le> 3" by auto
  have "28 \<le> days_in_month (fst (next_month (y, m))) (snd (next_month (y, m)))"
    by (rule days_in_month_bounds)
  with a have "norm_day (fst (next_month (y, m))) (snd (next_month (y, m))) (d - days_in_month y m)
     = (fst (next_month (y, m)), snd (next_month (y, m)), d - days_in_month y m)"
    by (intro norm_day_id) auto
  with False assms(3) have "norm_day y m d
     = (fst (next_month (y, m)), snd (next_month (y, m)), d - days_in_month y m)"
    by (subst norm_day.simps) simp
  then show ?thesis by (simp add: next_month_def)
qed

lemma new_Date_roundtrip:
  assumes "y \<le> 9999"
  shows "new_Date (int y) (int m - 1) (int d) = Some (int y, int m - 1, int d) \<longleftrightarrow> valid_ymd y m d"
proof
  assume v: "valid_ymd y m d"
  then have "(int m - 1) div 12 = 0" "(int m - 1) mod 12 = int m - 1"
    by (auto simp: valid_ymd_def calendar_date_def)
  moreover from v have "norm_day (int y) (int m - 1) (int d) = (int y, int m - 1, int d)"
    by (intro norm_day_id) (auto simp: valid_ymd_def calendar_date_def)
  ultimately show "new_Date (int y) (int m - 1) (int d) = Some (int y, int m - 1, int d)"
    using v assms by (auto simp: new_Date_def valid_ymd_def calendar_date_def in_date_range_def Let_def)
next
  assume r: "new_Date (int y) (int m - 1) (int d) = Some (int y, int m - 1, int d)"
  define yr where "yr = (if int y \<le> 99 then 1900 + int y else int y)"
  from r have n: "norm_day (yr + (int m - 1) div 12) ((int m - 1) mod 12) (int d)
      = (int y, int m - 1, int d)"
    by (auto simp: new_Date_def Let_def yr_def split: if_splits)
  have "0 \<le> (int m - 1) mod 12" "(int m - 1) mod 12 \<le> 11" by auto
  from norm_day_normal[OF this n]
  have b: "0 \<le> int m - 1" "int m - 1 \<le> 11" "1 \<le> int d" "int d \<le> days_in_month (int y) (int m - 1)"
    by auto
  then have e: "(int m - 1) div 12 = 0" "(int m - 1) mod 12 = int m - 1" by auto
  have "int d \<le> 31" using b(4) days_in_month_bounds(2)[of "int y" "int m - 1"] by linarith
  from norm_day_year_small[OF b(1,2,3) this, of yr] n e have "yr \<le> int y" by simp
  then have "100 \<le> y" by (auto simp: yr_def split: if_splits)
  with b show "valid_ymd y m d" by (auto simp: valid_ymd_def calendar_date_def)
qed


lemma clean_digits: "list_all is_digit a \<Longrightarrow> map to_slash a = a"
  by (rule map_idI) (auto simp: list_all_iff is_digit_facts(1))

lemma to_slash_sep: "s \<in> set ''.-/'' \<Longrightarrow> to_slash s = CHR ''/''"
  by (simp add: to_slash_def)

lemma split_on_nonempty: "split_on c s \<noteq> []"
  by (induction s) (auto split: list.splits)

lemma split_on_prefix:
  "c \<notin> set a \<Longrightarrow> split_on c (a @ c # r) = a # split_on c r"
  by (induction a) (auto split: list.splits)

lemma split_on_none: "c \<notin> set a \<Longrightarrow> split_on c a = [a]"
  by (induction a) (auto split: list.splits)

lemma digits_no_slash: "digits s \<Longrightarrow> CHR ''/'' \<notin> set s"
  by (auto simp: digits_def list_all_iff dest: is_digit_facts(3))

lemma parseInt_digits:
  assumes "digits s"
  shows "parseInt s = Some (int (dec_val s))"
proof -
  from assms obtain x xs where s: "s = x # xs" and x: "is_digit x" and xs: "list_all is_digit xs"
    by (cases s) (auto simp: digits_def)
  have 1: "dropWhile is_space s = s" using s x by (simp add: is_digit_facts)
  have 2: "takeWhile is_digit s = s" using s x xs by (simp add: list_all_iff)
  have 3: "(take 2 s = ''0x'' \<or> take 2 s = ''0X'') = False"
    using s xs by (cases xs) (auto dest: is_digit_facts)
  have 4: "hd s \<noteq> CHR ''-''" "hd s \<noteq> CHR ''+''" "s \<noteq> []"
    using s x by (auto dest: is_digit_facts)
  show ?thesis
    unfolding parseInt_def 1 Let_def
    by (simp add: 2 3 4)
qed

lemma dec_val_snoc: "dec_val (s @ [c]) = 10 * dec_val s + digit_val c"
  by (simp add: dec_val_def)

lemma dec_val_bound: "list_all is_digit s \<Longrightarrow> dec_val s < 10 ^ length s"
proof (induction s rule: rev_induct)
  case Nil
  then show ?case by (simp add: dec_val_def)
next
  case (snoc c s)
  then have "digit_val c \<le> 9" by (auto simp: is_digit_def digit_val_def)
  with snoc show ?case by (simp add: dec_val_snoc)
qed

lemma dec_val_zero_prefix: "dec_val (CHR ''0'' # s) = dec_val s"
  by (simp add: dec_val_def digit_val_def code_def)

lemma padStart_digits:
  assumes "digits s"
  shows "digits (padStart 2 CHR ''0'' s)" and "dec_val (padStart 2 CHR ''0'' s) = dec_val s"
proof -
  have z: "is_digit CHR ''0''" by (simp add: is_digit_def code_def)
  from assms have "1 \<le> length s" by (cases s) (auto simp: digits_def)
  then have "length s = 1 \<or> 2 \<le> length s" by arith
  then have "padStart 2 CHR ''0'' s = CHR ''0'' # s \<or> padStart 2 CHR ''0'' s = s"
    by (auto simp: padStart_def numeral_2_eq_2)
  then show "digits (padStart 2 CHR ''0'' s)" and "dec_val (padStart 2 CHR ''0'' s) = dec_val s"
    using assms z by (auto simp: digits_def dec_val_zero_prefix)
qed

lemma formatDateToISO_parts:
  assumes "digits year" "digits month" "digits day" "length year = 4"
  shows "(case (parseInt year, parseInt (padStart 2 CHR ''0'' month),
                parseInt (padStart 2 CHR ''0'' day)) of
            (Some y, Some m, Some d) \<Rightarrow>
              (case new_Date y (m - 1) d of
                 Some (fy, fm, fd) \<Rightarrow>
                   if fy \<noteq> y \<or> fm \<noteq> m - 1 \<or> fd \<noteq> d then today
                   else year @ ''-'' @ padStart 2 CHR ''0'' month @ ''-'' @ padStart 2 CHR ''0'' day
               | None \<Rightarrow> today)
          | _ \<Rightarrow> today)
       = (if valid_ymd (dec_val year) (dec_val month) (dec_val day)
          then year @ ''-'' @ padStart 2 CHR ''0'' month @ ''-'' @ padStart 2 CHR ''0'' day
          else today)"
proof -
  from assms(1,4) dec_val_bound[of year] have "dec_val year \<le> 9999"
    by (simp add: digits_def)
  note rt = new_Date_roundtrip[OF this, of "dec_val month" "dec_val day"]
  show ?thesis
    unfolding parseInt_digits[OF assms(1)] parseInt_digits[OF padStart_digits(1)[OF assms(2)]]
      parseInt_digits[OF padStart_digits(1)[OF assms(3)]]
      padStart_digits(2)[OF assms(2)] padStart_digits(2)[OF assms(3)]
    using rt by (auto split: option.splits)
qed


text \<open>
  Claim C8. Let the token be three groups of digits separated by \<open>.\<close>, \<open>-\<close> or \<open>/\<close>, the
  year group having four digits (as both date patterns ensure). If the first group has four
  digits it is read as year, month, day, otherwise as day, month, year. The result is
  \<open>year-month-day\<close>, month and day padded to two digits, exactly when the three numbers name a
  day of the calendar and the year is at least 100 (\<open>Date\<close> reads the years 0 to 99 as 1900 to
  1999, so those never reconstruct); otherwise the result is the current date. The witness
  holds the two examples of the claim: \<open>15.01.2024\<close> gives \<open>2024-01-15\<close>, \<open>31.02.2024\<close> gives
  the current date.
\<close>

theorem formatDateToISO_spec:
  assumes "digits a" "digits b" "digits c"
    and "s1 \<in> set ''.-/''" "s2 \<in> set ''.-/''"
    and "length a = 4 \<or> length c = 4"
  shows "formatDateToISO today (a @ s1 # b @ s2 # c) =
    (if length a = 4
     then (if 100 \<le> dec_val a \<and> calendar_date (dec_val a) (dec_val b) (dec_val c)
           then a @ ''-'' @ padStart 2 CHR ''0'' b @ ''-'' @ padStart 2 CHR ''0'' c else today)
     else (if 100 \<le> dec_val c \<and> calendar_date (dec_val c) (dec_val b) (dec_val a)
           then c @ ''-'' @ padStart 2 CHR ''0'' b @ ''-'' @ padStart 2 CHR ''0'' a else today))"
proof -
  have cl: "map to_slash (a @ s1 # b @ s2 # c) = a @ CHR ''/'' # b @ CHR ''/'' # c"
    using assms(1-3) to_slash_sep[OF assms(4)] to_slash_sep[OF assms(5)]
    by (simp add: clean_digits digits_def)
  have sp: "split_on CHR ''/'' (a @ CHR ''/'' # b @ CHR ''/'' # c) = [a, b, c]"
    using assms(1-3) by (simp add: split_on_prefix split_on_none digits_no_slash)
  show ?thesis
  proof (cases "length a = 4")
    case True
    from formatDateToISO_parts[OF assms(1) assms(2) assms(3) True, of today] True
    show ?thesis
      unfolding formatDateToISO_def cl sp Let_def valid_ymd_def by simp
  next
    case False
    with assms(6) have "length c = 4" by simp
    from formatDateToISO_parts[OF assms(3) assms(2) assms(1) this, of today] False
    show ?thesis
      unfolding formatDateToISO_def cl sp Let_def valid_ymd_def by simp
  qed
qed

theorem formatDateToISO_spec_witness:
  "digits ''15'' \<and> digits ''01'' \<and> digits ''2024'' \<and> digits ''31'' \<and> digits ''02'' \<and>
   CHR ''.'' \<in> set ''.-/'' \<and> (length ''15'' = 4 \<or> length ''2024'' = 4) \<and>
   formatDateToISO ''2026-01-01'' ''15.01.2024'' = ''2024-01-15'' \<and>
   formatDateToISO ''2026-01-01'' ''31.02.2024'' = ''2026-01-01'' \<and>
   formatDateToISO ''2026-01-01'' ''2024-1-5'' = ''2024-01-05''"
proof -
  have d: "digits ''15''" "digits ''01''" "digits ''2024''" "digits ''31''" "digits ''02''"
    "digits ''1''" "digits ''5''"
    by code_simp+
  have s: "CHR ''.'' \<in> set ''.-/''" "CHR ''-'' \<in> set ''.-/''" by simp_all
  have l: "length ''15'' = 4 \<or> length ''2024'' = 4" "length ''31'' = 4 \<or> length ''2024'' = 4"
    "length ''2024'' = 4 \<or> length ''5'' = 4" by simp_all
  have v: "calendar_date (dec_val ''2024'') (dec_val ''01'') (dec_val ''15'')"
    "\<not> calendar_date (dec_val ''2024'') (dec_val ''02'') (dec_val ''31'')"
    "calendar_date (dec_val ''2024'') (dec_val ''1'') (dec_val ''5'')"
    "100 \<le> dec_val ''2024''"
    "padStart 2 CHR ''0'' ''01'' = ''01''" "padStart 2 CHR ''0'' ''15'' = ''15''"
    "padStart 2 CHR ''0'' ''1'' = ''01''" "padStart 2 CHR ''0'' ''5'' = ''05''"
    by code_simp+
  show ?thesis
    using formatDateToISO_spec[OF d(1) d(2) d(3) s(1) s(1) l(1), of "''2026-01-01''"]
      formatDateToISO_spec[OF d(4) d(5) d(3) s(1) s(1) l(2), of "''2026-01-01''"]
      formatDateToISO_spec[OF d(3) d(6) d(7) s(2) s(2) l(3), of "''2026-01-01''"]
      d s l v
    by simp
qed

end
